(* ===== verification/MintLock.thy ===== *)
theory MintLock
  imports Main
begin

text \<open>
  The per-process single flight of minting (\<open>AuthService._mint_lock\<close> and
  \<open>_authenticate_with_minted_token\<close>) under every interleaving.  Coroutines are numbered; a step is
  what one of them does between two \<open>await\<close>s, or the environment ending a cache entry.  The lock
  is asyncio's: a free lock with no waiter is taken at once, else the coroutine queues, and after
  a release the head of the queue takes it.  \<open>_mint_locks\<close> is a weak dictionary: an entry goes when
  the last coroutine referring to its lock is done.
\<close>

section \<open>State\<close>

text \<open>
  Where a coroutine in \<open>_authenticate_with_minted_token\<close> is: before it, queued, inside the lock
  (looking the cache up, minting, writing the cache, about to leave), or done.
\<close>

datatype mint_phase = Looking | Minting | Writing | Leaving

datatype task_pc = NotStarted | Waiting string nat | Holding string nat mint_phase | Finished

record asyncio_lock =
  locked :: bool
  waiters :: "nat list"
  referrers :: "nat list"

text \<open>
  \<open>live\<close> says which keys have a cached token; \<open>mint_count\<close> and \<open>losses\<close> are ghosts that count, per
  key, the tokens minted, and the events that cost one: an expiry, a write that stored nothing,
  a lookup that failed.
\<close>

record mint_state =
  tasks :: "nat \<Rightarrow> task_pc"
  mint_locks :: "string \<Rightarrow> nat option"
  lock_heap :: "nat \<Rightarrow> asyncio_lock"
  next_lock :: nat
  live :: "string \<Rightarrow> bool"
  mint_count :: "string \<Rightarrow> nat"
  losses :: "string \<Rightarrow> nat"

definition new_lock :: asyncio_lock where
  "new_lock = \<lparr>locked = False, waiters = [], referrers = []\<rparr>"

definition init_mint :: mint_state where
  "init_mint = \<lparr>tasks = (\<lambda>_. NotStarted), mint_locks = (\<lambda>_. None), lock_heap = (\<lambda>_. new_lock),
     next_lock = 0, live = (\<lambda>_. False), mint_count = (\<lambda>_. 0), losses = (\<lambda>_. 0)\<rparr>"

section \<open>Steps\<close>

text \<open>\<open>_mint_lock\<close>: the lock of a key, created when the dictionary has none.\<close>

definition mint_lock :: "string \<Rightarrow> mint_state \<Rightarrow> nat \<times> mint_state" where
  "mint_lock k s =
     (case mint_locks s k of
        Some l \<Rightarrow> (l, s)
      | None \<Rightarrow> (next_lock s,
          s\<lparr>mint_locks := (mint_locks s)(k \<mapsto> next_lock s),
            lock_heap := (lock_heap s)(next_lock s := new_lock), next_lock := Suc (next_lock s)\<rparr>))"

definition set_lock :: "nat \<Rightarrow> asyncio_lock \<Rightarrow> mint_state \<Rightarrow> mint_state" where
  "set_lock l lk s = s\<lparr>lock_heap := (lock_heap s)(l := lk)\<rparr>"

definition goto :: "nat \<Rightarrow> task_pc \<Rightarrow> mint_state \<Rightarrow> mint_state" where
  "goto t pc s = s\<lparr>tasks := (tasks s)(t := pc)\<rparr>"

definition lose :: "string \<Rightarrow> mint_state \<Rightarrow> mint_state" where
  "lose k s = s\<lparr>losses := (losses s)(k := Suc (losses s k))\<rparr>"

text \<open>\<open>async with\<close>: take the lock, or queue for it.\<close>

definition enter_lock :: "nat \<Rightarrow> string \<Rightarrow> nat \<Rightarrow> mint_state \<Rightarrow> mint_state" where
  "enter_lock t k l s =
     (let lk = lock_heap s l; lk1 = lk\<lparr>referrers := t # referrers lk\<rparr>
      in if \<not> locked lk \<and> waiters lk = []
         then goto t (Holding k l Looking) (set_lock l (lk1\<lparr>locked := True\<rparr>) s)
         else goto t (Waiting k l) (set_lock l (lk1\<lparr>waiters := waiters lk @ [t]\<rparr>) s))"

text \<open>A coroutine is done: its reference goes, and with the last one the dictionary entry.\<close>

definition forget :: "nat \<Rightarrow> string \<Rightarrow> nat \<Rightarrow> mint_state \<Rightarrow> mint_state" where
  "forget t k l s =
     (let lk = lock_heap s l; rs = removeAll t (referrers lk);
          s1 = goto t Finished (set_lock l (lk\<lparr>referrers := rs\<rparr>) s)
      in if rs = [] then s1\<lparr>mint_locks := (mint_locks s1)(k := None)\<rparr> else s1)"

datatype mint_action =
    Enter nat string
  | Wake nat
  | Look nat bool
  | MintDone nat
  | WriteDone nat bool
  | Leave nat
  | GiveUp nat
  | Expire string

fun fire :: "mint_action \<Rightarrow> mint_state \<Rightarrow> mint_state option" where
  "fire (Enter t k) s =
     (if tasks s t = NotStarted then (case mint_lock k s of (l, s1) \<Rightarrow> Some (enter_lock t k l s1)) else None)"
| "fire (Wake t) s =
     (case tasks s t of
        Waiting k l \<Rightarrow>
          (let lk = lock_heap s l
           in if \<not> locked lk \<and> waiters lk \<noteq> [] \<and> hd (waiters lk) = t
              then Some (goto t (Holding k l Looking)
                     (set_lock l (lk\<lparr>locked := True, waiters := tl (waiters lk)\<rparr>) s))
              else None)
      | _ \<Rightarrow> None)"
| "fire (Look t ok) s =
     (case tasks s t of
        Holding k l Looking \<Rightarrow>
          Some (if ok then (if live s k then goto t (Holding k l Leaving) s
                            else goto t (Holding k l Minting) s)
                else goto t (Holding k l Minting) (lose k s))
      | _ \<Rightarrow> None)"
| "fire (MintDone t) s =
     (case tasks s t of
        Holding k l Minting \<Rightarrow>
          Some (goto t (Holding k l Writing) (s\<lparr>mint_count := (mint_count s)(k := Suc (mint_count s k))\<rparr>))
      | _ \<Rightarrow> None)"
| "fire (WriteDone t ok) s =
     (case tasks s t of
        Holding k l Writing \<Rightarrow>
          Some (goto t (Holding k l Leaving)
            (if ok then s\<lparr>live := (live s)(k := True)\<rparr> else lose k s))
      | _ \<Rightarrow> None)"
| "fire (Leave t) s =
     (case tasks s t of
        Holding k l p \<Rightarrow>
          Some (forget t k l (set_lock l ((lock_heap s l)\<lparr>locked := False\<rparr>)
            (if p = Writing then lose k s else s)))
      | _ \<Rightarrow> None)"
| "fire (GiveUp t) s =
     (case tasks s t of
        Waiting k l \<Rightarrow>
          Some (forget t k l (set_lock l ((lock_heap s l)\<lparr>waiters := removeAll t (waiters (lock_heap s l))\<rparr>) s))
      | _ \<Rightarrow> None)"
| "fire (Expire k) s = (if live s k then Some (lose k (s\<lparr>live := (live s)(k := False)\<rparr>)) else None)"

inductive mint_reachable :: "mint_state \<Rightarrow> bool" where
  start: "mint_reachable init_mint"
| step: "mint_reachable s \<Longrightarrow> fire a s = Some s' \<Longrightarrow> mint_reachable s'"

section \<open>Invariant\<close>

fun lock_of :: "task_pc \<Rightarrow> (string \<times> nat) option" where
  "lock_of (Waiting k l) = Some (k, l)"
| "lock_of (Holding k l p) = Some (k, l)"
| "lock_of _ = None"

fun held :: "task_pc \<Rightarrow> nat option" where
  "held (Holding k l p) = Some l"
| "held _ = None"

fun awaited :: "task_pc \<Rightarrow> nat option" where
  "awaited (Waiting k l) = Some l"
| "awaited _ = None"

definition used :: "task_pc \<Rightarrow> nat option" where
  "used pc = map_option snd (lock_of pc)"

text \<open>A coroutine's lock is the one the dictionary has for its key, and no two keys share a lock.\<close>

definition dict_inv :: "mint_state \<Rightarrow> bool" where
  "dict_inv s \<longleftrightarrow>
     (\<forall>t k l. lock_of (tasks s t) = Some (k, l) \<longrightarrow> mint_locks s k = Some l)
     \<and> (\<forall>k l. mint_locks s k = Some l \<longrightarrow> l < next_lock s)
     \<and> (\<forall>k k' l. mint_locks s k = Some l \<longrightarrow> mint_locks s k' = Some l \<longrightarrow> k = k')"

text \<open>A lock is locked when some coroutine holds it, and only one does.\<close>

definition hold_inv :: "mint_state \<Rightarrow> bool" where
  "hold_inv s \<longleftrightarrow>
     (\<forall>t t' l. held (tasks s t) = Some l \<longrightarrow> held (tasks s t') = Some l \<longrightarrow> t = t')
     \<and> (\<forall>l. locked (lock_heap s l) \<longleftrightarrow> (\<exists>t. held (tasks s t) = Some l))"

text \<open>The queue of a lock is the coroutines waiting for it, and those referring to it are recorded.\<close>

definition queue_inv :: "mint_state \<Rightarrow> bool" where
  "queue_inv s \<longleftrightarrow>
     (\<forall>l t. t \<in> set (waiters (lock_heap s l)) \<longleftrightarrow> awaited (tasks s t) = Some l)
     \<and> (\<forall>l. distinct (waiters (lock_heap s l)))
     \<and> (\<forall>l t. t \<in> set (referrers (lock_heap s l)) \<longleftrightarrow> used (tasks s t) = Some l)"

definition lock_inv :: "mint_state \<Rightarrow> bool" where
  "lock_inv s \<longleftrightarrow> dict_inv s \<and> hold_inv s \<and> queue_inv s"

lemmas inv_defs = lock_inv_def dict_inv_def hold_inv_def queue_inv_def

lemma used_simps [simp]: "used (Holding k l p) = Some l" "used (Waiting k l) = Some l"
  "used NotStarted = None" "used Finished = None"
  by (simp_all add: used_def)

lemma held_used: "held pc = Some l \<Longrightarrow> used pc = Some l" "awaited pc = Some l \<Longrightarrow> used pc = Some l"
  by (cases pc; simp)+

lemma lock_of_used: "lock_of pc = Some (k, l) \<Longrightarrow> used pc = Some l" "used pc = Some l \<Longrightarrow> \<exists>k. lock_of pc = Some (k, l)"
  by (cases pc; simp)+

lemma lock_inv_ghost [simp]:
  "lock_inv (s\<lparr>live := a\<rparr>) = lock_inv s" "lock_inv (s\<lparr>mint_count := b\<rparr>) = lock_inv s"
  "lock_inv (lose k s) = lock_inv s"
  by (simp_all add: inv_defs lose_def)

lemma lose_sel [simp]: "tasks (lose k s) = tasks s" "mint_locks (lose k s) = mint_locks s"
  "lock_heap (lose k s) = lock_heap s" "live (lose k s) = live s" "mint_count (lose k s) = mint_count s"
  "losses (lose k s) = (losses s)(k := Suc (losses s k))"
  by (simp_all add: lose_def)

lemma dict_invD:
  assumes "dict_inv s"
  shows "lock_of (tasks s t) = Some (k, l) \<Longrightarrow> mint_locks s k = Some l"
    and "mint_locks s k = Some l \<Longrightarrow> l < next_lock s"
    and "mint_locks s k = Some l \<Longrightarrow> mint_locks s k' = Some l \<Longrightarrow> k = k'"
  using assms unfolding dict_inv_def by blast+

lemma lock_invE:
  assumes "lock_inv s"
  obtains "dict_inv s" "hold_inv s" "queue_inv s"
  using assms by (simp add: lock_inv_def)

lemma lock_inv_phase:
  assumes "lock_inv s" "tasks s t = Holding k l p"
  shows "lock_inv (goto t (Holding k l q) s)"
proof -
  have d: "dict_inv s" "hold_inv s" "queue_inv s" using assms(1) by (simp_all add: lock_inv_def)
  have k: "mint_locks s k = Some l" using dict_invD(1) [OF d(1), of t] assms(2) by simp
  have h: "held (((tasks s)(t := Holding k l q)) t') = held (tasks s t')"
    "awaited (((tasks s)(t := Holding k l q)) t') = awaited (tasks s t')"
    "used (((tasks s)(t := Holding k l q)) t') = used (tasks s t')" for t'
    using assms(2) by auto
  have "dict_inv (goto t (Holding k l q) s)"
    using d(1) k by (auto simp: dict_inv_def goto_def)
  moreover have "hold_inv (goto t (Holding k l q) s)"
    using d(2) by (simp add: hold_inv_def goto_def h del: fun_upd_apply)
  moreover have "queue_inv (goto t (Holding k l q) s)"
    using d(3) by (simp add: queue_inv_def goto_def h del: fun_upd_apply)
  ultimately show ?thesis by (simp add: lock_inv_def)
qed

lemma mint_lock_inv:
  assumes "lock_inv s" "mint_lock k s = (l, s1)"
  shows "lock_inv s1" "mint_locks s1 k = Some l" "tasks s1 = tasks s"
    "live s1 = live s" "mint_count s1 = mint_count s" "losses s1 = losses s"
proof -
  have d: "dict_inv s" "hold_inv s" "queue_inv s" using assms(1) by (simp_all add: lock_inv_def)
  have fresh: "used (tasks s t) \<noteq> Some (next_lock s)" for t
    using dict_invD(1,2) [OF d(1)] lock_of_used(2) by blast
  show "lock_inv s1" 
  proof (cases "mint_locks s k")
    case None
    then have s1: "s1 = s\<lparr>mint_locks := (mint_locks s)(k \<mapsto> next_lock s),
            lock_heap := (lock_heap s)(next_lock s := new_lock), next_lock := Suc (next_lock s)\<rparr>"
      using assms(2) by (auto simp add: mint_lock_def)
    have "dict_inv s1"
      using d(1) None unfolding s1 dict_inv_def by (auto simp: less_Suc_eq) 
    moreover have "hold_inv s1"
      using d(2) fresh held_used(1) unfolding s1 hold_inv_def by (auto simp: new_lock_def)
    moreover have "queue_inv s1"
      using d(3) fresh held_used(2) unfolding s1 queue_inv_def by (auto simp: new_lock_def)
    ultimately show ?thesis by (simp add: lock_inv_def)
  qed (use assms in \<open>simp add: mint_lock_def\<close>)
qed (use assms in \<open>auto simp: mint_lock_def split: option.splits\<close>)

lemma enter_lock_inv:
  assumes "lock_inv s" "mint_locks s k = Some l" "tasks s t = NotStarted"
  shows "lock_inv (enter_lock t k l s)"
proof -
  have d: "dict_inv s" "hold_inv s" "queue_inv s" using assms(1) by (simp_all add: lock_inv_def)
  have n: "used (tasks s t) = None" "held (tasks s t) = None" "awaited (tasks s t) = None"
    using assms(3) by simp_all
  have "dict_inv (enter_lock t k l s)"
    using d(1) assms(2) by (auto simp: dict_inv_def enter_lock_def goto_def set_lock_def Let_def)
  moreover have "hold_inv (enter_lock t k l s)"
    using d(2) n unfolding hold_inv_def
    by (auto simp: enter_lock_def goto_def set_lock_def Let_def) (metis option.distinct(1))+
  moreover have "queue_inv (enter_lock t k l s)"
    using d(3) n unfolding queue_inv_def
    by (auto simp: enter_lock_def goto_def set_lock_def Let_def) (metis empty_iff list.set(1))
  ultimately show ?thesis by (simp add: lock_inv_def)
qed

lemma wake_inv:
  assumes "lock_inv s" "tasks s t = Waiting k l" "\<not> locked (lock_heap s l)" "waiters (lock_heap s l) = t # ws"
  shows "lock_inv (goto t (Holding k l Looking) (set_lock l ((lock_heap s l)\<lparr>locked := True, waiters := ws\<rparr>) s))"
    (is "lock_inv ?s")
proof -
  have d: "dict_inv s" "hold_inv s" "queue_inv s" using assms(1) by (simp_all add: lock_inv_def)
  have k: "mint_locks s k = Some l" using dict_invD(1) [OF d(1), of t] assms(2) by simp
  have n: "used (tasks s t) = Some l" "held (tasks s t) = None" "awaited (tasks s t) = Some l"
    using assms(2) by simp_all
  have ws: "t \<notin> set ws" "distinct ws" "t' \<in> set ws \<longleftrightarrow> t' \<noteq> t \<and> awaited (tasks s t') = Some l" for t'
    using d(3) assms(4) unfolding queue_inv_def by (metis distinct.simps(2), metis distinct.simps(2), metis distinct.simps(2) set_ConsD list.set_intros)
  have free: "held (tasks s t') \<noteq> Some l" for t'
    using d(2) assms(3) unfolding hold_inv_def by blast
  have "dict_inv ?s"
    using d(1) k by (auto simp: dict_inv_def goto_def set_lock_def)
  moreover have "hold_inv ?s"
    using d(2) n free unfolding hold_inv_def
    by (auto simp: goto_def set_lock_def) (metis option.distinct(1))+
  moreover have "queue_inv ?s"
    using d(3) n ws unfolding queue_inv_def
    by (auto simp: goto_def set_lock_def)
  ultimately show ?thesis by (simp add: lock_inv_def)
qed

text \<open>A coroutine that lets go of its lock, whether it held or awaited it.\<close>

lemma forget_inv:
  assumes "lock_inv s" "lock_of (tasks s t) = Some (k, l)"
    and "locked lk = (locked (lock_heap s l) \<and> held (tasks s t) \<noteq> Some l)"
    and "waiters lk = removeAll t (waiters (lock_heap s l))" "referrers lk = referrers (lock_heap s l)"
  shows "lock_inv (forget t k l (set_lock l lk s))"
    (is "lock_inv ?s")
proof -
  have d: "dict_inv s" "hold_inv s" "queue_inv s" using assms(1) by (simp_all add: lock_inv_def)
  have k: "mint_locks s k = Some l" using dict_invD(1) [OF d(1)] assms(2) by simp
  have u: "used (tasks s t) = Some l" using lock_of_used(1) assms(2) by blast
  have rs: "removeAll t (referrers (lock_heap s l)) = [] \<Longrightarrow> t' \<noteq> t \<Longrightarrow> used (tasks s t') \<noteq> Some l" for t'
    using d(3) unfolding queue_inv_def by (metis Diff_iff empty_iff list.set(1) set_removeAll singletonD)
  have other: "l' \<noteq> l \<Longrightarrow> held (tasks s t) \<noteq> Some l'" "l' \<noteq> l \<Longrightarrow> awaited (tasks s t) \<noteq> Some l'" for l'
    using u held_used by fastforce+
  have "dict_inv ?s"
    using d(1) rs unfolding dict_inv_def
    by (auto simp: forget_def goto_def set_lock_def Let_def assms(5)) (metis k option.inject lock_of_used(1))
  moreover have "hold_inv ?s"
  proof -
    have h: "held (tasks ?s t') = (if t' = t then None else held (tasks s t'))" for t'
      by (simp add: forget_def goto_def set_lock_def Let_def)
    have lk: "locked (lock_heap ?s l') \<longleftrightarrow> locked (lock_heap s l') \<and> held (tasks s t) \<noteq> Some l'" for l'
      using assms(3) other(1) by (simp add: forget_def goto_def set_lock_def Let_def)
    have u: "held (tasks s ta) = Some l' \<Longrightarrow> held (tasks s tb) = Some l' \<Longrightarrow> ta = tb" for ta tb l'
      using d(2) unfolding hold_inv_def by blast
    have "locked (lock_heap s l') \<longleftrightarrow> (\<exists>t'. held (tasks s t') = Some l')" for l'
      using d(2) unfolding hold_inv_def by blast
    moreover have "(\<exists>t'. (if t' = t then None else held (tasks s t')) = Some l') \<longleftrightarrow>
        (\<exists>t'. held (tasks s t') = Some l') \<and> held (tasks s t) \<noteq> Some l'" for l'
      using u [of t l'] by (auto split: if_splits)
    ultimately have l: "locked (lock_heap ?s l') \<longleftrightarrow> (\<exists>t'. held (tasks ?s t') = Some l')" for l'
      unfolding lk h by simp
    have "held (tasks ?s ta) = Some l' \<Longrightarrow> held (tasks ?s tb) = Some l' \<Longrightarrow> ta = tb" for ta tb l'
      using u [of ta l' tb] unfolding h by (simp split: if_splits)
    with l show ?thesis unfolding hold_inv_def by blast
  qed
  moreover have "queue_inv ?s"
    using d(3) u rs other(2) unfolding queue_inv_def
    by (auto simp: forget_def goto_def set_lock_def Let_def assms(4,5) distinct_removeAll dest: held_used)
  ultimately show ?thesis by (simp add: lock_inv_def)
qed

lemma lock_inv_init: "lock_inv init_mint"
  by (simp add: inv_defs init_mint_def new_lock_def)

lemma lock_inv_fire:
  assumes "lock_inv s" "fire a s = Some s'"
  shows "lock_inv s'"
proof (cases a)
  case (Enter t k)
  then obtain l s1 where "mint_lock k s = (l, s1)" "tasks s t = NotStarted" "s' = enter_lock t k l s1"
    using assms(2) by (auto split: if_splits prod.splits)
  then show ?thesis using mint_lock_inv [OF assms(1)] enter_lock_inv by metis
next
  case (Wake t)
  then show ?thesis
    using assms wake_inv [OF assms(1)] by (auto simp: Let_def neq_Nil_conv split: if_splits task_pc.splits)
next
  case (Leave t)
  then obtain k l p where t: "tasks s t = Holding k l p"
    and s': "s' = forget t k l (set_lock l ((lock_heap s l)\<lparr>locked := False\<rparr>) (if p = Writing then lose k s else s))"
    using assms(2) by (auto split: task_pc.splits)
  let ?s = "if p = Writing then lose k s else s"
  have "waiters (lock_heap s l) = removeAll t (waiters (lock_heap s l))"
    using assms(1) t by (auto simp: lock_inv_def queue_inv_def removeAll_id)
  then show ?thesis
    unfolding s' using assms(1) t
    by (intro forget_inv) auto
next
  case (GiveUp t)
  then obtain k l where t: "tasks s t = Waiting k l"
    and s': "s' = forget t k l (set_lock l ((lock_heap s l)\<lparr>waiters := removeAll t (waiters (lock_heap s l))\<rparr>) s)"
    using assms(2) by (auto split: task_pc.splits)
  show ?thesis unfolding s' using assms(1) t by (intro forget_inv) auto
qed (use assms in \<open>auto intro!: lock_inv_phase split: task_pc.splits mint_phase.splits if_splits\<close>)

lemma reachable_lock_inv: "mint_reachable s \<Longrightarrow> lock_inv s"
  by (induction rule: mint_reachable.induct) (auto intro: lock_inv_init lock_inv_fire)

lemma holder_unique:
  assumes "lock_inv s" "tasks s t = Holding k l p" "tasks s t' = Holding k l' p'"
  shows "t' = t"
proof -
  have "mint_locks s k = Some l" "mint_locks s k = Some l'"
    using assms dict_invD(1) unfolding lock_inv_def by (metis lock_of.simps(2))+
  then have "held (tasks s t) = Some l" "held (tasks s t') = Some l" using assms(2,3) by simp_all
  then show ?thesis using assms(1) unfolding lock_inv_def hold_inv_def by blast
qed

section \<open>How often a token is minted\<close>

definition writing :: "mint_state \<Rightarrow> string \<Rightarrow> bool" where
  "writing s k \<longleftrightarrow> (\<exists>t l. tasks s t = Holding k l Writing)"

definition minting :: "mint_state \<Rightarrow> string \<Rightarrow> bool" where
  "minting s k \<longleftrightarrow> (\<exists>t l. tasks s t = Holding k l Minting)"

definition count_inv :: "mint_state \<Rightarrow> bool" where
  "count_inv s \<longleftrightarrow> (\<forall>k. mint_count s k \<le> losses s k + 1
     \<and> (minting s k \<longrightarrow> mint_count s k \<le> losses s k)
     \<and> (\<not> writing s k \<longrightarrow> mint_count s k \<le> losses s k + (if live s k then 1 else 0)))"

lemma count_invI:
  assumes "\<And>k. mint_count s k \<le> losses s k + 1" "\<And>k. minting s k \<Longrightarrow> mint_count s k \<le> losses s k"
    "\<And>k. \<not> writing s k \<Longrightarrow> \<not> live s k \<Longrightarrow> mint_count s k \<le> losses s k"
  shows "count_inv s"
  using assms by (simp add: count_inv_def)

lemma count_invD:
  assumes "count_inv s"
  shows "mint_count s k \<le> Suc (losses s k)" "minting s k \<Longrightarrow> mint_count s k \<le> losses s k"
    "\<not> writing s k \<Longrightarrow> \<not> live s k \<Longrightarrow> mint_count s k \<le> losses s k"
  using assms unfolding count_inv_def by auto

text \<open>The holder of a key's lock decides alone whether its key is being minted or written.\<close>

lemma holder_phase:
  assumes "lock_inv s" "tasks s t = Holding k l p"
  shows "minting s k \<longleftrightarrow> p = Minting" "writing s k \<longleftrightarrow> p = Writing"
  using assms holder_unique [OF assms] unfolding minting_def writing_def
  by (metis task_pc.inject(2))+

lemma goto_phases:
  assumes "lock_inv s" "tasks s t = Holding k l p"
  shows "minting (goto t (Holding k l q) s) k' \<longleftrightarrow> (if k' = k then q = Minting else minting s k')"
    "writing (goto t (Holding k l q) s) k' \<longleftrightarrow> (if k' = k then q = Writing else writing s k')"
proof -
  have "tasks (goto t (Holding k l q) s) t = Holding k l q" by (simp add: goto_def)
  note h = holder_phase [OF lock_inv_phase [OF assms] this]
  have "k' \<noteq> k \<Longrightarrow> minting (goto t (Holding k l q) s) k' \<longleftrightarrow> minting s k'"
    "k' \<noteq> k \<Longrightarrow> writing (goto t (Holding k l q) s) k' \<longleftrightarrow> writing s k'"
    using assms(2) unfolding minting_def writing_def goto_def
    by (auto, metis task_pc.inject(2), metis task_pc.inject(2))
  with h show "minting (goto t (Holding k l q) s) k' \<longleftrightarrow> (if k' = k then q = Minting else minting s k')"
    "writing (goto t (Holding k l q) s) k' \<longleftrightarrow> (if k' = k then q = Writing else writing s k')"
    by auto
qed

lemma phases_cong: "tasks s = tasks s' \<Longrightarrow> minting s = minting s'" "tasks s = tasks s' \<Longrightarrow> writing s = writing s'"
  by (auto simp: minting_def writing_def fun_eq_iff)

lemma goto_sel [simp]: "live (goto t pc s) = live s" "mint_count (goto t pc s) = mint_count s"
  "losses (goto t pc s) = losses s" "tasks (goto t pc s) = (tasks s)(t := pc)"
  by (simp_all add: goto_def)

lemma phase_step:
  assumes "lock_inv s" "tasks s t = Holding k l p" "tasks s0 = tasks s"
  shows "minting (goto t (Holding k l q) s0) k' \<longleftrightarrow> (if k' = k then q = Minting else minting s k')"
    "writing (goto t (Holding k l q) s0) k' \<longleftrightarrow> (if k' = k then q = Writing else writing s k')"
  using goto_phases [OF assms(1,2), of q k'] phases_cong [of "goto t (Holding k l q) s0" "goto t (Holding k l q) s"]
    assms(3) by (simp_all add: goto_def)

lemma other_task:
  assumes "tasks s' = (tasks s)(t := pc)" "\<And>k l p. tasks s t = Holding k l p \<Longrightarrow> p \<noteq> Minting \<and> p \<noteq> Writing"
    "\<And>k l p. pc = Holding k l p \<Longrightarrow> p \<noteq> Minting \<and> p \<noteq> Writing"
  shows "minting s' = minting s" "writing s' = writing s"
  using assms unfolding minting_def writing_def fun_eq_iff by (auto, metis+)

lemma enter_lock_sel:
  "tasks (enter_lock t k l s) = (tasks s)(t := if \<not> locked (lock_heap s l) \<and> waiters (lock_heap s l) = []
     then Holding k l Looking else Waiting k l)"
  "live (enter_lock t k l s) = live s" "mint_count (enter_lock t k l s) = mint_count s"
  "losses (enter_lock t k l s) = losses s"
  by (simp_all add: enter_lock_def set_lock_def Let_def)

lemma count_enter:
  assumes "lock_inv s" "count_inv s" "fire (Enter t k) s = Some s'"
  shows "count_inv s'"
proof -
  obtain l s1 where m: "mint_lock k s = (l, s1)" "tasks s t = NotStarted" "s' = enter_lock t k l s1"
    using assms(3) by (auto split: if_splits prod.splits)
  note f = mint_lock_inv [OF assms(1) m(1)]
  have "tasks s' = (tasks s)(t := tasks s' t)" "tasks s' t = Holding k l Looking \<or> tasks s' t = Waiting k l"
    using f(3) unfolding m(3) enter_lock_sel by auto
  then have "minting s' = minting s" "writing s' = writing s"
    using other_task [of s' s t "tasks s' t"] m(2) by auto
  moreover have "live s' = live s" "mint_count s' = mint_count s" "losses s' = losses s"
    using f unfolding m(3) enter_lock_sel by auto
  ultimately show ?thesis using assms(2) by (simp add: count_inv_def)
qed

lemma count_leave:
  assumes "lock_inv s" "count_inv s" "fire (Leave t) s = Some s'"
  shows "count_inv s'"
proof -
  obtain k l p where t: "tasks s t = Holding k l p"
    and s': "s' = forget t k l (set_lock l ((lock_heap s l)\<lparr>locked := False\<rparr>) (if p = Writing then lose k s else s))"
    using assms(3) by (auto split: task_pc.splits)
  have f: "tasks s' = (tasks s)(t := Finished)" "live s' = live s" "mint_count s' = mint_count s"
    "losses s' = (if p = Writing then (losses s)(k := Suc (losses s k)) else losses s)"
    unfolding s' forget_def set_lock_def Let_def by auto
  have m: "minting s' k' \<Longrightarrow> minting s k'" for k'
    using f(1) by (auto simp: minting_def split: if_splits)
  have w: "\<not> writing s' k' \<Longrightarrow> k' \<noteq> k \<or> p \<noteq> Writing \<Longrightarrow> \<not> writing s k'" for k'
    using f(1) t unfolding writing_def by (metis fun_upd_other task_pc.inject(2))
  show ?thesis
    using count_invD [OF assms(2)] m w f
    by (intro count_invI) (force simp: le_Suc_eq)+
qed

lemma count_give_up:
  assumes "count_inv s" "fire (GiveUp t) s = Some s'"
  shows "count_inv s'"
proof -
  obtain k l where t: "tasks s t = Waiting k l"
    and s': "s' = forget t k l (set_lock l ((lock_heap s l)\<lparr>waiters := removeAll t (waiters (lock_heap s l))\<rparr>) s)"
    using assms(2) by (auto split: task_pc.splits)
  have f: "tasks s' = (tasks s)(t := Finished)" "live s' = live s" "mint_count s' = mint_count s" "losses s' = losses s"
    unfolding s' forget_def set_lock_def Let_def by auto
  then show ?thesis using other_task [OF f(1)] t assms(1) by (simp add: count_inv_def)
qed

lemma count_inv_fire:
  assumes "lock_inv s" "count_inv s" "fire a s = Some s'"
  shows "count_inv s'"
proof (cases a)
  case (Wake t)
  then obtain k l lk where t: "tasks s t = Waiting k l"
    and s': "s' = goto t (Holding k l Looking) (set_lock l lk s)"
    using assms(3) by (auto simp: Let_def split: if_splits task_pc.splits)
  have f: "tasks s' = (tasks s)(t := Holding k l Looking)" "live s' = live s" "mint_count s' = mint_count s" "losses s' = losses s"
    unfolding s' set_lock_def by auto
  then show ?thesis using other_task [OF f(1)] t assms(2) by (simp add: count_inv_def)
next
  case (Look t ok)
  then obtain k l where t: "tasks s t = Holding k l Looking"
    using assms(3) by (auto split: task_pc.splits mint_phase.splits)
  note c = count_invD [OF assms(2)] and w = holder_phase [OF assms(1) t] and p = phase_step [OF assms(1) t]
  show ?thesis
    using assms(3) t Look c(1-3) w
    by (intro count_invI) (auto simp: p le_SucI [OF c(1)] split: if_splits)
next
  case (MintDone t)
  then obtain k l where t: "tasks s t = Holding k l Minting"
    using assms(3) by (auto split: task_pc.splits mint_phase.splits)
  note c = count_invD [OF assms(2)] and w = holder_phase [OF assms(1) t] and p = phase_step [OF assms(1) t]
  show ?thesis
    using assms(3) t MintDone c(1-3) w
    by (intro count_invI) (auto simp: p le_SucI [OF c(1)] split: if_splits)
next
  case (WriteDone t ok)
  then obtain k l where t: "tasks s t = Holding k l Writing"
    using assms(3) by (auto split: task_pc.splits mint_phase.splits)
  note c = count_invD [OF assms(2)] and w = holder_phase [OF assms(1) t] and p = phase_step [OF assms(1) t]
  show ?thesis
    using assms(3) t WriteDone c(1-3) w
    by (intro count_invI) (auto simp: p le_SucI [OF c(1)] split: if_splits)
next
  case (Expire k)
  then have "live s k" "s' = lose k (s\<lparr>live := (live s)(k := False)\<rparr>)"
    using assms(3) by (auto split: if_splits)
  moreover from this have "minting s' = minting s" "writing s' = writing s"
    by (auto intro!: phases_cong)
  moreover have "mint_count s k' \<le> Suc (Suc (losses s k'))" "minting s k' \<Longrightarrow> mint_count s k' \<le> Suc (losses s k')"
    for k' using count_invD(1) [OF assms(2), of k'] by simp_all
  ultimately show ?thesis
    using count_invD [OF assms(2)] by (intro count_invI) auto
qed (use assms count_enter count_leave count_give_up in blast)+


lemma reachable_count_inv: "mint_reachable s \<Longrightarrow> count_inv s"
proof (induction rule: mint_reachable.induct)
  case start
  then show ?case by (simp add: count_inv_def init_mint_def)
next
  case (step s a s')
  then show ?case using count_inv_fire reachable_lock_inv by blast
qed

text \<open>
  C34: under every interleaving at most one coroutine of the process is inside the lock of a
  payload and host, whether or not the dictionary dropped and recreated that lock meanwhile.
\<close>

theorem mint_mutual_exclusion:
  assumes "mint_reachable s" "tasks s t = Holding k l p" "tasks s t' = Holding k l' p'"
  shows "t' = t"
  using holder_unique [OF reachable_lock_inv [OF assms(1)] assms(2,3)] .

text \<open>
  C7: a key is minted at most once more often than a token for it was lost (expired, not stored, or
  not found because the lookup failed): concurrent misses share one mint.
\<close>

theorem mint_single_flight: "mint_count s k \<le> losses s k + 1" if "mint_reachable s"
  using count_invD(1) [OF reachable_count_inv [OF that]] by simp

section \<open>Waiting ends\<close>

text \<open>
  The coroutines ahead of \<open>t\<close> in the queue of a lock, and a bound on the number of times the lock is let
  go or taken before \<open>t\<close> takes it.
\<close>

definition ahead :: "mint_state \<Rightarrow> nat \<Rightarrow> nat \<Rightarrow> nat list" where
  "ahead s l t = takeWhile (\<lambda>u. u \<noteq> t) (waiters (lock_heap s l))"

definition delay :: "mint_state \<Rightarrow> nat \<Rightarrow> nat \<Rightarrow> nat" where
  "delay s l t = 2 * length (ahead s l t) + (if locked (lock_heap s l) then 1 else 0)"

text \<open>The free lock is for \<open>u\<close> to take.\<close>

definition takeable :: "mint_state \<Rightarrow> nat \<Rightarrow> nat \<Rightarrow> bool" where
  "takeable s l u \<longleftrightarrow> \<not> locked (lock_heap s l) \<and> awaited (tasks s u) = Some l \<and> hd (waiters (lock_heap s l)) = u"

text \<open>What lets the queue move: the holder lets go, or the head takes the lock or gives up.\<close>

definition moves :: "mint_state \<Rightarrow> nat \<Rightarrow> nat \<Rightarrow> mint_state \<Rightarrow> bool" where
  "moves s l u s' \<longleftrightarrow> held (tasks s u) = Some l \<and> held (tasks s' u) \<noteq> Some l \<or> takeable s l u \<and> \<not> takeable s' l u"

lemma takeWhile_snoc: "t \<in> set xs \<Longrightarrow> takeWhile (\<lambda>u. u \<noteq> t) (xs @ [v]) = takeWhile (\<lambda>u. u \<noteq> t) xs"
  by (simp add: takeWhile_append1)

lemma takeWhile_removeAll:
  "u \<noteq> t \<Longrightarrow> takeWhile (\<lambda>v. v \<noteq> t) (removeAll u xs) = removeAll u (takeWhile (\<lambda>v. v \<noteq> t) xs)"
  by (induction xs) auto

lemma lock_heap_sel [simp]:
  "lock_heap (goto t pc s) = lock_heap s" "lock_heap (set_lock l lk s) = (lock_heap s)(l := lk)"
  "tasks (set_lock l lk s) = tasks s"
  "lock_heap (forget t k l s) = (lock_heap s)(l := (lock_heap s l)\<lparr>referrers := removeAll t (referrers (lock_heap s l))\<rparr>)"
  "tasks (forget t k l s) = (tasks s)(t := Finished)"
  by (simp_all add: goto_def set_lock_def forget_def Let_def)


lemma delay_same:
  "waiters (lock_heap s' l) = waiters (lock_heap s l) \<Longrightarrow> locked (lock_heap s' l) = locked (lock_heap s l)
    \<Longrightarrow> delay s' l t = delay s l t"
  by (simp add: delay_def ahead_def)

lemma moves_same:
  assumes "\<And>u. held (tasks s u) = Some l \<Longrightarrow> held (tasks s' u) = Some l"
    and "\<And>u. takeable s l u \<Longrightarrow> takeable s' l u"
  shows "\<not> moves s l u s'"
  using assms by (auto simp: moves_def)

lemma delay_enter:
  assumes "lock_inv s" "fire (Enter v k') s = Some s'" "tasks s t = Waiting k l"
  shows "delay s' l t = delay s l t \<and> \<not> moves s l u s'"
proof -
  obtain l' s1 where m: "mint_lock k' s = (l', s1)" "tasks s v = NotStarted" "s' = enter_lock v k' l' s1"
    using assms(2) by (auto split: if_splits prod.splits)
  note f = mint_lock_inv [OF assms(1) m(1)]
  have d: "dict_inv s" "queue_inv s" using assms(1) by (simp_all add: lock_inv_def)
  have "mint_locks s k = Some l" using dict_invD(1) [OF d(1), of t] assms(3) by simp
  then have "l < next_lock s" using dict_invD(2) [OF d(1)] by blast
  then have s1: "lock_heap s1 l = lock_heap s l"
    using m(1) by (auto simp: mint_lock_def split: option.splits)
  have t: "t \<in> set (waiters (lock_heap s l))" using d(2) assms(3) unfolding queue_inv_def by simp
  have "delay s' l t = delay s l t \<and> (\<forall>u. takeable s l u \<longrightarrow> takeable s' l u)"
  proof (cases "l' = l")
    case True
    then have "lock_heap s' l = (lock_heap s l)\<lparr>referrers := v # referrers (lock_heap s l), waiters := waiters (lock_heap s l) @ [v]\<rparr>"
      using t s1 unfolding m(3) enter_lock_def by (auto simp: Let_def)
    then show ?thesis using t m(2) f(3) unfolding m(3)
      by (auto simp: delay_def ahead_def takeWhile_snoc takeable_def enter_lock_sel hd_append)
  next
    case False
    then have "lock_heap s' l = lock_heap s l" using s1 unfolding m(3) enter_lock_def by (auto simp: Let_def)
    then show ?thesis using m(2) f(3) delay_same [of s' l s t] unfolding m(3)
      by (auto simp: takeable_def enter_lock_sel)
  qed
  moreover from this have "\<not> moves s l u s'"
    using m(2) f(3) unfolding m(3) by (intro moves_same) (auto simp: enter_lock_sel)
  ultimately show ?thesis by blast
qed

lemma delay_give_up:
  assumes "lock_inv s" "fire (GiveUp v) s = Some s'" "tasks s t = Waiting k l" "v \<noteq> t"
  shows "delay s' l t \<le> delay s l t" "moves s l u s' \<Longrightarrow> delay s' l t < delay s l t"
proof -
  obtain k' l' where v: "tasks s v = Waiting k' l'"
    and s': "s' = forget v k' l' (set_lock l' ((lock_heap s l')\<lparr>waiters := removeAll v (waiters (lock_heap s l'))\<rparr>) s)"
    using assms(2) by (auto split: task_pc.splits)
  have q: "queue_inv s" using assms(1) by (simp add: lock_inv_def)
  have w: "waiters (lock_heap s' l) = (if l' = l then removeAll v (waiters (lock_heap s l)) else waiters (lock_heap s l))"
    "locked (lock_heap s' l) = locked (lock_heap s l)" "tasks s' = (tasks s)(v := Finished)"
    unfolding s' by auto
  have a: "ahead s' l t = (if l' = l then removeAll v (ahead s l t) else ahead s l t)"
    using assms(4) w(1) by (simp add: ahead_def takeWhile_removeAll)
  show "delay s' l t \<le> delay s l t"
    using a w(2) by (simp add: delay_def)
  show "delay s' l t < delay s l t" if "moves s l u s'"
  proof -
    have u: "takeable s l u" "\<not> takeable s' l u"
      using that v w(3) unfolding moves_def by (auto split: if_splits)
    then have mem: "u \<in> set (waiters (lock_heap s l))" using q unfolding queue_inv_def takeable_def by simp
    have "hd (removeAll v xs) = hd xs" if "hd xs \<noteq> v" for xs using that by (cases xs) auto
    then have "u = v" "l' = l"
      using u v w unfolding takeable_def by (auto split: if_splits)
    moreover have "hd (waiters (lock_heap s l)) = u" using u(1) by (simp add: takeable_def)
    moreover note mem
    ultimately have "v \<in> set (ahead s l t)"
      using assms(4) by (cases "waiters (lock_heap s l)") (auto simp: ahead_def)
    then have "length (removeAll v (ahead s l t)) < length (ahead s l t)" by (rule length_removeAll_less)
    then show ?thesis using a w(2) \<open>l' = l\<close> by (simp add: delay_def)
  qed
qed

lemma delay_step:
  assumes "lock_inv s" "fire a s = Some s'" "tasks s t = Waiting k l" "tasks s' t = Waiting k l"
  shows "delay s' l t \<le> delay s l t" "moves s l u s' \<Longrightarrow> delay s' l t < delay s l t"
proof -
  have d: "hold_inv s" "queue_inv s" using assms(1) by (simp_all add: lock_inv_def)
  have "delay s' l t \<le> delay s l t \<and> (moves s l u s' \<longrightarrow> delay s' l t < delay s l t)"
  proof (cases a)
    case (Enter v k')
    then show ?thesis using delay_enter [OF assms(1) _ assms(3), of v k' s' u] assms(2) by simp
  next
    case (Wake v)
    then obtain k' l' ws where v: "tasks s v = Waiting k' l'" "\<not> locked (lock_heap s l')"
      "waiters (lock_heap s l') = v # ws"
      and s': "s' = goto v (Holding k' l' Looking) (set_lock l' ((lock_heap s l')\<lparr>locked := True, waiters := ws\<rparr>) s)"
      using assms(2) by (auto simp: Let_def neq_Nil_conv split: if_splits task_pc.splits)
    have "v \<noteq> t" using assms(4) unfolding s' by auto
    show ?thesis
    proof (cases "l' = l")
      case True
      then have "delay s' l t < delay s l t"
        using v \<open>v \<noteq> t\<close> unfolding s' by (simp add: delay_def ahead_def)
      then show ?thesis by simp
    next
      case False
      then have "delay s' l t = delay s l t" unfolding s' by (intro delay_same) simp_all
      moreover have "\<not> moves s l u s'" using v(1) False unfolding s' by (intro moves_same) (auto simp: takeable_def)
      ultimately show ?thesis by simp
    qed
  next
    case (Leave v)
    then obtain k' l' p where v: "tasks s v = Holding k' l' p"
      and s': "s' = forget v k' l' (set_lock l' ((lock_heap s l')\<lparr>locked := False\<rparr>) (if p = Writing then lose k' s else s))"
      using assms(2) by (auto split: task_pc.splits)
    show ?thesis
    proof (cases "l' = l")
      case True
      then have "locked (lock_heap s l)" using d(1) v unfolding hold_inv_def by (metis held.simps(1))
      then have "delay s' l t < delay s l t"
        using True unfolding s' by (simp add: delay_def ahead_def)
      then show ?thesis by simp
    next
      case False
      then have "delay s' l t = delay s l t" unfolding s' by (intro delay_same) simp_all
      moreover have "\<not> moves s l u s'" using v False unfolding s' by (intro moves_same) (auto simp: takeable_def)
      ultimately show ?thesis by simp
    qed
  next
    case (GiveUp v)
    have "v \<noteq> t" using assms(2,4) GiveUp by (auto split: task_pc.splits)
    then show ?thesis using delay_give_up [OF assms(1) _ assms(3)] assms(2) GiveUp by simp
  next
    case (Look v ok)
    then have "delay s' l t = delay s l t"
      using assms(2) by (intro delay_same) (auto split: task_pc.splits mint_phase.splits if_splits)
    moreover have "\<not> moves s l u s'"
      using assms(2) Look by (intro moves_same) (auto simp: takeable_def split: task_pc.splits mint_phase.splits if_splits)
    ultimately show ?thesis by simp
  next
    case (MintDone v)
    then have "delay s' l t = delay s l t"
      using assms(2) by (intro delay_same) (auto split: task_pc.splits mint_phase.splits if_splits)
    moreover have "\<not> moves s l u s'"
      using assms(2) MintDone by (intro moves_same) (auto simp: takeable_def split: task_pc.splits mint_phase.splits if_splits)
    ultimately show ?thesis by simp
  next
    case (WriteDone v ok)
    then have "delay s' l t = delay s l t"
      using assms(2) by (intro delay_same) (auto split: task_pc.splits mint_phase.splits if_splits)
    moreover have "\<not> moves s l u s'"
      using assms(2) WriteDone by (intro moves_same) (auto simp: takeable_def split: task_pc.splits mint_phase.splits if_splits)
    ultimately show ?thesis by simp
  next
    case (Expire k')
    then have s': "s' = lose k' (s\<lparr>live := (live s)(k' := False)\<rparr>)"
      using assms(2) by (auto split: if_splits)
    then have "delay s' l t = delay s l t" by (intro delay_same) simp_all
    moreover have "\<not> moves s l u s'" unfolding s' by (intro moves_same) (auto simp: takeable_def)
    ultimately show ?thesis by simp
  qed
  then show "delay s' l t \<le> delay s l t" "moves s l u s' \<Longrightarrow> delay s' l t < delay s l t" by simp_all
qed

text \<open>
  A run without end: at each point a step, or nothing happens.  \<open>served\<close>: no coroutine holds the lock for
  ever, and none that can take it is passed over for ever.
\<close>

definition mint_run :: "(nat \<Rightarrow> mint_state) \<Rightarrow> bool" where
  "mint_run \<sigma> \<longleftrightarrow> \<sigma> 0 = init_mint \<and> (\<forall>i. \<sigma> (Suc i) = \<sigma> i \<or> (\<exists>a. fire a (\<sigma> i) = Some (\<sigma> (Suc i))))"

definition lock_served :: "(nat \<Rightarrow> mint_state) \<Rightarrow> nat \<Rightarrow> bool" where
  "lock_served \<sigma> l \<longleftrightarrow>
     (\<forall>i u. held (tasks (\<sigma> i) u) = Some l \<longrightarrow> (\<exists>j\<ge>i. held (tasks (\<sigma> j) u) \<noteq> Some l))
     \<and> (\<forall>i u. takeable (\<sigma> i) l u \<longrightarrow> (\<exists>j\<ge>i. \<not> takeable (\<sigma> j) l u))"

lemma mint_run_reachable: "mint_run \<sigma> \<Longrightarrow> mint_reachable (\<sigma> i)"
proof (induction i)
  case (Suc i)
  then have "\<sigma> (Suc i) = \<sigma> i \<or> (\<exists>a. fire a (\<sigma> i) = Some (\<sigma> (Suc i)))" by (simp add: mint_run_def)
  then show ?case using Suc mint_reachable.step by auto
qed (simp add: mint_run_def mint_reachable.start)

lemma delay_run:
  assumes "mint_run \<sigma>" "tasks (\<sigma> i) t = Waiting k l" "tasks (\<sigma> (Suc i)) t = Waiting k l"
  shows "delay (\<sigma> (Suc i)) l t \<le> delay (\<sigma> i) l t"
    "moves (\<sigma> i) l u (\<sigma> (Suc i)) \<Longrightarrow> delay (\<sigma> (Suc i)) l t < delay (\<sigma> i) l t"
proof -
  have "\<sigma> (Suc i) = \<sigma> i \<or> (\<exists>a. fire a (\<sigma> i) = Some (\<sigma> (Suc i)))"
    using assms(1) by (simp add: mint_run_def)
  moreover have "\<not> moves (\<sigma> i) l u (\<sigma> i)" by (simp add: moves_def)
  moreover note delay_step [OF reachable_lock_inv [OF mint_run_reachable [OF assms(1)]] _ assms(2,3)]
  ultimately show "delay (\<sigma> (Suc i)) l t \<le> delay (\<sigma> i) l t"
    "moves (\<sigma> i) l u (\<sigma> (Suc i)) \<Longrightarrow> delay (\<sigma> (Suc i)) l t < delay (\<sigma> i) l t"
    by auto
qed

lemma first_change:
  fixes i j :: nat
  assumes "i \<le> j" "P i" "\<not> P j"
  shows "\<exists>m. i \<le> m \<and> m < j \<and> P m \<and> \<not> P (Suc m)"
  using assms
proof (induction j)
  case (Suc j)
  then show ?case by (metis le_Suc_eq less_Suc_eq)
qed simp

lemma moves_eventually:
  assumes "mint_run \<sigma>" "lock_served \<sigma> l" "tasks (\<sigma> i) t = Waiting k l"
  shows "\<exists>m\<ge>i. \<exists>u. moves (\<sigma> m) l u (\<sigma> (Suc m))"
proof -
  have h: "hold_inv (\<sigma> i)" and q: "queue_inv (\<sigma> i)"
    using reachable_lock_inv [OF mint_run_reachable [OF assms(1)]] by (simp_all add: lock_inv_def)
  show ?thesis
  proof (cases "locked (lock_heap (\<sigma> i) l)")
    case True
    then obtain u where u: "held (tasks (\<sigma> i) u) = Some l" using h unfolding hold_inv_def by blast
    then obtain j where "i \<le> j" "held (tasks (\<sigma> j) u) \<noteq> Some l" using assms(2) unfolding lock_served_def by blast
    then show ?thesis
      using first_change [of i j "\<lambda>m. held (tasks (\<sigma> m) u) = Some l"] u unfolding moves_def by blast
  next
    case False
    have "t \<in> set (waiters (lock_heap (\<sigma> i) l))" using q assms(3) unfolding queue_inv_def by simp
    then have "hd (waiters (lock_heap (\<sigma> i) l)) \<in> set (waiters (lock_heap (\<sigma> i) l))"
      by (intro hd_in_set) auto
    then have u: "takeable (\<sigma> i) l (hd (waiters (lock_heap (\<sigma> i) l)))"
      using False q unfolding queue_inv_def takeable_def by simp
    then obtain j where "i \<le> j" "\<not> takeable (\<sigma> j) l (hd (waiters (lock_heap (\<sigma> i) l)))"
      using assms(2) unfolding lock_served_def by blast
    then show ?thesis
      using first_change [of i j "\<lambda>m. takeable (\<sigma> m) l (hd (waiters (lock_heap (\<sigma> i) l)))"] u
      unfolding moves_def by blast
  qed
qed

lemma waiting_ends:
  assumes "mint_run \<sigma>" "lock_served \<sigma> l" "tasks (\<sigma> i) t = Waiting k l"
  shows "\<exists>j>i. tasks (\<sigma> j) t \<noteq> Waiting k l"
  using assms(3)
proof (induction "delay (\<sigma> i) l t" arbitrary: i rule: less_induct)
  case less
  show ?case
  proof (rule ccontr)
    assume "\<not> ?thesis"
    then have w: "tasks (\<sigma> j) t = Waiting k l" if "i \<le> j" for j
      using that less.prems by (cases "j = i") auto
    obtain m u where m: "i \<le> m" "moves (\<sigma> m) l u (\<sigma> (Suc m))"
      using moves_eventually [OF assms(1,2) less.prems] by blast
    have "delay (\<sigma> m) l t \<le> delay (\<sigma> i) l t"
      using m(1)
    proof (induction m rule: dec_induct)
      case (step n)
      then show ?case using delay_run(1) [OF assms(1) w w, of n] by simp
    qed simp
    moreover have "delay (\<sigma> (Suc m)) l t < delay (\<sigma> m) l t"
      using delay_run(2) [OF assms(1) w w m(2)] m(1) by simp
    ultimately have "\<exists>j>Suc m. tasks (\<sigma> j) t \<noteq> Waiting k l"
      using m(1) by (intro less.hyps w) simp_all
    then show False using w m(1) by auto
  qed
qed

lemma waiting_next:
  assumes "fire a s = Some s'" "tasks s t = Waiting k l" "tasks s' t \<noteq> Waiting k l"
  shows "tasks s' t = Holding k l Looking \<or> tasks s' t = Finished"
  using assms
  by (cases a) (auto simp: Let_def mint_lock_def enter_lock_sel
      split: if_splits prod.splits task_pc.splits mint_phase.splits option.splits)

lemma moves_bounded:
  assumes "mint_run \<sigma>" "\<And>m. i \<le> m \<Longrightarrow> m \<le> j \<Longrightarrow> tasks (\<sigma> m) t = Waiting k l" "i \<le> j"
  shows "card {m. i \<le> m \<and> m < j \<and> (\<exists>u. moves (\<sigma> m) l u (\<sigma> (Suc m)))} + delay (\<sigma> j) l t \<le> delay (\<sigma> i) l t"
  using assms(3,2)
proof (induction j rule: dec_induct)
  case (step n)
  let ?M = "\<lambda>j. {m. i \<le> m \<and> m < j \<and> (\<exists>u. moves (\<sigma> m) l u (\<sigma> (Suc m)))}"
  have ih: "card (?M n) + delay (\<sigma> n) l t \<le> delay (\<sigma> i) l t" using step by simp
  have w: "tasks (\<sigma> n) t = Waiting k l" "tasks (\<sigma> (Suc n)) t = Waiting k l" using step by simp_all
  have fin: "finite (?M n)" by (rule finite_subset [of _ "{..<n}"]) auto
  show ?case
  proof (cases "\<exists>u. moves (\<sigma> n) l u (\<sigma> (Suc n))")
    case True
    then have "?M (Suc n) = insert n (?M n)" using step.hyps by (auto simp: less_Suc_eq)
    then have "card (?M (Suc n)) = Suc (card (?M n))" using fin by simp
    then show ?thesis using ih True delay_run(2) [OF assms(1) w] by fastforce
  next
    case False
    then have "?M (Suc n) = ?M n" by (auto simp: less_Suc_eq)
    then show ?thesis using ih delay_run(1) [OF assms(1) w] by simp
  qed
qed simp

text \<open>
  C35: no coroutine waits for ever.  In every run in which whoever holds a lock lets it go at some time and
  whoever can take it does or gives up, a coroutine queued for the lock leaves the queue, to hold the lock
  or because it gave up; and until then the lock is let go, taken or given up by the head at most twice for
  each coroutine that was ahead of it, and twice more: those that come later do not overtake it.
\<close>

theorem mint_lock_progress:
  assumes "mint_run \<sigma>" "lock_served \<sigma> l" "tasks (\<sigma> i) t = Waiting k l"
  shows "\<exists>j>i. (tasks (\<sigma> j) t = Holding k l Looking \<or> tasks (\<sigma> j) t = Finished)
    \<and> (\<forall>m \<in> {i..<j}. tasks (\<sigma> m) t = Waiting k l)
    \<and> card {m. i \<le> m \<and> m < j \<and> (\<exists>u. moves (\<sigma> m) l u (\<sigma> (Suc m)))}
        \<le> 2 * length (takeWhile (\<lambda>u. u \<noteq> t) (waiters (lock_heap (\<sigma> i) l))) + 2"
proof -
  obtain j0 where "i < j0" "tasks (\<sigma> j0) t \<noteq> Waiting k l" using waiting_ends [OF assms] by blast
  then obtain j where j: "i < j" "tasks (\<sigma> j) t \<noteq> Waiting k l" "\<And>m. i < m \<Longrightarrow> m < j \<Longrightarrow> tasks (\<sigma> m) t = Waiting k l"
    using exists_least_iff [of "\<lambda>j. i < j \<and> tasks (\<sigma> j) t \<noteq> Waiting k l"] by blast
  then obtain n where n: "j = Suc n" by (cases j) auto
  have w: "tasks (\<sigma> m) t = Waiting k l" if "i \<le> m" "m \<le> n" for m
    using that j(3) [of m] assms(3) n by (cases "m = i") auto
  have "\<sigma> j = \<sigma> n \<or> (\<exists>a. fire a (\<sigma> n) = Some (\<sigma> j))" using assms(1) n by (simp add: mint_run_def)
  then have "tasks (\<sigma> j) t = Holding k l Looking \<or> tasks (\<sigma> j) t = Finished"
    using waiting_next j(1,2) w [of n] n by (metis le_refl less_Suc_eq_le)
  moreover have "\<forall>m \<in> {i..<j}. tasks (\<sigma> m) t = Waiting k l" using w n by simp
  moreover have "card {m. i \<le> m \<and> m < j \<and> (\<exists>u. moves (\<sigma> m) l u (\<sigma> (Suc m)))} \<le> 2 * length (ahead (\<sigma> i) l t) + 2"
  proof -
    let ?M = "\<lambda>j. {m. i \<le> m \<and> m < j \<and> (\<exists>u. moves (\<sigma> m) l u (\<sigma> (Suc m)))}"
    have fin: "finite (?M n)" by (rule finite_subset [of _ "{..<n}"]) auto
    have "card (?M j) \<le> card (insert n (?M n))" using fin n by (intro card_mono) auto
    then have "card (?M j) \<le> Suc (card (?M n))" using fin by (simp add: card_insert_if)
    moreover have "card (?M n) \<le> delay (\<sigma> i) l t"
      using moves_bounded [where \<sigma> = \<sigma> and i = i and j = n and t = t and k = k and l = l] assms(1) w j(1) n by simp
    moreover have "delay (\<sigma> i) l t \<le> 2 * length (ahead (\<sigma> i) l t) + 1" by (simp add: delay_def)
    ultimately show ?thesis by linarith
  qed
  ultimately show ?thesis using j(1) by (auto simp: ahead_def)
qed

section \<open>Runs\<close>

text \<open>Two requests for one key arrive together: the second finds what the first minted.\<close>

fun run_mint :: "mint_action list \<Rightarrow> mint_state \<Rightarrow> mint_state option" where
  "run_mint [] s = Some s"
| "run_mint (a # as) s = Option.bind (fire a s) (run_mint as)"

lemma run_mint_reachable: "run_mint as s = Some s' \<Longrightarrow> mint_reachable s \<Longrightarrow> mint_reachable s'"
  by (induction as arbitrary: s) (auto simp: bind_eq_Some_conv intro: mint_reachable.step)

definition demo_race :: "mint_action list" where
  "demo_race = [Enter 0 ''k'', Enter 1 ''k'', Look 0 True]"

definition demo_flight :: "mint_action list" where
  "demo_flight = demo_race @ [MintDone 0, WriteDone 0 True, Leave 0, Wake 1, Look 1 True, Leave 1]"

lemma demo_race_run:
  "\<exists>s. run_mint demo_race init_mint = Some s \<and> mint_reachable s \<and> tasks s 0 = Holding ''k'' 0 Minting
     \<and> tasks s 1 = Waiting ''k'' 0"
proof -
  have "\<exists>s. run_mint demo_race init_mint = Some s \<and> tasks s 0 = Holding ''k'' 0 Minting
     \<and> tasks s 1 = Waiting ''k'' 0"
    by (simp add: demo_race_def init_mint_def mint_lock_def enter_lock_def set_lock_def goto_def new_lock_def)
  then show ?thesis using run_mint_reachable mint_reachable.start by blast
qed

lemma demo_flight_run:
  "\<exists>s. run_mint demo_flight init_mint = Some s \<and> mint_reachable s \<and> mint_count s ''k'' = 1 \<and> losses s ''k'' = 0"
proof -
  have "\<exists>s. run_mint demo_flight init_mint = Some s \<and> mint_count s ''k'' = 1 \<and> losses s ''k'' = 0"
    by (simp add: demo_flight_def demo_race_def init_mint_def mint_lock_def enter_lock_def set_lock_def goto_def
        new_lock_def forget_def Let_def)
  then show ?thesis using run_mint_reachable mint_reachable.start by blast
qed

theorem mint_mutual_exclusion_witness:
  "\<exists>s. mint_reachable s \<and> tasks s 0 = Holding ''k'' 0 Minting \<and> (\<forall>t p. tasks s t = Holding ''k'' 0 p \<longrightarrow> t = 0)"
  using demo_race_run mint_mutual_exclusion by blast

theorem mint_single_flight_witness:
  "\<exists>s. run_mint demo_flight init_mint = Some s \<and> mint_count s ''k'' = 1 \<and> mint_count s ''k'' \<le> losses s ''k'' + 1"
  using demo_flight_run mint_single_flight by blast

definition demo_waiting :: "nat \<Rightarrow> mint_state" where
  "demo_waiting i = the (run_mint (take i demo_flight) init_mint)"

lemma run_mint_steps:
  assumes "run_mint as s = Some s'" "i < length as"
  shows "fire (as ! i) (the (run_mint (take i as) s)) = Some (the (run_mint (take (Suc i) as) s))"
  using assms
proof (induction as arbitrary: s i)
  case (Cons a as)
  obtain s1 where "fire a s = Some s1" "run_mint as s1 = Some s'"
    using Cons.prems(1) by (auto simp: bind_eq_Some_conv)
  then show ?case using Cons.IH [of s1] Cons.prems(2) by (cases i) auto
qed simp

lemma demo_waiting_run:
  "mint_run demo_waiting \<and> lock_served demo_waiting 0 \<and> tasks (demo_waiting 2) 1 = Waiting ''k'' 0"
proof (intro conjI)
  obtain s where s: "run_mint demo_flight init_mint = Some s" using demo_flight_run by blast
  show "mint_run demo_waiting"
    unfolding mint_run_def
  proof (intro conjI allI)
    fix i
    show "demo_waiting (Suc i) = demo_waiting i \<or> (\<exists>a. fire a (demo_waiting i) = Some (demo_waiting (Suc i)))"
      using run_mint_steps [OF s, of i] by (cases "i < length demo_flight") (auto simp: demo_waiting_def)
  qed (simp add: demo_waiting_def)
  have "held (tasks s u) = None \<and> awaited (tasks s u) = None" for u
    using s by (auto simp: demo_flight_def demo_race_def init_mint_def mint_lock_def enter_lock_def set_lock_def
        goto_def new_lock_def forget_def Let_def)
  moreover have "demo_waiting (i + length demo_flight) = s" for i by (simp add: demo_waiting_def s)
  ultimately show "lock_served demo_waiting 0"
    unfolding lock_served_def takeable_def by (metis le_add1 option.distinct(1))
  show "tasks (demo_waiting 2) 1 = Waiting ''k'' 0"
    by (simp add: demo_waiting_def demo_flight_def demo_race_def init_mint_def mint_lock_def enter_lock_def
        set_lock_def goto_def new_lock_def Let_def)
qed

theorem mint_lock_progress_witness:
  "mint_run demo_waiting \<and> lock_served demo_waiting 0 \<and> tasks (demo_waiting 2) 1 = Waiting ''k'' 0
     \<and> (\<exists>j>2. tasks (demo_waiting j) 1 = Holding ''k'' 0 Looking \<or> tasks (demo_waiting j) 1 = Finished)"
  using demo_waiting_run mint_lock_progress by blast

end
