(* ===== verification/Exceptions.thy ===== *)
theory Exceptions
  imports Prelude
begin

text \<open>
  The exceptions the program raises, as values: those of \<open>portunus/exceptions.py\<close>, the standard
  library's and the third-party ones its handlers name.  An \<open>except (A, B)\<close> clause is a test
  \<open>isinstance\<close> against the class hierarchy.
\<close>

section \<open>Classes\<close>

datatype exn_class =
    BaseExceptionC | ExceptionC
  | PortunusErrorC
  | AuthenticationErrorC | CredentialsErrorC | PayloadErrorC | AuthErrorC
  | ServiceErrorC | FetchSecretErrorC | ConfigurationErrorC | UpstreamServiceErrorC
  | StateErrorC | RedisErrorC | CacheErrorC
  | LoggingErrorC | LogDecodeErrorC | LogNotFoundErrorC
  | ValidationErrorC | InputValidationErrorC
  | TimeoutErrorC | RedisTimeoutErrorC
  | ClientErrorC | BotoCoreErrorC | HTTPErrorC
  | ValueErrorC | JSONDecodeErrorC | BinasciiErrorC | UnicodeDecodeErrorC | UnicodeEncodeErrorC
  | TypeErrorC | AttributeErrorC | LookupErrorC | KeyErrorC | IndexErrorC
  | PydanticValidationErrorC
  | RedisConnectionErrorC | MaxConnectionsErrorC
  | WebSocketDisconnectC | ConnectionClosedC
  | ParserErrorC
  | OtherExceptionC
  | CancelledErrorC

text \<open>
  The direct base class.  \<open>TimeoutErrorC\<close> is the builtin class; redis-py's timeout error is a
  different class that does not inherit from it.  \<open>CancelledErrorC\<close> derives from
  \<open>BaseException\<close>, so \<open>except Exception\<close> does not catch it.
\<close>

fun base_class :: "exn_class \<Rightarrow> exn_class option" where
  "base_class BaseExceptionC = None"
| "base_class ExceptionC = Some BaseExceptionC"
| "base_class CancelledErrorC = Some BaseExceptionC"
| "base_class PortunusErrorC = Some ExceptionC"
| "base_class AuthenticationErrorC = Some PortunusErrorC"
| "base_class CredentialsErrorC = Some AuthenticationErrorC"
| "base_class PayloadErrorC = Some AuthenticationErrorC"
| "base_class AuthErrorC = Some AuthenticationErrorC"
| "base_class ServiceErrorC = Some PortunusErrorC"
| "base_class FetchSecretErrorC = Some ServiceErrorC"
| "base_class ConfigurationErrorC = Some ServiceErrorC"
| "base_class UpstreamServiceErrorC = Some ServiceErrorC"
| "base_class StateErrorC = Some PortunusErrorC"
| "base_class RedisErrorC = Some StateErrorC"
| "base_class CacheErrorC = Some StateErrorC"
| "base_class LoggingErrorC = Some StateErrorC"
| "base_class LogDecodeErrorC = Some LoggingErrorC"
| "base_class LogNotFoundErrorC = Some LoggingErrorC"
| "base_class ValidationErrorC = Some PortunusErrorC"
| "base_class InputValidationErrorC = Some ValidationErrorC"
| "base_class JSONDecodeErrorC = Some ValueErrorC"
| "base_class BinasciiErrorC = Some ValueErrorC"
| "base_class UnicodeDecodeErrorC = Some ValueErrorC"
| "base_class UnicodeEncodeErrorC = Some ValueErrorC"
| "base_class PydanticValidationErrorC = Some ValueErrorC"
| "base_class KeyErrorC = Some LookupErrorC"
| "base_class IndexErrorC = Some LookupErrorC"
| "base_class MaxConnectionsErrorC = Some RedisConnectionErrorC"
| "base_class _ = Some ExceptionC"

text \<open>No chain of bases is longer than six classes.\<close>

fun ancestors :: "nat \<Rightarrow> exn_class \<Rightarrow> exn_class list" where
  "ancestors 0 c = [c]"
| "ancestors (Suc n) c = c # (case base_class c of None \<Rightarrow> [] | Some d \<Rightarrow> ancestors n d)"

definition mro :: "exn_class \<Rightarrow> exn_class list" where
  "mro c = ancestors 6 c"

definition is_subclass :: "exn_class \<Rightarrow> exn_class \<Rightarrow> bool" where
  "is_subclass c d \<longleftrightarrow> d \<in> set (mro c)"

lemma mro_unfold: "mro c = c # (case base_class c of None \<Rightarrow> [] | Some d \<Rightarrow> mro d)"
  by (cases c) (simp_all add: mro_def numeral_eq_Suc)

text \<open>The table of ancestors, which the tests of the handlers are evaluated with.\<close>

lemma mro_table [simp]:
  "mro BaseExceptionC = [BaseExceptionC]"
  "mro ExceptionC = [ExceptionC, BaseExceptionC]"
  "mro PortunusErrorC = [PortunusErrorC, ExceptionC, BaseExceptionC]"
  "mro AuthenticationErrorC = [AuthenticationErrorC, PortunusErrorC, ExceptionC, BaseExceptionC]"
  "mro CredentialsErrorC = [CredentialsErrorC, AuthenticationErrorC, PortunusErrorC, ExceptionC, BaseExceptionC]"
  "mro PayloadErrorC = [PayloadErrorC, AuthenticationErrorC, PortunusErrorC, ExceptionC, BaseExceptionC]"
  "mro AuthErrorC = [AuthErrorC, AuthenticationErrorC, PortunusErrorC, ExceptionC, BaseExceptionC]"
  "mro ServiceErrorC = [ServiceErrorC, PortunusErrorC, ExceptionC, BaseExceptionC]"
  "mro FetchSecretErrorC = [FetchSecretErrorC, ServiceErrorC, PortunusErrorC, ExceptionC, BaseExceptionC]"
  "mro ConfigurationErrorC = [ConfigurationErrorC, ServiceErrorC, PortunusErrorC, ExceptionC, BaseExceptionC]"
  "mro UpstreamServiceErrorC = [UpstreamServiceErrorC, ServiceErrorC, PortunusErrorC, ExceptionC, BaseExceptionC]"
  "mro StateErrorC = [StateErrorC, PortunusErrorC, ExceptionC, BaseExceptionC]"
  "mro RedisErrorC = [RedisErrorC, StateErrorC, PortunusErrorC, ExceptionC, BaseExceptionC]"
  "mro CacheErrorC = [CacheErrorC, StateErrorC, PortunusErrorC, ExceptionC, BaseExceptionC]"
  "mro LoggingErrorC = [LoggingErrorC, StateErrorC, PortunusErrorC, ExceptionC, BaseExceptionC]"
  "mro LogDecodeErrorC = [LogDecodeErrorC, LoggingErrorC, StateErrorC, PortunusErrorC, ExceptionC, BaseExceptionC]"
  "mro LogNotFoundErrorC = [LogNotFoundErrorC, LoggingErrorC, StateErrorC, PortunusErrorC, ExceptionC, BaseExceptionC]"
  "mro ValidationErrorC = [ValidationErrorC, PortunusErrorC, ExceptionC, BaseExceptionC]"
  "mro InputValidationErrorC = [InputValidationErrorC, ValidationErrorC, PortunusErrorC, ExceptionC, BaseExceptionC]"
  "mro TimeoutErrorC = [TimeoutErrorC, ExceptionC, BaseExceptionC]"
  "mro RedisTimeoutErrorC = [RedisTimeoutErrorC, ExceptionC, BaseExceptionC]"
  "mro ClientErrorC = [ClientErrorC, ExceptionC, BaseExceptionC]"
  "mro BotoCoreErrorC = [BotoCoreErrorC, ExceptionC, BaseExceptionC]"
  "mro HTTPErrorC = [HTTPErrorC, ExceptionC, BaseExceptionC]"
  "mro ValueErrorC = [ValueErrorC, ExceptionC, BaseExceptionC]"
  "mro JSONDecodeErrorC = [JSONDecodeErrorC, ValueErrorC, ExceptionC, BaseExceptionC]"
  "mro BinasciiErrorC = [BinasciiErrorC, ValueErrorC, ExceptionC, BaseExceptionC]"
  "mro UnicodeDecodeErrorC = [UnicodeDecodeErrorC, ValueErrorC, ExceptionC, BaseExceptionC]"
  "mro UnicodeEncodeErrorC = [UnicodeEncodeErrorC, ValueErrorC, ExceptionC, BaseExceptionC]"
  "mro TypeErrorC = [TypeErrorC, ExceptionC, BaseExceptionC]"
  "mro AttributeErrorC = [AttributeErrorC, ExceptionC, BaseExceptionC]"
  "mro LookupErrorC = [LookupErrorC, ExceptionC, BaseExceptionC]"
  "mro KeyErrorC = [KeyErrorC, LookupErrorC, ExceptionC, BaseExceptionC]"
  "mro IndexErrorC = [IndexErrorC, LookupErrorC, ExceptionC, BaseExceptionC]"
  "mro PydanticValidationErrorC = [PydanticValidationErrorC, ValueErrorC, ExceptionC, BaseExceptionC]"
  "mro RedisConnectionErrorC = [RedisConnectionErrorC, ExceptionC, BaseExceptionC]"
  "mro MaxConnectionsErrorC = [MaxConnectionsErrorC, RedisConnectionErrorC, ExceptionC, BaseExceptionC]"
  "mro WebSocketDisconnectC = [WebSocketDisconnectC, ExceptionC, BaseExceptionC]"
  "mro ConnectionClosedC = [ConnectionClosedC, ExceptionC, BaseExceptionC]"
  "mro ParserErrorC = [ParserErrorC, ExceptionC, BaseExceptionC]"
  "mro OtherExceptionC = [OtherExceptionC, ExceptionC, BaseExceptionC]"
  "mro CancelledErrorC = [CancelledErrorC, BaseExceptionC]"
  by (simp_all add: mro_def numeral_eq_Suc)

lemma is_subclass_refl [simp]: "is_subclass c c"
  by (cases c) (simp_all add: is_subclass_def mro_def numeral_eq_Suc)

lemma is_subclass_BaseException [simp]: "is_subclass c BaseExceptionC"
  by (cases c) (simp_all add: is_subclass_def mro_def numeral_eq_Suc)

lemma is_subclass_trans: "is_subclass a b \<Longrightarrow> is_subclass b c \<Longrightarrow> is_subclass a c"
  by (cases a; cases b) (auto simp: is_subclass_def mro_def numeral_eq_Suc)

section \<open>Exception values\<close>

text \<open>
  \<open>PyError cls name msg\<close> is an exception of a class the program does not define: \<open>cls\<close> is what
  its handlers can see of it, \<open>name\<close> is \<open>type(e).__name__\<close> and \<open>msg\<close> is \<open>str(e)\<close>.
  \<open>ClientError code msg\<close> is botocore's, with the service's error code.
  \<open>Cancelled scope\<close> is the \<open>CancelledError\<close> that an expired \<open>asyncio.timeout\<close> block (named
  \<open>scope\<close>) or a task cancellation delivers at an \<open>await\<close>.
\<close>

datatype exn =
    PortunusError string
  | AuthenticationError string | CredentialsError string | PayloadError string | AuthError string
  | ServiceError string | FetchSecretError int string | ConfigurationError string
  | UpstreamServiceError string
  | StateError string | RedisError string | CacheError string
  | LoggingError string | LogDecodeError string "string option" | LogNotFoundError string
  | ValidationError string | InputValidationError string string
  | PyTimeoutError string
  | RedisTimeoutError string
  | ClientError string string
  | PyError exn_class string string
  | Cancelled string

type_synonym 'a res = "exn + 'a"

fun class_of :: "exn \<Rightarrow> exn_class" where
  "class_of (PortunusError _) = PortunusErrorC"
| "class_of (AuthenticationError _) = AuthenticationErrorC"
| "class_of (CredentialsError _) = CredentialsErrorC"
| "class_of (PayloadError _) = PayloadErrorC"
| "class_of (AuthError _) = AuthErrorC"
| "class_of (ServiceError _) = ServiceErrorC"
| "class_of (FetchSecretError _ _) = FetchSecretErrorC"
| "class_of (ConfigurationError _) = ConfigurationErrorC"
| "class_of (UpstreamServiceError _) = UpstreamServiceErrorC"
| "class_of (StateError _) = StateErrorC"
| "class_of (RedisError _) = RedisErrorC"
| "class_of (CacheError _) = CacheErrorC"
| "class_of (LoggingError _) = LoggingErrorC"
| "class_of (LogDecodeError _ _) = LogDecodeErrorC"
| "class_of (LogNotFoundError _) = LogNotFoundErrorC"
| "class_of (ValidationError _) = ValidationErrorC"
| "class_of (InputValidationError _ _) = InputValidationErrorC"
| "class_of (PyTimeoutError _) = TimeoutErrorC"
| "class_of (RedisTimeoutError _) = RedisTimeoutErrorC"
| "class_of (ClientError _ _) = ClientErrorC"
| "class_of (PyError c _ _) = c"
| "class_of (Cancelled _) = CancelledErrorC"

definition isinstance :: "exn \<Rightarrow> exn_class list \<Rightarrow> bool" where
  "isinstance e cs \<longleftrightarrow> (\<exists>c \<in> set cs. is_subclass (class_of e) c)"

text \<open>What \<open>except Exception\<close> catches.\<close>

definition is_Exception :: "exn \<Rightarrow> bool" where
  "is_Exception e \<longleftrightarrow> is_subclass (class_of e) ExceptionC"

lemma is_Exception_iff: "is_Exception e \<longleftrightarrow> class_of e \<noteq> BaseExceptionC \<and> class_of e \<noteq> CancelledErrorC"
  by (cases "class_of e") (simp_all add: is_Exception_def is_subclass_def)

lemma isinstance_Nil [simp]: "\<not> isinstance e []"
  by (simp add: isinstance_def)

lemma isinstance_Cons [simp]:
  "isinstance e (c # cs) \<longleftrightarrow> is_subclass (class_of e) c \<or> isinstance e cs"
  by (auto simp: isinstance_def)

lemma mro_self [simp]: "c \<in> set (mro c)"
  by (cases c) simp_all

declare is_subclass_def [simp]

text \<open>A computation that raises, if anything, what \<open>except Exception\<close> catches.\<close>

named_theorems exn_rules \<open>only_Exceptions of the operations\<close>

definition only_Exceptions :: "'a res \<Rightarrow> bool" where
  "only_Exceptions m \<longleftrightarrow> (\<forall>e. m = Inl e \<longrightarrow> is_Exception e)"

lemma only_Exceptions_Inr [exn_rules]: "only_Exceptions (Inr x)"
  by (simp add: only_Exceptions_def)

lemma only_Exceptions_Inl [exn_rules]: "is_Exception e \<Longrightarrow> only_Exceptions (Inl e)"
  by (simp add: only_Exceptions_def)

lemma only_Exceptions_bind [exn_rules]:
  "only_Exceptions m \<Longrightarrow> (\<And>x. m = Inr x \<Longrightarrow> only_Exceptions (f x)) \<Longrightarrow> only_Exceptions (bind_r m f)"
  by (cases m) (simp_all add: only_Exceptions_def)

lemma only_Exceptions_option [exn_rules]: "is_Exception e \<Longrightarrow> only_Exceptions (of_option e m)"
  by (cases m) (simp_all add: only_Exceptions_def)

lemma only_Exceptions_map [exn_rules]: "only_Exceptions m \<Longrightarrow> only_Exceptions (map_sum id f m)"
  by (cases m) (simp_all add: only_Exceptions_def)

lemma only_ExceptionsD: "only_Exceptions m \<Longrightarrow> m = Inl e \<Longrightarrow> is_Exception e"
  by (simp add: only_Exceptions_def)

text \<open>Constructors whose \<open>__init__\<close> or \<open>__post_init__\<close> rewrites the message.\<close>

definition mk_LogDecodeError :: "string \<Rightarrow> string option \<Rightarrow> exn" where
  "mk_LogDecodeError message field =
     LogDecodeError
       (if field \<noteq> None \<and> field \<noteq> Some [] then ''Failed to decode '' @ the field @ '': '' @ message
        else message)
       field"

definition mk_LogNotFoundError :: "string \<Rightarrow> string option \<Rightarrow> exn" where
  "mk_LogNotFoundError message message_id =
     LogNotFoundError
       (if message_id \<noteq> None \<and> message_id \<noteq> Some []
        then ''Log with message_id '' @ the message_id @ '' not found'' else message)"

definition mk_InputValidationError :: "string \<Rightarrow> string \<Rightarrow> exn" where
  "mk_InputValidationError field message =
     InputValidationError field (''Validation error for field '' @ [squote] @ field @ [squote] @ '': '' @ message)"

text \<open>The \<open>message\<close> attribute; the text of an exception of the libraries.\<close>

fun exn_message :: "exn \<Rightarrow> string" where
  "exn_message (PortunusError m) = m"
| "exn_message (AuthenticationError m) = m"
| "exn_message (CredentialsError m) = m"
| "exn_message (PayloadError m) = m"
| "exn_message (AuthError m) = m"
| "exn_message (ServiceError m) = m"
| "exn_message (FetchSecretError _ m) = m"
| "exn_message (ConfigurationError m) = m"
| "exn_message (UpstreamServiceError m) = m"
| "exn_message (StateError m) = m"
| "exn_message (RedisError m) = m"
| "exn_message (CacheError m) = m"
| "exn_message (LoggingError m) = m"
| "exn_message (LogDecodeError m _) = m"
| "exn_message (LogNotFoundError m) = m"
| "exn_message (ValidationError m) = m"
| "exn_message (InputValidationError _ m) = m"
| "exn_message (PyTimeoutError m) = m"
| "exn_message (RedisTimeoutError m) = m"
| "exn_message (ClientError _ m) = m"
| "exn_message (PyError _ _ m) = m"
| "exn_message (Cancelled _) = []"

text \<open>\<open>repr\<close> of a string; characters outside ASCII are taken as printable.\<close>

definition repr_char :: "char \<Rightarrow> char \<Rightarrow> string" where
  "repr_char quote c =
     (let n = (of_char c :: nat); hex = (\<lambda>d. char_of (if d < 10 then 48 + d else 87 + d) :: char)
      in if c = quote \<or> c = backslash then [backslash, c]
         else if n = 10 then [backslash, CHR ''n'']
         else if n = 13 then [backslash, CHR ''r'']
         else if n = 9 then [backslash, CHR ''t'']
         else if n < 32 \<or> n = 127 then [backslash, CHR ''x'', hex (n div 16), hex (n mod 16)]
         else [c])"

definition py_repr :: "string \<Rightarrow> string" where
  "py_repr s =
     (let quote = (if squote \<in> set s \<and> dquote \<notin> set s then dquote else squote)
      in quote # concat (List.map (repr_char quote) s) @ [quote])"

text \<open>
  \<open>str(e)\<close>.  A dataclass does not call \<open>Exception.__init__\<close>, so the two with two attributes print as
  the tuple of what they were built from; \<open>InputValidationError\<close> extends its message afterwards.
\<close>

fun exn_str :: "exn \<Rightarrow> string" where
  "exn_str (FetchSecretError code m) = ''('' @ int_str code @ '', '' @ py_repr m @ '')''"
| "exn_str (InputValidationError field m) =
     ''('' @ py_repr field @ '', '' @ py_repr (drop (length field + 31) m) @ '')''"
| "exn_str e = exn_message e"

lemma mk_InputValidationError_str:
  "exn_str (mk_InputValidationError field m) = ''('' @ py_repr field @ '', '' @ py_repr m @ '')''"
  by (simp add: mk_InputValidationError_def drop_Cons')

end
