(* ===== verification/Codec.thy ===== *)
theory Codec
  imports Exceptions
begin

text \<open>
  The interface of every encoder/decoder pair the program relies on: what is encoded decodes to
  itself.  Two codecs compose, which is how a payload (JSON inside base64) and a cache entry
  (a record inside JSON) are read back.  The UTF-8 and base64 codecs of the standard library
  follow; both are total functions on bytes, errors included.
\<close>

section \<open>The interface\<close>

locale codec =
  fixes enc :: "'a \<Rightarrow> 'b"
    and dec :: "'b \<Rightarrow> 'e + 'a"
    and ok :: "'a \<Rightarrow> bool"
  assumes dec_enc: "ok x \<Longrightarrow> dec (enc x) = Inr x"
begin

lemma enc_inj: "ok x \<Longrightarrow> ok y \<Longrightarrow> enc x = enc y \<Longrightarrow> x = y"
  by (metis dec_enc sum.inject(2))

lemma dec_enc_bind: "ok x \<Longrightarrow> bind_r (dec (enc x)) f = f x"
  by (simp add: dec_enc)

end

locale codec_pair =
  outer: codec enc1 dec1 ok1 + inner: codec enc2 dec2 ok2
  for enc1 :: "'a \<Rightarrow> 'b" and dec1 :: "'b \<Rightarrow> 'e + 'a" and ok1
    and enc2 :: "'b \<Rightarrow> 'c" and dec2 :: "'c \<Rightarrow> 'e + 'b" and ok2 +
  assumes ok_step: "ok1 x \<Longrightarrow> ok2 (enc1 x)"

sublocale codec_pair \<subseteq> both: codec "\<lambda>x. enc2 (enc1 x)" "\<lambda>s. bind_r (dec2 s) dec1" ok1
  by unfold_locales (simp add: inner.dec_enc outer.dec_enc ok_step)

section \<open>UTF-8\<close>

text \<open>
  One decoding step at the head of a byte string: the code point found and the bytes it takes,
  or \<open>None\<close> and the length of the ill-formed prefix (the part that \<open>errors="replace"\<close>
  replaces by one U+FFFD).  \<open>sp\<close> admits surrogates, which a Python \<open>str\<close> may hold though its
  encoding may not.
\<close>

definition is_cont :: "char \<Rightarrow> bool" where
  "is_cont c \<longleftrightarrow> 128 \<le> (of_char c :: nat) \<and> (of_char c :: nat) < 192"

definition cont_val :: "char \<Rightarrow> nat" where
  "cont_val c = of_char c - 128"

definition second_ok :: "bool \<Rightarrow> nat \<Rightarrow> char \<Rightarrow> bool" where
  "second_ok sp a b \<longleftrightarrow> is_cont b
     \<and> (a = 224 \<longrightarrow> 160 \<le> (of_char b :: nat)) \<and> (a = 237 \<longrightarrow> sp \<or> (of_char b :: nat) < 160)
     \<and> (a = 240 \<longrightarrow> 144 \<le> (of_char b :: nat)) \<and> (a = 244 \<longrightarrow> (of_char b :: nat) < 144)"

fun utf8_step :: "bool \<Rightarrow> bytes \<Rightarrow> nat option \<times> nat" where
  "utf8_step sp [] = (None, 1)"
| "utf8_step sp (x # s) =
     (let a = (of_char x :: nat) in
      if a < 128 then (Some a, 1)
      else if a < 194 \<or> 244 < a then (None, 1)
      else (case s of
          [] \<Rightarrow> (None, 1)
        | b # s1 \<Rightarrow>
            if \<not> second_ok sp a b then (None, 1)
            else if a < 224 then (Some ((a - 192) * 64 + cont_val b), 2)
            else (case s1 of
                [] \<Rightarrow> (None, 2)
              | c # s2 \<Rightarrow>
                  if \<not> is_cont c then (None, 2)
                  else if a < 240
                  then (Some ((a - 224) * 4096 + cont_val b * 64 + cont_val c), 3)
                  else (case s2 of
                      [] \<Rightarrow> (None, 3)
                    | d # s3 \<Rightarrow>
                        if \<not> is_cont d then (None, 3)
                        else (Some ((a - 240) * 262144 + cont_val b * 4096 + cont_val c * 64
                                    + cont_val d), 4)))))"

lemma utf8_step_pos: "0 < snd (utf8_step sp s)"
  by (cases "(sp, s)" rule: utf8_step.cases) (auto simp: Let_def split: list.splits)

lemma utf8_step_len: "(r, k) = utf8_step sp s \<Longrightarrow> 0 < k"
  using utf8_step_pos [of sp s] by (metis snd_conv)

function utf8_decode_cps :: "bool \<Rightarrow> bytes \<Rightarrow> nat list option" where
  "utf8_decode_cps sp s =
     (if s = [] then Some []
      else (case utf8_step sp s of
          (None, k) \<Rightarrow> None
        | (Some cp, k) \<Rightarrow> map_option (\<lambda>cps. cp # cps) (utf8_decode_cps sp (drop k s))))"
  by pat_completeness auto
termination
  by (relation "measure (\<lambda>(sp, s). length s)") (auto intro!: diff_less dest: utf8_step_len)

declare utf8_decode_cps.simps [simp del]

function utf8_replace_cps :: "bytes \<Rightarrow> nat list" where
  "utf8_replace_cps s =
     (if s = [] then []
      else (let (r, k) = utf8_step False s
            in (case r of None \<Rightarrow> 65533 | Some cp \<Rightarrow> cp) # utf8_replace_cps (drop k s)))"
  by pat_completeness auto
termination
  by (relation "measure length") (auto intro!: diff_less dest: utf8_step_len)

declare utf8_replace_cps.simps [simp del]

definition utf8_enc1 :: "nat \<Rightarrow> bytes" where
  "utf8_enc1 cp =
     (if cp < 128 then [char_of cp]
      else if cp < 2048 then [char_of (192 + cp div 64), char_of (128 + cp mod 64)]
      else if cp < 65536
      then [char_of (224 + cp div 4096), char_of (128 + cp div 64 mod 64), char_of (128 + cp mod 64)]
      else [char_of (240 + cp div 262144), char_of (128 + cp div 4096 mod 64),
            char_of (128 + cp div 64 mod 64), char_of (128 + cp mod 64)])"

definition utf8_enc :: "nat list \<Rightarrow> bytes" where
  "utf8_enc cps = concat (List.map utf8_enc1 cps)"

definition is_surrogate :: "nat \<Rightarrow> bool" where
  "is_surrogate cp \<longleftrightarrow> 55296 \<le> cp \<and> cp < 57344"

definition cp_ok :: "bool \<Rightarrow> nat \<Rightarrow> bool" where
  "cp_ok sp cp \<longleftrightarrow> cp < 1114112 \<and> (sp \<or> \<not> is_surrogate cp)"

lemma base64_digits3:
  "(n :: nat) = n div 4096 * 4096 + n div 64 mod 64 * 64 + n mod 64"
proof -
  have "n div 4096 = n div 64 div 64" by (simp flip: div_mult2_eq)
  then show ?thesis
    using div_mult_mod_eq [of n 64] div_mult_mod_eq [of "n div 64" 64] by linarith
qed

lemma base64_digits4:
  "(n :: nat) = n div 262144 * 262144 + n div 4096 mod 64 * 4096 + n div 64 mod 64 * 64 + n mod 64"
proof -
  have "n div 262144 = n div 4096 div 64" by (simp flip: div_mult2_eq)
  then show ?thesis
    using base64_digits3 [of n] div_mult_mod_eq [of "n div 4096" 64] by linarith
qed

lemma of_char_char_of [simp]: "n < 256 \<Longrightarrow> (of_char (char_of (n :: nat) :: char) :: nat) = n"
  by simp

text \<open>The step reads back one encoded code point, whatever follows.\<close>

lemma utf8_step_enc1:
  assumes "cp_ok sp cp"
  shows "utf8_step sp (utf8_enc1 cp @ s) = (Some cp, length (utf8_enc1 cp))"
proof -
  consider "cp < 128" | "128 \<le> cp" "cp < 2048" | "2048 \<le> cp" "cp < 65536" | "65536 \<le> cp"
    by linarith
  then show ?thesis
  proof cases
    case 1
    then show ?thesis by (simp add: utf8_enc1_def)
  next
    case 2
    then have "192 + cp div 64 < 256" "194 \<le> 192 + cp div 64" "cp div 64 < 32"
      by auto
    with 2 show ?thesis
      by (simp add: utf8_enc1_def Let_def second_ok_def is_cont_def cont_val_def)
  next
    case 3
    define a b c where "a = cp div 4096" and "b = cp div 64 mod 64" and "c = cp mod 64"
    have cp: "cp = a * 4096 + b * 64 + c" and bc: "b < 64" "c < 64"
      unfolding a_def b_def c_def using base64_digits3 [of cp] by auto
    have "a < 16" using cp 3 by linarith
    moreover have "a = 0 \<Longrightarrow> 32 \<le> b" using cp bc 3 by linarith
    moreover have "a = 13 \<Longrightarrow> \<not> sp \<Longrightarrow> b < 32"
      using cp bc assms by (auto simp: cp_ok_def is_surrogate_def)
    moreover have "utf8_enc1 cp = [char_of (224 + a), char_of (128 + b), char_of (128 + c)]"
      using 3 by (simp add: utf8_enc1_def a_def b_def c_def)
    ultimately show ?thesis
      using cp [symmetric] bc
      by (auto simp: Let_def second_ok_def is_cont_def cont_val_def)
  next
    case 4
    define a b c d where "a = cp div 262144" and "b = cp div 4096 mod 64"
      and "c = cp div 64 mod 64" and "d = cp mod 64"
    have cp: "cp = a * 262144 + b * 4096 + c * 64 + d" and bcd: "b < 64" "c < 64" "d < 64"
      unfolding a_def b_def c_def d_def using base64_digits4 [of cp] by auto
    have "a < 5" using cp assms by (simp add: cp_ok_def)
    moreover have "a = 0 \<Longrightarrow> 16 \<le> b" using cp bcd 4 by linarith
    moreover have "a = 4 \<Longrightarrow> b < 16" using cp bcd assms by (simp add: cp_ok_def)
    moreover have "utf8_enc1 cp =
        [char_of (240 + a), char_of (128 + b), char_of (128 + c), char_of (128 + d)]"
      using 4 by (simp add: utf8_enc1_def a_def b_def c_def d_def)
    ultimately show ?thesis
      using cp [symmetric] bcd
      by (auto simp: Let_def second_ok_def is_cont_def cont_val_def)
  qed
qed

lemma utf8_enc1_not_Nil [simp]: "utf8_enc1 cp \<noteq> []"
  by (simp add: utf8_enc1_def)

lemma utf8_decode_enc1:
  "cp_ok sp cp \<Longrightarrow>
     utf8_decode_cps sp (utf8_enc1 cp @ s) = map_option (\<lambda>cps. cp # cps) (utf8_decode_cps sp s)"
  by (subst utf8_decode_cps.simps) (simp add: utf8_step_enc1)

lemma utf8_decode_enc: "(\<And>c. c \<in> set cps \<Longrightarrow> cp_ok sp c) \<Longrightarrow> utf8_decode_cps sp (utf8_enc cps) = Some cps"
proof (induction cps)
  case Nil
  then show ?case by (simp add: utf8_enc_def utf8_decode_cps.simps)
next
  case (Cons c cps)
  then show ?case by (simp add: utf8_enc_def utf8_decode_enc1)
qed

text \<open>Conversely, what a successful step consumed is the encoding of what it found.\<close>

lemma utf8_enc1_2:
  "2 \<le> p \<Longrightarrow> p < 32 \<Longrightarrow> q < 64 \<Longrightarrow>
     utf8_enc1 (p * 64 + q) = [char_of (192 + p), char_of (128 + q)]"
  by (simp add: utf8_enc1_def)

lemma base64_mod: "(r :: nat) < 64 \<Longrightarrow> (k * 64 + r) mod 64 = r"
  by (simp only: mod_mult_self3 mod_less)

lemma utf8_enc1_3:
  assumes "p < 16" "q < 64" "r < 64" "p = 0 \<Longrightarrow> 32 \<le> q"
  shows "utf8_enc1 (p * 4096 + q * 64 + r) = [char_of (224 + p), char_of (128 + q), char_of (128 + r)]"
proof -
  have "2048 \<le> p * 4096 + q * 64 + r" using assms by (cases p) auto
  moreover have "(p * 4096 + q * 64 + r) div 64 = p * 64 + q"
    using assms by simp
  moreover have "(p * 4096 + q * 64 + r) div 4096 = p"
    using assms by simp
  moreover have "(p * 4096 + q * 64 + r) mod 64 = r" "(p * 64 + q) mod 64 = q"
    using assms base64_mod [of r "p * 64 + q"] base64_mod [of q p] by (simp_all add: mult.commute)
  ultimately show ?thesis
    using assms by (simp add: utf8_enc1_def)
qed

lemma utf8_enc1_4:
  assumes "p < 5" "q < 64" "r < 64" "t < 64" "p = 0 \<Longrightarrow> 16 \<le> q"
  shows "utf8_enc1 (p * 262144 + q * 4096 + r * 64 + t) =
    [char_of (240 + p), char_of (128 + q), char_of (128 + r), char_of (128 + t)]"
proof -
  have "65536 \<le> p * 262144 + q * 4096 + r * 64 + t" using assms by (cases p) auto
  moreover have "(p * 262144 + q * 4096 + r * 64 + t) div 64 = p * 4096 + q * 64 + r"
    using assms by simp
  moreover have "(p * 262144 + q * 4096 + r * 64 + t) div 4096 = p * 64 + q"
    using assms by simp
  moreover have "(p * 262144 + q * 4096 + r * 64 + t) div 262144 = p"
    using assms by simp
  moreover have "(p * 262144 + q * 4096 + r * 64 + t) mod 64 = t"
      "(p * 4096 + q * 64 + r) mod 64 = r" "(p * 64 + q) mod 64 = q"
    using assms base64_mod [of t "p * 4096 + q * 64 + r"] base64_mod [of r "p * 64 + q"]
      base64_mod [of q p] by (simp_all add: mult.commute)
  ultimately show ?thesis
    using assms by (simp add: utf8_enc1_def)
qed

lemma is_contE:
  assumes "is_cont c"
  obtains q where "q < 64" "c = char_of (128 + q)" "cont_val c = q"
proof (rule that [of "of_char c - 128"])
  show "of_char c - 128 < (64 :: nat)" "c = char_of (128 + ((of_char c :: nat) - 128))"
    using assms by (auto simp: is_cont_def)
qed (simp add: cont_val_def)

lemma utf8_step_sound:
  assumes "utf8_step sp s = (Some cp, k)"
  shows "cp_ok sp cp \<and> take k s = utf8_enc1 cp"
proof (cases s)
  case Nil
  with assms show ?thesis by simp
next
  case (Cons x r)
  define a where "a = (of_char x :: nat)"
  have x: "x = char_of a" by (simp add: a_def)
  consider (one) "a < 128" "cp = a" "k = 1"
    | (two) b s1 where "r = b # s1" "194 \<le> a" "a < 224" "is_cont b"
        "cp = (a - 192) * 64 + cont_val b" "k = 2"
    | (three) b c s2 where "r = b # c # s2" "224 \<le> a" "a < 240" "second_ok sp a b" "is_cont c"
        "cp = (a - 224) * 4096 + cont_val b * 64 + cont_val c" "k = 3"
    | (four) b c d s3 where "r = b # c # d # s3" "240 \<le> a" "a < 245" "second_ok sp a b"
        "is_cont c" "is_cont d"
        "cp = (a - 240) * 262144 + cont_val b * 4096 + cont_val c * 64 + cont_val d" "k = 4"
    using assms Cons unfolding a_def
    by (fastforce simp: Let_def second_ok_def not_less split: if_splits list.splits)
  then show ?thesis
  proof cases
    case one
    then show ?thesis
      using Cons x by (simp add: utf8_enc1_def cp_ok_def is_surrogate_def)
  next
    case two
    obtain p where "a = 192 + p" using two(2) le_Suc_ex [of 192 a] by auto
    moreover obtain q where "q < 64" "b = char_of (128 + q)" "cont_val b = q"
      using two(4) by (rule is_contE)
    ultimately show ?thesis
      using Cons two x utf8_enc1_2 [of p q] by (simp add: cp_ok_def is_surrogate_def)
  next
    case three
    obtain p where "a = 224 + p" using three(2) le_Suc_ex [of 224 a] by auto
    moreover obtain q where "q < 64" "b = char_of (128 + q)" "cont_val b = q"
      using three(4) is_contE unfolding second_ok_def by blast
    moreover obtain t where "t < 64" "c = char_of (128 + t)" "cont_val c = t"
      using three(5) by (rule is_contE)
    ultimately show ?thesis
      using Cons three x utf8_enc1_3 [of p q t] less_linear [of p 13]
      by (auto simp: cp_ok_def is_surrogate_def second_ok_def)
  next
    case four
    obtain p where "a = 240 + p" using four(2) le_Suc_ex [of 240 a] by auto
    moreover obtain q where "q < 64" "b = char_of (128 + q)" "cont_val b = q"
      using four(4) is_contE unfolding second_ok_def by blast
    moreover obtain t where "t < 64" "c = char_of (128 + t)" "cont_val c = t"
      using four(5) by (rule is_contE)
    moreover obtain u where "u < 64" "d = char_of (128 + u)" "cont_val d = u"
      using four(6) by (rule is_contE)
    ultimately show ?thesis
      using Cons four x utf8_enc1_4 [of p q t u]
      by (auto simp: cp_ok_def is_surrogate_def second_ok_def)
  qed
qed

lemma utf8_decode_sound:
  "utf8_decode_cps sp s = Some cps \<Longrightarrow> utf8_enc cps = s \<and> (\<forall>c \<in> set cps. cp_ok sp c)"
proof (induction sp s arbitrary: cps rule: utf8_decode_cps.induct)
  case (1 sp s)
  show ?case
  proof (cases "s = []")
    case True
    with "1.prems" show ?thesis by (simp add: utf8_decode_cps.simps utf8_enc_def)
  next
    case False
    with "1.prems" obtain cp k cps' where step: "utf8_step sp s = (Some cp, k)"
      and rest: "utf8_decode_cps sp (drop k s) = Some cps'" and cps: "cps = cp # cps'"
      by (subst (asm) utf8_decode_cps.simps) (auto split: option.splits prod.splits)
    from "1.IH" [OF False step [symmetric] refl rest]
    have "utf8_enc cps' = drop k s \<and> (\<forall>c \<in> set cps'. cp_ok sp c)" .
    with utf8_step_sound [OF step] cps show ?thesis
      by (metis append_take_drop_id concat.simps(2) list.simps(9) set_ConsD utf8_enc_def)
  qed
qed

text \<open>
  A Python \<open>str\<close> in this representation: well formed up to surrogates.  Without surrogates it
  can be encoded.
\<close>

definition str_ok :: "bool \<Rightarrow> string \<Rightarrow> bool" where
  "str_ok sp s \<longleftrightarrow> utf8_decode_cps sp s \<noteq> None"

definition cps_of :: "string \<Rightarrow> nat list" where
  "cps_of s = (case utf8_decode_cps True s of None \<Rightarrow> [] | Some cps \<Rightarrow> cps)"

text \<open>ASCII text is its own encoding.\<close>

definition is_ascii :: "string \<Rightarrow> bool" where
  "is_ascii s \<longleftrightarrow> (\<forall>c \<in> set s. (of_char c :: nat) < 128)"

lemma is_ascii_Cons [simp]: "is_ascii (c # s) \<longleftrightarrow> (of_char c :: nat) < 128 \<and> is_ascii s"
  by (simp add: is_ascii_def)

lemma is_ascii_Nil [simp]: "is_ascii []"
  by (simp add: is_ascii_def)

lemma is_ascii_append [simp]: "is_ascii (a @ b) \<longleftrightarrow> is_ascii a \<and> is_ascii b"
  by (auto simp: is_ascii_def)

lemma utf8_decode_ascii: "is_ascii s \<Longrightarrow> utf8_decode_cps sp s = Some (List.map of_char s)"
proof -
  assume a: "is_ascii s"
  then have "utf8_enc (List.map of_char s) = s"
    by (induction s) (auto simp: utf8_enc_def utf8_enc1_def)
  moreover have "utf8_decode_cps sp (utf8_enc (List.map of_char s)) = Some (List.map of_char s)"
    using a by (intro utf8_decode_enc) (auto simp: cp_ok_def is_ascii_def is_surrogate_def)
  ultimately show ?thesis by simp
qed

lemma str_ok_ascii: "is_ascii s \<Longrightarrow> str_ok sp s"
  by (simp add: str_ok_def utf8_decode_ascii)

lemma is_ascii_concat: "is_ascii (concat xs) \<longleftrightarrow> (\<forall>x \<in> set xs. is_ascii x)"
  by (auto simp: is_ascii_def)

lemma is_ascii_join: "is_ascii sep \<Longrightarrow> \<forall>x \<in> set xs. is_ascii x \<Longrightarrow> is_ascii (py_join sep xs)"
  by (induction sep xs rule: py_join.induct) simp_all

text \<open>
  The decimal digits of Unicode (category Nd), which a regular expression's \<open>\d\<close> matches: blocks
  of ten consecutive code points, given by their first.
\<close>

definition decimal_blocks :: "int list" where
  "decimal_blocks =
     [48, 1632, 1776, 1984, 2406, 2534, 2662, 2790, 2918, 3046, 3174, 3302,
      3430, 3558, 3664, 3792, 3872, 4160, 4240, 6112, 6160, 6470, 6608, 6784,
      6800, 6992, 7088, 7232, 7248, 42528, 43216, 43264, 43472, 43504, 43600, 44016,
      65296, 66720, 68912, 69734, 69872, 69942, 70096, 70384, 70736, 70864, 71248, 71360,
      71472, 71904, 72016, 72688, 72784, 73040, 73120, 73552, 92768, 92864, 93008, 120782,
      120792, 120802, 120812, 120822, 123200, 123632, 124144, 125264, 130032]"

definition is_decimal_cp :: "nat \<Rightarrow> bool" where
  "is_decimal_cp cp \<longleftrightarrow> list_ex (\<lambda>b. b \<le> int cp \<and> int cp < b + 10) decimal_blocks"

text \<open>\<open>s.encode("utf-8")\<close>, \<open>b.decode("utf-8")\<close> and \<open>b.decode("utf-8", errors="replace")\<close>.\<close>

definition encode_utf8 :: "string \<Rightarrow> bytes res" where
  "encode_utf8 s =
     (if str_ok False s then Inr s
      else Inl (PyError UnicodeEncodeErrorC ''UnicodeEncodeError'' ''surrogates not allowed''))"

definition decode_utf8 :: "bytes \<Rightarrow> string res" where
  "decode_utf8 b =
     (if str_ok False b then Inr b
      else Inl (PyError UnicodeDecodeErrorC ''UnicodeDecodeError'' ''invalid utf-8''))"

definition decode_utf8_replace :: "bytes \<Rightarrow> string" where
  "decode_utf8_replace b = utf8_enc (utf8_replace_cps b)"

lemma only_Exceptions_decode_utf8 [exn_rules]: "only_Exceptions (decode_utf8 b)"
  by (simp add: decode_utf8_def exn_rules is_Exception_iff)

end
