(* ===== verification/Json.thy ===== *)
theory Json
  imports Codec
begin

text \<open>
  The standard library's \<open>json\<close>: the values \<open>json.loads\<close> builds, \<open>json.dumps\<close> with
  \<open>ensure_ascii\<close>, and the decoder, surrogate pairs and duplicate keys included.  Dictionaries
  keep their insertion order.  A float is kept as its lexeme: the program never computes with one.
\<close>

datatype json =
    JNull
  | JBool bool
  | JInt int
  | JFloat string
  | JStr string
  | JList "json list"
  | JDict "(string \<times> json) list"

section \<open>Python's view of a decoded value\<close>

text \<open>\<open>bool(x)\<close>: a float is false when its mantissa has only zeros.\<close>

definition float_zero :: "string \<Rightarrow> bool" where
  "float_zero l \<longleftrightarrow> list_all (\<lambda>c. c \<in> set ''-0.'') (takeWhile (\<lambda>c. c \<noteq> CHR ''e'' \<and> c \<noteq> CHR ''E'') l)"

fun truthy :: "json \<Rightarrow> bool" where
  "truthy JNull = False"
| "truthy (JBool b) = b"
| "truthy (JInt i) = (i \<noteq> 0)"
| "truthy (JFloat l) = (\<not> float_zero l)"
| "truthy (JStr s) = (s \<noteq> [])"
| "truthy (JList xs) = (xs \<noteq> [])"
| "truthy (JDict d) = (d \<noteq> [])"

fun is_dict :: "json \<Rightarrow> bool" where
  "is_dict (JDict _) = True"
| "is_dict _ = False"

text \<open>\<open>d.get(k, default)\<close> and \<open>d[k]\<close> on a decoded object; other values have no \<open>get\<close>.\<close>

definition attribute_error :: exn where
  "attribute_error = PyError AttributeErrorC ''AttributeError'' ''object has no attribute get''"

definition key_error :: "string \<Rightarrow> exn" where
  "key_error k = PyError KeyErrorC ''KeyError'' k"

fun py_get :: "json \<Rightarrow> string \<Rightarrow> json \<Rightarrow> json res" where
  "py_get (JDict d) k dflt = Inr (case map_of d k of None \<Rightarrow> dflt | Some v \<Rightarrow> v)"
| "py_get _ k dflt = Inl attribute_error"

definition dict_item :: "(string \<times> json) list \<Rightarrow> string \<Rightarrow> json res" where
  "dict_item d k = of_option (key_error k) (map_of d k)"

definition json_opt :: "string option \<Rightarrow> json" where
  "json_opt s = (case s of None \<Rightarrow> JNull | Some t \<Rightarrow> JStr t)"

section \<open>Serialising\<close>

definition hex_digit :: "nat \<Rightarrow> char" where
  "hex_digit d = (if d < 10 then char_of (48 + d) else char_of (87 + d))"

definition hex4_str :: "nat \<Rightarrow> string" where
  "hex4_str n =
     [hex_digit (n div 4096), hex_digit (n div 256 mod 16), hex_digit (n div 16 mod 16),
      hex_digit (n mod 16)]"

definition u_escape :: "nat \<Rightarrow> string" where
  "u_escape n = backslash # CHR ''u'' # hex4_str n"

definition esc_cp :: "nat \<Rightarrow> string" where
  "esc_cp cp =
     (if cp = 34 then [backslash, dquote]
      else if cp = 92 then [backslash, backslash]
      else if cp = 10 then [backslash, CHR ''n'']
      else if cp = 13 then [backslash, CHR ''r'']
      else if cp = 9 then [backslash, CHR ''t'']
      else if cp = 12 then [backslash, CHR ''f'']
      else if cp = 8 then [backslash, CHR ''b'']
      else if 32 \<le> cp \<and> cp < 127 then [char_of cp]
      else if cp < 65536 then u_escape cp
      else u_escape (55296 + (cp - 65536) div 1024) @ u_escape (56320 + (cp - 65536) mod 1024))"

definition dumps_str :: "string \<Rightarrow> string" where
  "dumps_str s = dquote # concat (List.map esc_cp (cps_of s)) @ [dquote]"

fun json_dumps_with :: "string \<Rightarrow> string \<Rightarrow> json \<Rightarrow> string" where
  "json_dumps_with isep ksep JNull = ''null''"
| "json_dumps_with isep ksep (JBool b) = (if b then ''true'' else ''false'')"
| "json_dumps_with isep ksep (JInt i) = int_str i"
| "json_dumps_with isep ksep (JFloat l) = l"
| "json_dumps_with isep ksep (JStr s) = dumps_str s"
| "json_dumps_with isep ksep (JList xs) =
     ''['' @ py_join isep (List.map (json_dumps_with isep ksep) xs) @ '']''"
| "json_dumps_with isep ksep (JDict d) =
     ''{'' @ py_join isep
       (List.map (\<lambda>p. dumps_str (fst p) @ ksep @ json_dumps_with isep ksep (snd p)) d) @ ''}''"

definition json_dumps :: "json \<Rightarrow> string" where
  "json_dumps v = json_dumps_with '', '' '': '' v"

section \<open>Parsing\<close>

definition is_json_ws :: "char \<Rightarrow> bool" where
  "is_json_ws c \<longleftrightarrow> c \<in> {CHR '' '', CHR 0x09, CHR 0x0A, CHR 0x0D}"

definition skip_ws :: "string \<Rightarrow> string" where
  "skip_ws s = dropWhile is_json_ws s"

definition hex_val :: "char \<Rightarrow> nat option" where
  "hex_val c =
     (if is_digit c then Some (of_char c - 48)
      else if 97 \<le> (of_char c :: nat) \<and> (of_char c :: nat) \<le> 102 then Some (of_char c - 87)
      else if 65 \<le> (of_char c :: nat) \<and> (of_char c :: nat) \<le> 70 then Some (of_char c - 55)
      else None)"

fun hex4 :: "string \<Rightarrow> nat option" where
  "hex4 (a # b # c # d # s) =
     (case (hex_val a, hex_val b, hex_val c, hex_val d) of
        (Some w, Some x, Some y, Some z) \<Rightarrow> Some (w * 4096 + x * 256 + y * 16 + z)
      | _ \<Rightarrow> None)"
| "hex4 _ = None"

definition simple_escape :: "char \<Rightarrow> char option" where
  "simple_escape e =
     (if e = dquote \<or> e = backslash \<or> e = CHR ''/'' then Some e
      else if e = CHR ''b'' then Some (CHR 0x08)
      else if e = CHR ''f'' then Some (CHR 0x0C)
      else if e = CHR ''n'' then Some (CHR 0x0A)
      else if e = CHR ''r'' then Some (CHR 0x0D)
      else if e = CHR ''t'' then Some (CHR 0x09)
      else None)"

text \<open>The low surrogate escaped right after a high one.\<close>

fun low_follows :: "nat \<Rightarrow> string \<Rightarrow> nat option" where
  "low_follows hi (b # u # s) =
     (if 55296 \<le> hi \<and> hi < 56320 \<and> b = backslash \<and> u = CHR ''u'' then
        (case hex4 s of
           Some lo \<Rightarrow> if 56320 \<le> lo \<and> lo < 57344 then Some lo else None
         | None \<Rightarrow> None)
      else None)"
| "low_follows hi _ = None"

definition prepend :: "string \<Rightarrow> (string \<times> string) option \<Rightarrow> (string \<times> string) option" where
  "prepend u m = map_option (\<lambda>(t, q). (u @ t, q)) m"

text \<open>The text of a string after its opening quote, and what follows the closing one.\<close>

fun scan_str :: "string \<Rightarrow> (string \<times> string) option" where
  "scan_str [] = None"
| "scan_str (c # r) =
     (if c = dquote then Some ([], r)
      else if c = backslash then
        (case r of
           [] \<Rightarrow> None
         | e # r1 \<Rightarrow>
             if e = CHR ''u'' then
               (case hex4 r1 of
                  None \<Rightarrow> None
                | Some cp \<Rightarrow>
                    (case low_follows cp (drop 4 r1) of
                       Some lo \<Rightarrow>
                         prepend (utf8_enc1 (65536 + (cp - 55296) * 1024 + (lo - 56320)))
                           (scan_str (drop 10 r1))
                     | None \<Rightarrow> prepend (utf8_enc1 cp) (scan_str (drop 4 r1))))
             else
               (case simple_escape e of
                  None \<Rightarrow> None
                | Some x \<Rightarrow> prepend [x] (scan_str r1)))
      else if (of_char c :: nat) < 32 then None
      else prepend [c] (scan_str r))"

text \<open>Numbers: \<open>-?(0|[1-9][0-9]*)(\.[0-9]+)?([eE][-+]?[0-9]+)?\<close>, longest match.\<close>

definition scan_int :: "string \<Rightarrow> string \<times> string" where
  "scan_int s =
     (case s of
        [] \<Rightarrow> ([], [])
      | c # r \<Rightarrow> if c = CHR ''0'' then ([c], r) else (takeWhile is_digit s, dropWhile is_digit s))"

definition scan_frac :: "string \<Rightarrow> string \<times> string" where
  "scan_frac s =
     (case s of
        [] \<Rightarrow> ([], [])
      | c # r \<Rightarrow>
          if c = CHR ''.'' \<and> takeWhile is_digit r \<noteq> []
          then (c # takeWhile is_digit r, dropWhile is_digit r) else ([], s))"

definition scan_exp :: "string \<Rightarrow> string \<times> string" where
  "scan_exp s =
     (case s of
        [] \<Rightarrow> ([], [])
      | c # r \<Rightarrow>
          if c = CHR ''e'' \<or> c = CHR ''E'' then
            (let sgn = takeWhile (\<lambda>x. x = CHR ''-'' \<or> x = CHR ''+'') (take 1 r);
                 t = drop (length sgn) r
             in if takeWhile is_digit t \<noteq> []
                then (c # sgn @ takeWhile is_digit t, dropWhile is_digit t) else ([], s))
          else ([], s))"

definition scan_number :: "string \<Rightarrow> (json \<times> string) option" where
  "scan_number s =
     (let (sg, s0) = (case s of c # r \<Rightarrow> if c = CHR ''-'' then ([c], r) else ([], s) | [] \<Rightarrow> ([], []));
          (ip, s1) = scan_int s0;
          (fp, s2) = scan_frac s1;
          (ep, s3) = scan_exp s2
      in if ip = [] then None
         else if fp = [] \<and> ep = []
         then Some (JInt (if sg = [] then int (digits_val ip) else - int (digits_val ip)), s1)
         else Some (JFloat (sg @ ip @ fp @ ep), s3))"

definition scan_word :: "string \<Rightarrow> json \<Rightarrow> string \<Rightarrow> (json \<times> string) option" where
  "scan_word w v s = (if py_startswith s w then Some (v, drop (length w) s) else None)"

definition scan_scalar :: "string \<Rightarrow> (json \<times> string) option" where
  "scan_scalar s =
     (case s of
        [] \<Rightarrow> None
      | c # r \<Rightarrow>
          if c = CHR ''n'' then scan_word ''null'' JNull s
          else if c = CHR ''t'' then scan_word ''true'' (JBool True) s
          else if c = CHR ''f'' then scan_word ''false'' (JBool False) s
          else if c = CHR ''N'' then scan_word ''NaN'' (JFloat ''NaN'') s
          else if c = CHR ''I'' then scan_word ''Infinity'' (JFloat ''Infinity'') s
          else if py_startswith s ''-Infinity''
          then scan_word ''-Infinity'' (JFloat ''-Infinity'') s
          else scan_number s)"

text \<open>
  The decoder proper, on fuel.  A nested value starts after at least one more character and costs
  two calls, so twice the length of the text is enough; \<open>scan_more_fuel\<close> below proves it.
\<close>

fun scan_value :: "nat \<Rightarrow> string \<Rightarrow> (json \<times> string) option"
and scan_elems :: "nat \<Rightarrow> string \<Rightarrow> (json list \<times> string) option"
and scan_pairs :: "nat \<Rightarrow> string \<Rightarrow> ((string \<times> json) list \<times> string) option" where
  "scan_value 0 s = None"
| "scan_value (Suc n) s =
     (case s of
        [] \<Rightarrow> None
      | c # r \<Rightarrow>
          if c = dquote then map_option (\<lambda>(t, q). (JStr t, q)) (scan_str r)
          else if c = CHR ''{'' then
            (case skip_ws r of
               [] \<Rightarrow> None
             | d # q \<Rightarrow>
                 if d = CHR ''}'' then Some (JDict [], q)
                 else map_option (\<lambda>(kvs, p). (JDict (fold (\<lambda>(k, v). dict_set k v) kvs []), p))
                        (scan_pairs n (d # q)))
          else if c = CHR ''['' then
            (case skip_ws r of
               [] \<Rightarrow> None
             | d # q \<Rightarrow>
                 if d = CHR '']'' then Some (JList [], q)
                 else map_option (\<lambda>(vs, p). (JList vs, p)) (scan_elems n (d # q)))
          else scan_scalar s)"
| "scan_elems 0 s = None"
| "scan_elems (Suc n) s =
     Option.bind (scan_value n s) (\<lambda>(v, r).
       (case skip_ws r of
          [] \<Rightarrow> None
        | d # q \<Rightarrow>
            if d = CHR '','' then map_option (\<lambda>(vs, p). (v # vs, p)) (scan_elems n (skip_ws q))
            else if d = CHR '']'' then Some ([v], q)
            else None))"
| "scan_pairs 0 s = None"
| "scan_pairs (Suc n) s =
     (case s of
        [] \<Rightarrow> None
      | c # r0 \<Rightarrow>
          if c \<noteq> dquote then None
          else Option.bind (scan_str r0) (\<lambda>(k, r).
            (case skip_ws r of
               [] \<Rightarrow> None
             | e # q0 \<Rightarrow>
                 if e \<noteq> CHR '':'' then None
                 else Option.bind (scan_value n (skip_ws q0)) (\<lambda>(v, r1).
                   (case skip_ws r1 of
                      [] \<Rightarrow> None
                    | d # q \<Rightarrow>
                        if d = CHR '','' then
                          map_option (\<lambda>(kvs, p). ((k, v) # kvs, p)) (scan_pairs n (skip_ws q))
                        else if d = CHR ''}'' then Some ([(k, v)], q)
                        else None)))))"

definition json_decode_error :: exn where
  "json_decode_error = PyError JSONDecodeErrorC ''JSONDecodeError'' ''invalid JSON''"

definition json_loads :: "string \<Rightarrow> json res" where
  "json_loads s =
     (case scan_value (2 * length s + 1) (skip_ws s) of
        None \<Rightarrow> Inl json_decode_error
      | Some (v, r) \<Rightarrow> if skip_ws r = [] then Inr v else Inl json_decode_error)"

section \<open>Enough fuel\<close>

lemma length_skip_ws: "length (skip_ws s) \<le> length s"
  by (simp add: skip_ws_def length_dropWhile_le)

lemma skip_ws_Cons_len: "skip_ws s = c # r \<Longrightarrow> length r < length s"
  using length_skip_ws [of s] by simp

lemma scan_str_len: "scan_str s = Some (t, r) \<Longrightarrow> length r < length s"
proof (induction s arbitrary: t r rule: scan_str.induct)
  case (2 c s)
  then show ?case
    by (fastforce simp: prepend_def split: if_splits list.splits option.splits)
qed simp

lemma scan_int_len: "scan_int s = (i, r) \<Longrightarrow> length r \<le> length s \<and> (i \<noteq> [] \<longrightarrow> length r < length s)"
  unfolding scan_int_def
  by (auto split: list.splits if_splits simp: length_dropWhile_le le_imp_less_Suc le_SucI)

lemma scan_frac_len: "scan_frac s = (i, r) \<Longrightarrow> length r \<le> length s"
  unfolding scan_frac_def
  by (auto split: list.splits if_splits simp: length_dropWhile_le le_SucI)

lemma scan_exp_len: "scan_exp s = (i, r) \<Longrightarrow> length r \<le> length s"
proof (cases s)
  case (Cons c q)
  assume "scan_exp s = (i, r)"
  moreover have "length (dropWhile is_digit (drop n q)) \<le> Suc (length q)" for n
    by (rule order.trans [OF length_dropWhile_le]) simp
  ultimately show ?thesis
    using Cons unfolding scan_exp_def by (auto simp: Let_def split: if_splits)
qed (simp add: scan_exp_def)

lemma scan_number_len: "scan_number s = Some (v, r) \<Longrightarrow> length r < length s"
  unfolding scan_number_def
  by (auto simp: Let_def split: list.splits if_splits prod.splits
      dest!: scan_int_len scan_frac_len scan_exp_len)

lemma scan_word_len: "scan_word w v s = Some (u, r) \<Longrightarrow> w \<noteq> [] \<Longrightarrow> s \<noteq> [] \<Longrightarrow> length r < length s"
  by (auto simp: scan_word_def split: if_splits)

lemma scan_scalar_len: "scan_scalar s = Some (v, r) \<Longrightarrow> length r < length s"
  unfolding scan_scalar_def
  by (fastforce split: list.splits if_splits dest: scan_word_len scan_number_len)

lemma scan_consumes:
  "(\<forall>s v r. scan_value n s = Some (v, r) \<longrightarrow> length r < length s) \<and>
   (\<forall>s vs r. scan_elems n s = Some (vs, r) \<longrightarrow> length r < length s) \<and>
   (\<forall>s kvs r. scan_pairs n s = Some (kvs, r) \<longrightarrow> length r < length s)"
proof (induction n)
  case (Suc n)
  then have V: "\<And>s v r. scan_value n s = Some (v, r) \<Longrightarrow> length r < length s"
    and E: "\<And>s vs r. scan_elems n s = Some (vs, r) \<Longrightarrow> length r < length s"
    and P: "\<And>s kvs r. scan_pairs n s = Some (kvs, r) \<Longrightarrow> length r < length s"
    by blast+
  note [dest!] = V E P scan_str_len scan_scalar_len skip_ws_Cons_len
  have [dest!]: "k < length (skip_ws q) \<Longrightarrow> k < length q" for k q
    using length_skip_ws [of q] by simp
  have "length r < length s" if "scan_value (Suc n) s = Some (v, r)" for s v r
    using that by (cases s) (auto split: list.splits if_splits)
  moreover have "length r < length s" if "scan_elems (Suc n) s = Some (vs, r)" for s vs r
    using that by (auto split: list.splits if_splits bind_splits)
  moreover have "length r < length s" if "scan_pairs (Suc n) s = Some (kvs, r)" for s kvs r
    using that by (cases s) (auto split: list.splits if_splits bind_splits)
  ultimately show ?case by blast
qed simp

lemma scan_more_fuel:
  "(\<forall>s m. 2 * length s < n \<longrightarrow> n \<le> m \<longrightarrow> scan_value m s = scan_value n s) \<and>
   (\<forall>s m. 2 * length s + 1 < n \<longrightarrow> n \<le> m \<longrightarrow> scan_elems m s = scan_elems n s) \<and>
   (\<forall>s m. 2 * length s < n \<longrightarrow> n \<le> m \<longrightarrow> scan_pairs m s = scan_pairs n s)"
proof (induction n)
  case (Suc n)
  then have V: "2 * length s < n \<Longrightarrow> n \<le> m \<Longrightarrow> scan_value m s = scan_value n s"
    and E: "2 * length s + 1 < n \<Longrightarrow> n \<le> m \<Longrightarrow> scan_elems m s = scan_elems n s"
    and P: "2 * length s < n \<Longrightarrow> n \<le> m \<Longrightarrow> scan_pairs m s = scan_pairs n s" for s m
    by blast+
  have "scan_value (Suc m) s = scan_value (Suc n) s" 
    if len: "2 * length s < Suc n" and m: "n \<le> m" for s m
  proof (cases s)
    case (Cons c q)
    have "scan_elems m (d # p) = scan_elems n (d # p)" "scan_pairs m (d # p) = scan_pairs n (d # p)"
      if "skip_ws q = d # p" for d p
      using skip_ws_Cons_len [OF that] len m Cons by (auto intro!: E P)
    then show ?thesis
      using Cons by (auto split: list.split)
  qed simp
  moreover have "scan_elems (Suc m) s = scan_elems (Suc n) s" 
    if len: "2 * length s + 1 < Suc n" and m: "n \<le> m" for s m
  proof -
    have "scan_elems m (skip_ws q) = scan_elems n (skip_ws q)"
      if "scan_value n s = Some (v, r)" "skip_ws r = d # q" for v r d q
      using that len m scan_consumes [of n] length_skip_ws [of q] skip_ws_Cons_len [of r d q]
      by (intro E) fastforce+
    then show ?thesis
      using V [of s m] len m by (auto split: list.splits bind_split)
  qed
  moreover have "scan_pairs (Suc m) s = scan_pairs (Suc n) s" 
    if len: "2 * length s < Suc n" and m: "n \<le> m" for s m
  proof (cases s)
    case (Cons c r0)
    have V': "scan_value m (skip_ws q) = scan_value n (skip_ws q)"
      if "scan_str r0 = Some (k, r)" "skip_ws r = d # q" for k r d q
      using that len m Cons length_skip_ws [of q] skip_ws_Cons_len [of r d q] scan_str_len [of r0 k r]
      by (intro V) simp_all
    moreover have "scan_pairs m (skip_ws p) = scan_pairs n (skip_ws p)"
      if "scan_str r0 = Some (k, r)" "skip_ws r = d # q" "scan_value n (skip_ws q) = Some (v, r1)"
        "skip_ws r1 = e # p" for k r d q v r1 e p
    proof (intro P)
      have "length r1 < length (skip_ws q)" using scan_consumes [of n] that(3) by blast
      then show "2 * length (skip_ws p) < n"
        using that len Cons length_skip_ws [of p] length_skip_ws [of q] scan_str_len [of r0 k r]
          skip_ws_Cons_len [of r1 e p] skip_ws_Cons_len [of r d q] by simp
    qed (rule m)
    ultimately show ?thesis
      using Cons by (auto split: list.split bind_split)
  qed simp
  ultimately show ?case
    by (blast dest: Suc_le_D Suc_le_mono [THEN iffD1])
qed simp

section \<open>What \<open>json.dumps\<close> writes, \<open>json.loads\<close> reads back\<close>

lemma hex_val_hex_digit: "d < 16 \<Longrightarrow> hex_val (hex_digit d) = Some d"
  by (auto simp: hex_val_def hex_digit_def is_digit_def)

lemma hex4_hex4_str:
  assumes "n < 65536"
  shows "hex4 (hex4_str n @ t) = Some n"
proof -
  define x y z a b c
    where "x = n div 16" and "y = x div 16" and "z = y div 16"
      and "a = y mod 16" and "b = x mod 16" and "c = n mod 16"
  note defs = this
  have "x * 16 + c = n" "y * 16 + b = x" "z * 16 + a = y"
    unfolding defs by (rule div_mult_mod_eq)+
  then have "z * 4096 + a * 256 + b * 16 + c = n" by simp
  moreover from this have "z < 16" using assms by simp
  moreover have "hex4_str n = [hex_digit z, hex_digit a, hex_digit b, hex_digit c]"
    by (simp add: hex4_str_def defs flip: div_mult2_eq)
  moreover have "a < 16" "b < 16" "c < 16" by (simp_all add: defs)
  ultimately show ?thesis
    by (simp add: hex_val_hex_digit)
qed

lemma length_hex4_str [simp]: "length (hex4_str n) = 4"
  by (simp add: hex4_str_def)

lemma low_follows_not_high: "\<not> is_surrogate hi \<Longrightarrow> low_follows hi s = None"
  by (cases "(hi, s)" rule: low_follows.cases) (auto simp: is_surrogate_def)

lemma scan_str_u_escape:
  assumes "cp < 65536" "\<not> is_surrogate cp"
  shows "scan_str (u_escape cp @ t) = prepend (utf8_enc1 cp) (scan_str t)"
  using assms by (simp add: u_escape_def hex4_hex4_str low_follows_not_high)

lemma scan_str_u_pair:
  assumes "hi < 1024" "lo < 1024"
  shows "scan_str (u_escape (55296 + hi) @ u_escape (56320 + lo) @ t) =
    prepend (utf8_enc1 (65536 + hi * 1024 + lo)) (scan_str t)"
proof -
  have "drop 10 (hex4_str (55296 + hi) @ u_escape (56320 + lo) @ t) = t"
    by (simp add: u_escape_def hex4_str_def)
  then show ?thesis
    using assms by (simp add: u_escape_def hex4_hex4_str)
qed

lemma esc_cp_simple:
  "esc_cp 34 = [backslash, dquote]" "esc_cp 92 = [backslash, backslash]"
  "esc_cp 10 = [backslash, CHR ''n'']" "esc_cp 13 = [backslash, CHR ''r'']"
  "esc_cp 9 = [backslash, CHR ''t'']" "esc_cp 12 = [backslash, CHR ''f'']"
  "esc_cp 8 = [backslash, CHR ''b'']"
  by (simp_all add: esc_cp_def)

lemma utf8_enc1_simple:
  "utf8_enc1 34 = [dquote]" "utf8_enc1 92 = [backslash]" "utf8_enc1 10 = [CHR 0x0A]"
  "utf8_enc1 13 = [CHR 0x0D]" "utf8_enc1 9 = [CHR 0x09]" "utf8_enc1 12 = [CHR 0x0C]"
  "utf8_enc1 8 = [CHR 0x08]"
  by code_simp+

lemma scan_str_simple:
  "simple_escape e = Some x \<Longrightarrow> e \<noteq> CHR ''u'' \<Longrightarrow>
     scan_str (backslash # e # t) = prepend [x] (scan_str t)"
  by simp

lemma scan_str_simple_cps:
  assumes "cp \<in> {34, 92, 10, 13, 9, 12, 8}"
  shows "scan_str (esc_cp cp @ t) = prepend (utf8_enc1 cp) (scan_str t)"
  using assms unfolding insert_iff empty_iff
  by (elim disjE; simp only: esc_cp_simple utf8_enc1_simple append.simps)
    (rule scan_str_simple; simp add: simple_escape_def)+

lemma scan_str_esc_cp:
  assumes "cp_ok False cp"
  shows "scan_str (esc_cp cp @ t) = prepend (utf8_enc1 cp) (scan_str t)"
proof -
  have cp: "cp < 1114112" "\<not> is_surrogate cp" using assms by (auto simp: cp_ok_def)
  consider "cp \<in> {34, 92, 10, 13, 9, 12, 8}" | "cp \<notin> {34, 92}" "32 \<le> cp" "cp < 127"
    | "cp \<notin> {34, 92, 10, 13, 9, 12, 8}" "cp < 65536" "\<not> (32 \<le> cp \<and> cp < 127)" | "65536 \<le> cp" by fastforce
  then show ?thesis
  proof cases
    case 1
    then show ?thesis by (rule scan_str_simple_cps)
  next
    case 2
    then have "cp < 256" "cp \<noteq> of_char dquote" "cp \<noteq> of_char backslash" by simp_all
    then have "char_of cp \<noteq> dquote" "char_of cp \<noteq> backslash"
      by (simp_all only: char_of_lt_eq_iff not_False_eq_True)
    moreover have "\<not> (of_char (char_of cp :: char) :: nat) < 32" using 2 by simp
    moreover have "esc_cp cp = [char_of cp]" "utf8_enc1 cp = [char_of cp]"
      using 2 by (simp_all add: esc_cp_def utf8_enc1_def)
    ultimately show ?thesis by simp
  next
    case 3
    then show ?thesis using cp scan_str_u_escape [of cp t] by (auto simp: esc_cp_def)
  next
    case 4
    moreover have "(cp - 65536) div 1024 < 1024" using cp by simp
    moreover have "65536 + (cp - 65536) div 1024 * 1024 + (cp - 65536) mod 1024 = cp"
      using 4 div_mult_mod_eq [of "cp - 65536" 1024] by linarith
    ultimately show ?thesis
      using scan_str_u_pair [of "(cp - 65536) div 1024" "(cp - 65536) mod 1024" t]
      by (simp add: esc_cp_def)
  qed
qed

lemma scan_str_cps:
  "(\<forall>c \<in> set cps. cp_ok False c) \<Longrightarrow>
     scan_str (concat (List.map esc_cp cps) @ dquote # rest) = Some (utf8_enc cps, rest)"
proof (induction cps)
  case (Cons c cps)
  then show ?case
    by (simp add: scan_str_esc_cp prepend_def utf8_enc_def)
qed (simp add: utf8_enc_def)

lemma utf8_step_mono: "utf8_step False s = (Some c, k) \<Longrightarrow> utf8_step True s = (Some c, k)"
  by (cases "(True, s)" rule: utf8_step.cases)
    (auto simp: Let_def second_ok_def split: list.splits if_splits)

lemma utf8_decode_mono: "utf8_decode_cps False s = Some cps \<Longrightarrow> utf8_decode_cps True s = Some cps"
  using utf8_decode_sound [of False s cps] utf8_decode_enc [of cps True]
  by (auto simp: cp_ok_def)

lemma scan_dumps_str:
  "str_ok False s \<Longrightarrow>
     \<exists>q. dumps_str s @ rest = dquote # q \<and> scan_str q = Some (s, rest)"
proof -
  assume "str_ok False s"
  then obtain cps where cps: "utf8_decode_cps False s = Some cps"
    by (auto simp: str_ok_def)
  then have "cps_of s = cps" by (simp add: cps_of_def utf8_decode_mono)
  with utf8_decode_sound [OF cps] scan_str_cps [of cps rest] show ?thesis
    by (simp add: dumps_str_def)
qed

text \<open>A value that JSON text represents exactly: encodable strings, distinct keys, no float.\<close>

fun json_ok :: "json \<Rightarrow> bool" where
  "json_ok (JStr s) = str_ok False s"
| "json_ok (JList xs) = list_all json_ok xs"
| "json_ok (JDict d) =
     (distinct (List.map fst d) \<and> list_all (\<lambda>p. str_ok False (fst p) \<and> json_ok (snd p)) d)"
| "json_ok (JFloat _) = False"
| "json_ok _ = True"

text \<open>The text after a value must not continue a number.\<close>

definition num_end :: "string \<Rightarrow> bool" where
  "num_end s \<longleftrightarrow> (case s of [] \<Rightarrow> True | c # _ \<Rightarrow> \<not> is_digit c \<and> c \<notin> {CHR ''.'', CHR ''e'', CHR ''E''})"

lemma takeWhile_digits:
  assumes "num_end rest"
  shows "takeWhile is_digit (nat_str n @ rest) = nat_str n" "dropWhile is_digit (nat_str n @ rest) = rest"
proof -
  have "takeWhile is_digit rest = []" "dropWhile is_digit rest = rest"
    using assms by (auto simp: num_end_def split: list.splits)
  then show "takeWhile is_digit (nat_str n @ rest) = nat_str n"
    "dropWhile is_digit (nat_str n @ rest) = rest"
    using nat_str_digits [of _ n] by simp_all
qed

lemma scan_int_nat_str:
  assumes "num_end rest"
  shows "scan_int (nat_str n @ rest) = (nat_str n, rest)"
proof (cases "n = 0")
  case True
  moreover have "nat_str 0 = ''0''" by code_simp
  ultimately show ?thesis by (simp add: scan_int_def)
next
  case False
  then have "hd (nat_str n) \<noteq> CHR ''0''" by (simp add: nat_str_hd)
  moreover obtain c r where "nat_str n = c # r" by (cases "nat_str n") auto
  ultimately show ?thesis
    using takeWhile_digits [OF assms, of n] by (simp add: scan_int_def)
qed

lemma nat_str_Cons:
  obtains c r where "nat_str n = c # r" "is_digit c"
  using nat_str_digits [of _ n] by (cases "nat_str n") auto

lemma scan_number_int_str:
  assumes "num_end rest"
  shows "scan_number (int_str i @ rest) = Some (JInt i, rest)"
proof -
  have r: "scan_frac rest = ([], rest)" "scan_exp rest = ([], rest)"
    using assms by (auto simp: num_end_def scan_frac_def scan_exp_def split: list.splits)
  show ?thesis
  proof (cases "i < 0")
    case True
    then show ?thesis
      using r scan_int_nat_str [OF assms, of "nat (- i)"]
      by (simp add: scan_number_def int_str_def)
  next
    case False
    obtain c q where c: "nat_str (nat i) = c # q" "is_digit c" by (rule nat_str_Cons)
    then have "c \<noteq> CHR ''-''" by (auto simp: is_digit_def)
    with False c r scan_int_nat_str [OF assms, of "nat i"] show ?thesis
      by (simp add: scan_number_def int_str_def) (metis digits_val_nat_str int_nat_eq not_less)
  qed
qed

lemma scan_value_int_str:
  assumes "num_end rest"
  shows "scan_value (Suc n) (int_str i @ rest) = Some (JInt i, rest)"
proof -
  obtain c q where c: "int_str i @ rest = c # q" "is_digit c \<or> c = CHR ''-''"
    and I: "c = CHR ''-'' \<Longrightarrow> \<exists>d p. q = d # p \<and> is_digit d"
  proof (cases "i < 0")
    case True
    obtain d p where "nat_str (nat (- i)) = d # p" "is_digit d" by (rule nat_str_Cons)
    with True show ?thesis by (auto simp: int_str_def intro: that)
  next
    case False
    obtain d p where "nat_str (nat i) = d # p" "is_digit d" by (rule nat_str_Cons)
    with False show ?thesis by (auto simp: int_str_def is_digit_def intro: that)
  qed
  have "\<not> py_startswith (c # q) ''-Infinity''"
    using I by (auto simp: py_startswith_def is_digit_def)
  moreover have "c \<notin> {dquote, CHR ''{'', CHR ''['', CHR ''n'', CHR ''t'', CHR ''f'', CHR ''N'', CHR ''I''}"
    using c(2) by (auto simp: is_digit_def)
  ultimately have "scan_value (Suc n) (c # q) = scan_number (c # q)"
    by (simp add: scan_scalar_def)
  then show ?thesis
    using scan_number_int_str [OF assms, of i] c(1) by simp
qed

text \<open>Separators as \<open>json.dumps\<close> takes them: a comma or a colon, then white space.\<close>

definition sep_of :: "char \<Rightarrow> string \<Rightarrow> bool" where
  "sep_of c s \<longleftrightarrow> (\<exists>w. s = c # w \<and> list_all is_json_ws w)"

lemma skip_ws_append: "list_all is_json_ws w \<Longrightarrow> skip_ws (w @ s) = skip_ws s"
  unfolding skip_ws_def by (induction w) auto

lemma skip_ws_id: "\<not> is_json_ws c \<Longrightarrow> skip_ws (c # s) = c # s"
  by (simp add: skip_ws_def)

lemma json_dumps_hd:
  "json_ok v \<Longrightarrow> \<exists>c s. json_dumps_with isep ksep v = c # s \<and> \<not> is_json_ws c \<and> c \<notin> {CHR '']'', CHR ''}''}"
proof (cases v)
  case (JInt i)
  obtain c q where "nat_str (nat (if i < 0 then - i else i)) = c # q" "is_digit c" by (rule nat_str_Cons)
  then show ?thesis
    using JInt by (auto simp: int_str_def is_digit_def is_json_ws_def split: if_splits)
qed (auto simp: dumps_str_def is_json_ws_def)

definition reads_back :: "(nat \<Rightarrow> string \<Rightarrow> ('v \<times> string) option) \<Rightarrow> string \<Rightarrow> 'v \<Rightarrow> string \<Rightarrow> bool" where
  "reads_back scan s v rest \<longleftrightarrow> (\<exists>N. \<forall>n \<ge> N. scan n s = Some (v, rest))"

lemma reads_backI: "(\<And>n. N \<le> n \<Longrightarrow> scan (Suc n) s = Some (v, rest)) \<Longrightarrow> reads_back scan s v rest"
  unfolding reads_back_def by (metis Suc_le_D Suc_le_mono)

lemma reads_backE:
  assumes "reads_back scan s v rest"
  obtains N where "\<And>n. N \<le> n \<Longrightarrow> scan n s = Some (v, rest)"
  using assms unfolding reads_back_def by blast

lemma num_end_simps [simp]:
  "num_end (CHR '','' # s)" "num_end (CHR '']'' # s)" "num_end (CHR ''}'' # s)"
  by (simp_all add: num_end_def is_digit_def)

lemma skip_ws_dumps:
  "json_ok v \<Longrightarrow> skip_ws (json_dumps_with isep ksep v @ s) = json_dumps_with isep ksep v @ s"
  using json_dumps_hd [of v isep ksep] by (auto simp: skip_ws_id)

lemma reads_elems:
  assumes "sep_of CHR '','' isep" "xs \<noteq> []" "list_all json_ok xs"
    and "\<And>x rest. x \<in> set xs \<Longrightarrow> num_end rest \<Longrightarrow>
      reads_back scan_value (json_dumps_with isep ksep x @ rest) x rest"
  shows "reads_back scan_elems (py_join isep (List.map (json_dumps_with isep ksep) xs) @ CHR '']'' # rest)
    xs rest"
  using assms(2-)
proof (induction xs rule: list_nonempty_induct)
  case (single x)
  then obtain N where N: "N \<le> n \<Longrightarrow>
      scan_value n (json_dumps_with isep ksep x @ CHR '']'' # rest) = Some (x, CHR '']'' # rest)" for n
    by (metis reads_backE list.set_intros(1) num_end_simps(2))
  show ?case
    by (rule reads_backI [of N]) (simp add: N skip_ws_def is_json_ws_def)
next
  case (cons x xs)
  obtain w where w: "isep = CHR '','' # w" "list_all is_json_ws w"
    using assms(1) by (auto simp: sep_of_def)
  define t where "t = py_join isep (List.map (json_dumps_with isep ksep) xs) @ CHR '']'' # rest"
  have "reads_back scan_value (json_dumps_with isep ksep x @ isep @ t) x (isep @ t)"
    using cons.prems(2) w by simp
  then obtain N where N: "N \<le> n \<Longrightarrow>
      scan_value n (json_dumps_with isep ksep x @ isep @ t) = Some (x, isep @ t)" for n
    by (rule reads_backE) blast
  have "reads_back scan_elems t xs rest"
    unfolding t_def using cons by simp
  then obtain M where M: "M \<le> n \<Longrightarrow> scan_elems n t = Some (xs, rest)" for n
    by (rule reads_backE) blast
  obtain y ys where ys: "xs = y # ys" using cons by (cases xs) auto
  have "skip_ws t = t"
    unfolding t_def ys using cons.prems(1) ys skip_ws_dumps [of y isep ksep]
    by (cases ys) simp_all
  then have "skip_ws (w @ t) = t" by (simp add: skip_ws_append w)
  then have "scan_elems (Suc n) (json_dumps_with isep ksep x @ isep @ t) = Some (x # xs, rest)"
    if "max N M \<le> n" for n
    using that N [of n] M [of n] w by (simp add: skip_ws_id is_json_ws_def)
  moreover have "py_join isep (List.map (json_dumps_with isep ksep) (x # xs)) @ CHR '']'' # rest
      = json_dumps_with isep ksep x @ isep @ t"
    using cons by (simp add: py_join_cons t_def)
  ultimately show ?case
    by (metis reads_backI)
qed
text \<open>The pairs of an object, by the same argument with a key and a colon in front.\<close>

definition dumps_pair :: "string \<Rightarrow> string \<Rightarrow> string \<times> json \<Rightarrow> string" where
  "dumps_pair isep ksep p = dumps_str (fst p) @ ksep @ json_dumps_with isep ksep (snd p)"

lemma scan_pairs_step:
  assumes "sep_of CHR '':'' ksep" "str_ok False k" "json_ok v"
    and "scan_value n (json_dumps_with isep ksep v @ c # r) = Some (v, c # r)"
    and "\<not> is_json_ws c"
  shows "scan_pairs (Suc n) (dumps_pair isep ksep (k, v) @ c # r) =
    (if c = CHR '','' then map_option (\<lambda>(kvs, p). ((k, v) # kvs, p)) (scan_pairs n (skip_ws r))
     else if c = CHR ''}'' then Some ([(k, v)], r) else None)"
proof -
  obtain w where w: "ksep = CHR '':'' # w" "list_all is_json_ws w"
    using assms(1) by (auto simp: sep_of_def)
  obtain q where q: "dumps_str k @ ksep @ json_dumps_with isep ksep v @ c # r = dquote # q"
    and sq: "scan_str q = Some (k, ksep @ json_dumps_with isep ksep v @ c # r)"
    using scan_dumps_str [OF assms(2)] by blast
  have "skip_ws (w @ json_dumps_with isep ksep v @ c # r) = json_dumps_with isep ksep v @ c # r"
    using w assms(3) by (simp add: skip_ws_append skip_ws_dumps)
  then have "scan_pairs (Suc n) (dquote # q) =
    (if c = CHR '','' then map_option (\<lambda>(kvs, p). ((k, v) # kvs, p)) (scan_pairs n (skip_ws r))
     else if c = CHR ''}'' then Some ([(k, v)], r) else None)"
    using assms(4,5) sq w(1) by (simp add: skip_ws_id is_json_ws_def)
  then show ?thesis
    unfolding dumps_pair_def using q by simp
qed

lemma reads_pairs:
  assumes "sep_of CHR '','' isep" "sep_of CHR '':'' ksep" "d \<noteq> []"
    and "list_all (\<lambda>p. str_ok False (fst p) \<and> json_ok (snd p)) d"
    and "\<And>p rest. p \<in> set d \<Longrightarrow> num_end rest \<Longrightarrow>
      reads_back scan_value (json_dumps_with isep ksep (snd p) @ rest) (snd p) rest"
  shows "reads_back scan_pairs (py_join isep (List.map (dumps_pair isep ksep) d) @ CHR ''}'' # rest) d rest"
  using assms(3-)
proof (induction d rule: list_nonempty_induct)
  case (single p)
  then have "reads_back scan_value (json_dumps_with isep ksep (snd p) @ CHR ''}'' # rest) (snd p)
      (CHR ''}'' # rest)"
    by simp
  then obtain N where N: "N \<le> n \<Longrightarrow> scan_value n (json_dumps_with isep ksep (snd p) @ CHR ''}'' # rest)
      = Some (snd p, CHR ''}'' # rest)" for n
    by (rule reads_backE) blast
  show ?case
    using single scan_pairs_step [OF assms(2), of "fst p" "snd p" _ isep] N
    by (intro reads_backI [of N]) (simp add: is_json_ws_def)
next
  case (cons p d)
  obtain w where w: "isep = CHR '','' # w" "list_all is_json_ws w"
    using assms(1) by (auto simp: sep_of_def)
  define t where "t = py_join isep (List.map (dumps_pair isep ksep) d) @ CHR ''}'' # rest"
  have "reads_back scan_value (json_dumps_with isep ksep (snd p) @ isep @ t) (snd p) (isep @ t)"
    using cons.prems(2) w by simp
  then obtain N where N: "N \<le> n \<Longrightarrow>
      scan_value n (json_dumps_with isep ksep (snd p) @ isep @ t) = Some (snd p, isep @ t)" for n
    by (rule reads_backE) blast
  have "reads_back scan_pairs t d rest"
    unfolding t_def using cons by simp
  then obtain M where M: "M \<le> n \<Longrightarrow> scan_pairs n t = Some (d, rest)" for n
    by (rule reads_backE) blast
  obtain k v d' where d: "d = (k, v) # d'" using cons by (cases d) auto
  have "skip_ws t = t"
    unfolding t_def d by (cases d') (simp_all add: dumps_pair_def dumps_str_def skip_ws_def is_json_ws_def)
  then have "skip_ws (w @ t) = t" by (simp add: skip_ws_append w)
  then have "scan_pairs (Suc n) (dumps_pair isep ksep p @ isep @ t) = Some (p # d, rest)"
    if "max N M \<le> n" for n
    using that cons.prems N [of n] M [of n] w
      scan_pairs_step [OF assms(2), of "fst p" "snd p" n isep "CHR '',''" "w @ t"]
    by (simp add: is_json_ws_def)
  moreover have "py_join isep (List.map (dumps_pair isep ksep) (p # d)) @ CHR ''}'' # rest
      = dumps_pair isep ksep p @ isep @ t"
    using cons by (simp add: py_join_cons t_def)
  ultimately show ?case
    by (metis reads_backI)
qed

lemma fold_dict_set:
  "distinct (List.map fst (e @ d)) \<Longrightarrow> fold (\<lambda>(k, v). dict_set k v) d e = e @ d"
proof (induction d arbitrary: e)
  case (Cons p d)
  obtain k v where p: "p = (k, v)" by (cases p)
  then have "k \<notin> set (List.map fst e)" using Cons.prems by auto
  then show ?case using Cons.IH [of "e @ [(k, v)]"] Cons.prems p by (simp add: dict_set_fresh)
qed simp

lemma reads_dumps:
  assumes "sep_of CHR '','' isep" "sep_of CHR '':'' ksep" "json_ok v" "num_end rest"
  shows "reads_back scan_value (json_dumps_with isep ksep v @ rest) v rest"
  using assms(3-)
proof (induction v arbitrary: rest)
  case (JInt i)
  then show ?case
    by (intro reads_backI [of 0]) (simp add: scan_value_int_str del: scan_value.simps)
next
  case (JStr s)
  then obtain q where "dumps_str s @ rest = dquote # q" "scan_str q = Some (s, rest)"
    using scan_dumps_str by fastforce
  then show ?case by (intro reads_backI [of 0]) simp
next
  case (JList xs)
  show ?case
  proof (cases "xs = []")
    case True
    then show ?thesis by (intro reads_backI [of 0]) (simp add: skip_ws_def is_json_ws_def)
  next
    case False
    define t where "t = py_join isep (List.map (json_dumps_with isep ksep) xs) @ CHR '']'' # rest"
    have "reads_back scan_elems t xs rest"
      unfolding t_def using JList False by (intro reads_elems assms) (auto simp: list_all_iff)
    then obtain N where N: "N \<le> n \<Longrightarrow> scan_elems n t = Some (xs, rest)" for n
      by (rule reads_backE) blast
    obtain x ys where "xs = x # ys" using False by (cases xs) auto
    then obtain c s where "t = c # s" "\<not> is_json_ws c" "c \<noteq> CHR '']''"
      unfolding t_def using JList.prems json_dumps_hd [of x isep ksep] by (cases ys) auto
    with N have "scan_value (Suc n) (CHR ''['' # t) = Some (JList xs, rest)" if "N \<le> n" for n
      using that by (simp add: skip_ws_id)
    then show ?thesis
      unfolding t_def by (intro reads_backI [of N]) simp
  qed
next
  case (JDict d)
  show ?case
  proof (cases "d = []")
    case True
    then show ?thesis by (intro reads_backI [of 0]) (simp add: skip_ws_def is_json_ws_def)
  next
    case False
    define t where "t = py_join isep (List.map (dumps_pair isep ksep) d) @ CHR ''}'' # rest"
    have "reads_back scan_pairs t d rest"
      unfolding t_def using JDict False
      by (intro reads_pairs assms) (auto simp: list_all_iff intro!: JDict.IH [unfolded snds.simps])
    then obtain N where N: "N \<le> n \<Longrightarrow> scan_pairs n t = Some (d, rest)" for n
      by (rule reads_backE) blast
    obtain p d' where "d = p # d'" using False by (cases d) auto
    then obtain s where "t = dquote # s"
      unfolding t_def by (cases d') (auto simp: dumps_pair_def dumps_str_def)
    with N have "scan_value (Suc n) (CHR ''{'' # t) = Some (JDict d, rest)" if "N \<le> n" for n
      using that JDict.prems fold_dict_set [of "[]" d] by (simp add: skip_ws_id is_json_ws_def)
    then show ?thesis
      unfolding t_def by (intro reads_backI [of N]) (simp add: dumps_pair_def [abs_def])
  qed
qed (auto intro!: reads_backI [of 0] simp: scan_scalar_def scan_word_def py_startswith_def)

text \<open>The fuel of \<open>json_loads\<close> is enough, so its result is the one all larger fuels give.\<close>

lemma json_loads_dumps:
  assumes "json_ok v"
  shows "json_loads (json_dumps v) = Inr v"
proof -
  define s where "s = json_dumps v"
  have s: "skip_ws s = s"
    using skip_ws_dumps [OF assms, of _ _ "[]"] by (simp add: s_def json_dumps_def)
  have "reads_back scan_value (json_dumps_with '', '' '': '' v @ []) v []"
    using assms by (intro reads_dumps) (auto simp: sep_of_def is_json_ws_def num_end_def)
  then obtain N where "N \<le> n \<Longrightarrow> scan_value n s = Some (v, [])" for n
    by (auto simp: s_def json_dumps_def reads_back_def)
  then have "scan_value (max N (2 * length s + 1)) s = Some (v, [])" by simp
  then have "scan_value (2 * length s + 1) s = Some (v, [])"
    using scan_more_fuel [of "2 * length s + 1"] by (metis lessI max.cobounded2 Suc_eq_plus1)
  then show ?thesis
    using s by (simp add: json_loads_def s_def skip_ws_def)
qed

interpretation jsn: codec json_dumps json_loads json_ok
  by unfold_locales (rule json_loads_dumps)

text \<open>\<open>ensure_ascii\<close>: the text of a value is ASCII.\<close>

lemma is_ascii_u_escape: "n < 65536 \<Longrightarrow> is_ascii (u_escape n)"
proof -
  have "is_ascii [hex_digit d]" if "d < 16" for d
    using that by (simp add: hex_digit_def)
  moreover assume "n < 65536"
  then have "n div 4096 < 16" by simp
  ultimately show ?thesis by (simp add: u_escape_def hex4_str_def)
qed

lemma is_ascii_esc_cp: "cp_ok sp cp \<Longrightarrow> is_ascii (esc_cp cp)"
proof -
  assume "cp_ok sp cp"
  then have "(cp - 65536) div 1024 < 1024" by (auto simp: cp_ok_def)
  then show ?thesis by (simp add: esc_cp_def is_ascii_u_escape)
qed

lemma cps_of_ok: "c \<in> set (cps_of s) \<Longrightarrow> cp_ok True c"
  by (cases "utf8_decode_cps True s") (auto simp: cps_of_def dest!: utf8_decode_sound)

lemma is_ascii_dumps_str: "is_ascii (dumps_str s)"
  by (auto simp: dumps_str_def is_ascii_concat intro: is_ascii_esc_cp cps_of_ok)

lemma is_ascii_nat_str: "is_ascii (nat_str n)"
  using nat_str_digits [of _ n] by (force simp: is_ascii_def is_digit_def)

lemma is_ascii_dumps_with:
  "json_ok v \<Longrightarrow> is_ascii isep \<Longrightarrow> is_ascii ksep \<Longrightarrow> is_ascii (json_dumps_with isep ksep v)"
proof (induction isep ksep v rule: json_dumps_with.induct)
  case (7 isep ksep d)
  have "\<forall>x \<in> set (List.map (\<lambda>p. dumps_str (fst p) @ ksep @ json_dumps_with isep ksep (snd p)) d). is_ascii x"
    using 7 by (auto simp: list_all_iff is_ascii_dumps_str)
  then show ?case using 7 by (simp add: is_ascii_join)
qed (auto simp: is_ascii_dumps_str is_ascii_nat_str int_str_def is_ascii_join list_all_iff)

lemma is_ascii_json_dumps: "json_ok v \<Longrightarrow> is_ascii (json_dumps v)"
  by (simp add: json_dumps_def is_ascii_dumps_with)

lemma only_Exceptions_json_loads [exn_rules]: "only_Exceptions (json_loads s)"
  by (auto simp: json_loads_def json_decode_error_def is_Exception_iff intro!: exn_rules split: option.split)

lemma only_Exceptions_py_get [exn_rules]: "only_Exceptions (py_get v k d)"
  by (cases v) (auto simp: attribute_error_def is_Exception_iff intro: exn_rules)

lemma only_Exceptions_dict_item [exn_rules]: "only_Exceptions (dict_item d k)"
  by (simp add: dict_item_def key_error_def is_Exception_iff exn_rules)

end
