(* ===== verification/Arn.thy ===== *)
theory Arn
  imports Json
begin

text \<open>
  \<open>services/arn_service.py\<close> and the \<open>PrincipalInfo\<close> of \<open>models.py\<close> it builds.  The fields of
  a \<open>PrincipalInfo\<close> are decoded JSON values: \<open>from_dict\<close> copies whatever the dictionary holds.
\<close>

section \<open>PrincipalInfo\<close>

record principal_info =
  pi_arn :: json
  pi_account_id :: json
  pi_principal :: json
  pi_session_name :: json
  pi_project :: json

definition PrincipalInfo_empty :: principal_info where
  "PrincipalInfo_empty =
     \<lparr>pi_arn = JStr ''unknown'', pi_account_id = JStr ''unknown'', pi_principal = JNull,
      pi_session_name = JNull, pi_project = JNull\<rparr>"

text \<open>\<open>data[key]\<close> on an arbitrary decoded value: a list or a string is not indexed by a key.\<close>

definition type_error :: exn where
  "type_error = PyError TypeErrorC ''TypeError'' ''indices must be integers''"

definition json_item :: "json \<Rightarrow> string \<Rightarrow> json res" where
  "json_item v k = (case v of JDict d \<Rightarrow> dict_item d k | _ \<Rightarrow> Inl type_error)"

definition PrincipalInfo_from_dict :: "json \<Rightarrow> principal_info res" where
  "PrincipalInfo_from_dict data =
     bind_r (json_item data ''arn'') (\<lambda>a.
     bind_r (json_item data ''account_id'') (\<lambda>i.
     bind_r (json_item data ''principal'') (\<lambda>p.
     bind_r (json_item data ''session_name'') (\<lambda>s.
     bind_r (json_item data ''project'') (\<lambda>j.
       Inr \<lparr>pi_arn = a, pi_account_id = i, pi_principal = p, pi_session_name = s,
            pi_project = j\<rparr>)))))"

definition PrincipalInfo_to_dict :: "principal_info \<Rightarrow> json" where
  "PrincipalInfo_to_dict i =
     JDict [(''arn'', pi_arn i), (''account_id'', pi_account_id i),
            (''principal'', pi_principal i), (''session_name'', pi_session_name i),
            (''project'', pi_project i)]"

lemma PrincipalInfo_from_to_dict [simp]: "PrincipalInfo_from_dict (PrincipalInfo_to_dict i) = Inr i"
  by (simp add: PrincipalInfo_from_dict_def PrincipalInfo_to_dict_def json_item_def dict_item_def)

interpretation principal: codec PrincipalInfo_to_dict PrincipalInfo_from_dict "\<lambda>_. True"
  by unfold_locales simp

section \<open>Parsing an ARN\<close>

definition extract_arn_parts :: "string \<Rightarrow> string \<times> string list option" where
  "extract_arn_parts arn =
     (if arn \<noteq> [] \<and> CHR '':'' \<in> set arn then
        (let parts = py_split CHR '':'' arn;
             account_id = (if 5 \<le> length parts then parts ! 4 else ''unknown'');
             path_parts =
               (if 6 \<le> length parts \<and> CHR ''/'' \<in> set (parts ! 5) then
                  (let resource_parts = py_split1 CHR ''/'' (parts ! 5)
                   in if 1 < length resource_parts
                      then Some (py_split CHR ''/'' (resource_parts ! 1)) else None)
                else None)
         in (account_id, path_parts))
      else (''unknown'', None))"

text \<open>\<open>xs[i]\<close> for a constant index.\<close>

definition py_index :: "'a list \<Rightarrow> nat \<Rightarrow> 'a res" where
  "py_index xs i =
     (if i < length xs then Inr (xs ! i)
      else Inl (PyError IndexErrorC ''IndexError'' ''list index out of range''))"

definition role_arn_of :: "string \<Rightarrow> string \<Rightarrow> string" where
  "role_arn_of account_id role_name = ''arn:aws:iam::'' @ account_id @ '':role/'' @ role_name"

definition get_role_arn :: "string \<Rightarrow> string res" where
  "get_role_arn session_arn =
     (case extract_arn_parts session_arn of
        (account_id, Some (role_name # _)) \<Rightarrow> Inr (role_arn_of account_id role_name)
      | _ \<Rightarrow>
          bind_r (py_index (py_split CHR ''/'' session_arn) 1) (\<lambda>role_name.
          bind_r (py_index (py_split CHR '':'' session_arn) 4) (\<lambda>account_id.
            Inr (role_arn_of account_id role_name))))"

definition project_of_role :: "string \<Rightarrow> string option" where
  "project_of_role role_name =
     (if py_startswith role_name ''UserProfile_'' then
        (let role_parts = py_split CHR ''_'' role_name
         in if 3 \<le> length role_parts then Some (py_join ''_'' (drop 2 role_parts)) else None)
      else None)"

definition or_unknown :: "string option \<Rightarrow> string" where
  "or_unknown p = (case p of None \<Rightarrow> ''unknown'' | Some [] \<Rightarrow> ''unknown'' | Some s \<Rightarrow> s)"

definition parse_identity_from_arn :: "string \<Rightarrow> principal_info" where
  "parse_identity_from_arn arn =
     (case extract_arn_parts arn of
        (account_id, path_parts) \<Rightarrow>
          (case path_parts of
             Some (role_name # session_name # _) \<Rightarrow>
               if py_contains ''assumed-role'' arn then
                 \<lparr>pi_arn = JStr arn, pi_account_id = JStr account_id,
                  pi_principal = JStr (''assumed-role/'' @ role_name),
                  pi_session_name = JStr session_name,
                  pi_project = JStr (or_unknown (project_of_role role_name))\<rparr>
               else
                 \<lparr>pi_arn = JStr arn, pi_account_id = JStr account_id, pi_principal = JNull,
                  pi_session_name = JNull, pi_project = JStr ''unknown''\<rparr>
           | _ \<Rightarrow>
               \<lparr>pi_arn = JStr arn, pi_account_id = JStr account_id, pi_principal = JNull,
                pi_session_name = JNull, pi_project = JStr ''unknown''\<rparr>))"

section \<open>The ARN of an assumed-role session\<close>

definition assumed_role_arn :: "string \<Rightarrow> string \<Rightarrow> string \<Rightarrow> string" where
  "assumed_role_arn account role session =
     ''arn:aws:sts::'' @ account @ '':assumed-role/'' @ role @ ''/'' @ session"

definition arn_free :: "string \<Rightarrow> bool" where
  "arn_free s \<longleftrightarrow> CHR '':'' \<notin> set s \<and> CHR ''/'' \<notin> set s"

lemma extract_assumed_role:
  assumes "arn_free account" "arn_free role" "arn_free session"
  shows "extract_arn_parts (assumed_role_arn account role session) = (account, Some [role, session])"
proof -
  have split: "py_split CHR '':'' (assumed_role_arn account role session) =
      [''arn'', ''aws'', ''sts'', '''', account, ''assumed-role/'' @ role @ ''/'' @ session]"
    using assms by (simp add: assumed_role_arn_def arn_free_def py_split_rules)
  have "py_split1 CHR ''/'' (''assumed-role/'' @ role @ ''/'' @ session) =
      [''assumed-role'', role @ ''/'' @ session]"
    by simp
  moreover have "py_split CHR ''/'' (role @ CHR ''/'' # session) = [role, session]"
    using assms by (simp add: arn_free_def py_split_rules)
  ultimately show ?thesis
    by (simp add: extract_arn_parts_def Let_def split) (simp add: assumed_role_arn_def)
qed

lemma contains_assumed_role: "py_contains ''assumed-role'' (assumed_role_arn a r s)"
  unfolding py_contains_iff assumed_role_arn_def
  by (rule exI [of _ "''arn:aws:sts::'' @ a @ '':''"], rule exI [of _ "''/'' @ r @ ''/'' @ s"]) simp

lemma project_of_user_profile:
  assumes "CHR ''_'' \<notin> set name"
  shows "project_of_role (''UserProfile_'' @ name @ ''_'' @ project) = Some project"
proof -
  have "py_split CHR ''_'' (''UserProfile_'' @ name @ ''_'' @ project) =
      ''UserProfile'' # name # py_split CHR ''_'' project"
    using assms py_split_append_sep [of "CHR ''_''" "''UserProfile''"]
    by (simp add: py_split_rules)
  moreover have "2 \<le> length (''UserProfile'' # name # ps)" for ps by simp
  ultimately show ?thesis
    by (simp add: project_of_role_def Let_def py_join_split Suc_le_eq py_startswith_def)
qed

lemma extract_arn_parts_unparseable:
  "CHR '':'' \<notin> set arn \<Longrightarrow> extract_arn_parts arn = (''unknown'', None)"
  by (simp add: extract_arn_parts_def)

text \<open>
  C31: for the ARN of an assumed-role session whose account, role and session names hold no colon
  and no slash, the role ARN is that of the role in the same account, and the identity is the
  account, the principal \<open>assumed-role/<role>\<close>, the session name and the role's project.
\<close>

theorem assumed_role_identity:
  assumes "arn_free account" "arn_free role" "arn_free session"
  shows "get_role_arn (assumed_role_arn account role session) = Inr (role_arn_of account role)
    \<and> parse_identity_from_arn (assumed_role_arn account role session) =
        \<lparr>pi_arn = JStr (assumed_role_arn account role session), pi_account_id = JStr account,
         pi_principal = JStr (''assumed-role/'' @ role), pi_session_name = JStr session,
         pi_project = JStr (or_unknown (project_of_role role))\<rparr>"
  using assms
  by (simp add: get_role_arn_def parse_identity_from_arn_def extract_assumed_role contains_assumed_role)

theorem assumed_role_identity_witness:
  "get_role_arn (assumed_role_arn ''123456789012'' ''UserProfile_Ann_evals'' ''i-0ab'')
     = Inr (role_arn_of ''123456789012'' ''UserProfile_Ann_evals'')"
  using assumed_role_identity [of "''123456789012''" "''UserProfile_Ann_evals''" "''i-0ab''"]
  by (simp add: arn_free_def)

text \<open>
  The project of a \<open>UserProfile_<name>_<project>\<close> role is everything after the second
  underscore, further underscores included.
\<close>

theorem user_profile_project:
  assumes "arn_free account" "arn_free (''UserProfile_'' @ name @ ''_'' @ project)" "arn_free session"
    and "CHR ''_'' \<notin> set name" "project \<noteq> []"
  shows "pi_project (parse_identity_from_arn
      (assumed_role_arn account (''UserProfile_'' @ name @ ''_'' @ project) session)) = JStr project"
proof -
  obtain c p where "project = c # p" using assms(5) by (cases project) auto
  then show ?thesis
    using assms project_of_user_profile [of name project]
    by (simp add: parse_identity_from_arn_def extract_assumed_role contains_assumed_role or_unknown_def)
qed

theorem user_profile_project_witness:
  "pi_project (parse_identity_from_arn
      (assumed_role_arn ''1234'' ''UserProfile_Ann_red_team'' ''i-0ab'')) = JStr ''red_team''"
  using user_profile_project [of "''1234''" "''Ann''" "''red_team''" "''i-0ab''"]
  by (simp add: arn_free_def)

end
