(* ===== verification/Base64.thy ===== *)
theory Base64
  imports Codec
begin

text \<open>
  The standard library's base64: \<open>b64encode\<close>, \<open>b64decode\<close> without validation (characters outside
  the alphabet are skipped, decoding stops at a complete pad), and \<open>urlsafe_b64decode\<close>.
\<close>

definition b64_alphabet :: string where
  "b64_alphabet =
     ''ABCDEFGHIJKLMNOPQRSTUVWXYZabcdefghijklmnopqrstuvwxyz0123456789+/''"

definition b64_char :: "nat \<Rightarrow> char" where
  "b64_char n = b64_alphabet ! n"

text \<open>The decoding table; \<open>None\<close> is a character outside the alphabet.\<close>

definition b64_val :: "char \<Rightarrow> nat option" where
  "b64_val c =
     (if is_upper c then Some (of_char c - 65)
      else if is_lower c then Some (of_char c - 71)
      else if is_digit c then Some (of_char c + 4)
      else if c = CHR ''+'' then Some 62
      else if c = CHR ''/'' then Some 63
      else None)"

fun b64encode :: "bytes \<Rightarrow> string" where
  "b64encode [] = []"
| "b64encode [a] =
     (let x = (of_char a :: nat) in
      [b64_char (x div 4), b64_char (x mod 4 * 16), CHR ''='', CHR ''=''])"
| "b64encode [a, b] =
     (let x = (of_char a :: nat); y = (of_char b :: nat) in
      [b64_char (x div 4), b64_char (x mod 4 * 16 + y div 16), b64_char (y mod 16 * 4), CHR ''=''])"
| "b64encode (a # b # c # s) =
     (let x = (of_char a :: nat); y = (of_char b :: nat); z = (of_char c :: nat) in
      b64_char (x div 4) # b64_char (x mod 4 * 16 + y div 16)
      # b64_char (y mod 16 * 4 + z div 64) # b64_char (z mod 64) # b64encode s)"

text \<open>
  \<open>binascii.a2b_base64\<close>: the position in the current quad, the bits left over, the pads seen
  since the last data character.
\<close>

definition b64_error :: "string \<Rightarrow> exn" where
  "b64_error m = PyError BinasciiErrorC ''Error'' m"

fun a2b :: "nat \<Rightarrow> nat \<Rightarrow> nat \<Rightarrow> string \<Rightarrow> bytes res" where
  "a2b quad left pads [] =
     (if quad = 0 then Inr []
      else if quad = 1
      then Inl (b64_error ''Invalid base64-encoded string: number of data characters cannot be 1 more than a multiple of 4'')
      else Inl (b64_error ''Incorrect padding''))"
| "a2b quad left pads (c # s) =
     (if c = CHR ''='' then
        (if 2 \<le> quad then
           (if 4 \<le> quad + pads + 1 then Inr [] else a2b quad left (pads + 1) s)
         else a2b quad left pads s)
      else (case b64_val c of
          None \<Rightarrow> a2b quad left pads s
        | Some v \<Rightarrow>
            (if quad = 0 then a2b 1 v 0 s
             else if quad = 1
             then map_sum id (\<lambda>r. char_of (left * 4 + v div 16) # r) (a2b 2 (v mod 16) 0 s)
             else if quad = 2
             then map_sum id (\<lambda>r. char_of (left * 16 + v div 4) # r) (a2b 3 (v mod 4) 0 s)
             else map_sum id (\<lambda>r. char_of (left * 64 + v) # r) (a2b 0 0 0 s))))"

text \<open>On a \<open>str\<close> argument non-ASCII text raises \<open>ValueError\<close>, not \<open>binascii.Error\<close>.\<close>

definition b64decode :: "string \<Rightarrow> bytes res" where
  "b64decode s =
     (if is_ascii s then a2b 0 0 0 s
      else Inl (PyError ValueErrorC ''ValueError''
                 ''string argument should contain only ASCII characters''))"

definition urlsafe_b64decode :: "string \<Rightarrow> bytes res" where
  "urlsafe_b64decode s =
     (if is_ascii s
      then a2b 0 0 0 (List.map (\<lambda>c. if c = CHR ''-'' then CHR ''+''
                                 else if c = CHR ''_'' then CHR ''/'' else c) s)
      else Inl (PyError ValueErrorC ''ValueError''
                 ''string argument should contain only ASCII characters''))"

section \<open>Encoding, then decoding\<close>

lemma b64_alphabet_table:
  "List.map (\<lambda>n. b64_val (b64_char n)) [0..<64] = List.map Some [0..<64]"
  by code_simp

lemma b64_val_char: "n < 64 \<Longrightarrow> b64_val (b64_char n) = Some n"
  using b64_alphabet_table
  by (metis (no_types, lifting) add_0 diff_zero length_map length_upt nth_map nth_upt)

lemma b64_alphabet_ascii:
  "list_all (\<lambda>n. b64_char n \<noteq> CHR ''='' \<and> (of_char (b64_char n) :: nat) < 128) [0..<64]"
  by code_simp

lemma b64_char_ascii: "n < 64 \<Longrightarrow> b64_char n \<noteq> CHR ''='' \<and> (of_char (b64_char n) :: nat) < 128"
  using b64_alphabet_ascii by (simp add: list_all_iff)

lemma byte_parts:
  assumes "(x :: nat) < 256"
  shows "x div 4 < 64" "x mod 4 * 16 < 64" "x mod 16 * 4 < 64" "x mod 64 < 64"
    "y < 256 \<Longrightarrow> x mod 4 * 16 + y div 16 < 64"
    "y < 256 \<Longrightarrow> x mod 16 * 4 + y div 64 < 64"
  using assms by auto

lemma b64_char_parts [simp]:
  fixes a b :: char
  shows
    "b64_val (b64_char (of_char a div 4)) = Some (of_char a div 4)"
    "b64_val (b64_char (of_char a mod 4 * 16)) = Some (of_char a mod 4 * 16)"
    "b64_val (b64_char (of_char a mod 16 * 4)) = Some (of_char a mod 16 * 4)"
    "b64_val (b64_char (of_char a mod 64)) = Some (of_char a mod 64)"
    "b64_val (b64_char (of_char a mod 4 * 16 + of_char b div 16))
       = Some (of_char a mod 4 * 16 + of_char b div 16)"
    "b64_val (b64_char (of_char a mod 16 * 4 + of_char b div 64))
       = Some (of_char a mod 16 * 4 + of_char b div 64)"
  using of_char_lt_256 [of a] of_char_lt_256 [of b]
  by (auto intro!: b64_val_char byte_parts)

lemma b64_val_pad: "b64_val CHR ''='' = None"
  by code_simp

lemma b64_val_not_pad: "b64_val c = Some v \<Longrightarrow> c \<noteq> CHR ''=''"
  using b64_val_pad by auto

lemma a2b_data [simp]:
  "b64_val c = Some v \<Longrightarrow> a2b quad left pads (c # s) =
     (if quad = 0 then a2b 1 v 0 s
      else if quad = 1 then map_sum id (\<lambda>r. char_of (left * 4 + v div 16) # r) (a2b 2 (v mod 16) 0 s)
      else if quad = 2 then map_sum id (\<lambda>r. char_of (left * 16 + v div 4) # r) (a2b 3 (v mod 4) 0 s)
      else map_sum id (\<lambda>r. char_of (left * 64 + v) # r) (a2b 0 0 0 s))"
  using b64_val_not_pad by simp

declare a2b.simps(2) [simp del]

lemma a2b_pad [simp]:
  "2 \<le> quad \<Longrightarrow> a2b quad left pads (CHR ''='' # s) =
     (if 4 \<le> quad + pads + 1 then Inr [] else a2b quad left (pads + 1) s)"
  by (simp add: a2b.simps)

lemma byte_joins:
  fixes a b :: char
  shows "char_of ((of_char a :: nat) div 4 * 4 + (of_char a mod 4 * 16 + of_char b div 16) div 16) = a"
    "char_of ((of_char a :: nat) div 4 * 4 + of_char a mod 4 * 16 div 16) = a"
    "char_of ((of_char a mod 4 * 16 + (of_char b :: nat) div 16) mod 16 * 16
        + (of_char b mod 16 * 4) div 4) = b"
    "char_of ((of_char a mod 4 * 16 + (of_char b :: nat) div 16) mod 16 * 16
        + (of_char b mod 16 * 4 + of_char c div 64) div 4) = b"
    "char_of ((of_char a mod 16 * 4 + (of_char b :: nat) div 64) mod 4 * 64 + of_char b mod 64) = b"
proof -
  have lt: "(of_char b :: nat) div 16 < 16" "(of_char c :: nat) div 64 < 4"
      "(of_char b :: nat) div 64 < 4"
    using of_char_lt_256 [of b] of_char_lt_256 [of c] by (simp_all add: less_mult_imp_div_less)
  have "(of_char a :: nat) div 4 * 4 + (of_char a mod 4 * 16 + of_char b div 16) div 16 = of_char a"
    using lt by simp
  then show "char_of ((of_char a :: nat) div 4 * 4
      + (of_char a mod 4 * 16 + of_char b div 16) div 16) = a"
    by simp
  show "char_of ((of_char a :: nat) div 4 * 4 + of_char a mod 4 * 16 div 16) = a"
    by simp
  have m: "(of_char a mod 4 * 16 + (of_char b :: nat) div 16) mod 16 = of_char b div 16"
      "(of_char a mod 16 * 4 + (of_char b :: nat) div 64) mod 4 = of_char b div 64"
    using lt by simp_all
  have "(of_char b mod 16 * 4 + (of_char c :: nat) div 64) div 4 = of_char b mod 16"
    using lt by simp
  then show "char_of ((of_char a mod 4 * 16 + (of_char b :: nat) div 16) mod 16 * 16
        + (of_char b mod 16 * 4 + of_char c div 64) div 4) = b"
    by (simp only: m div_mult_mod_eq char_of_char)
  show "char_of ((of_char a mod 4 * 16 + (of_char b :: nat) div 16) mod 16 * 16
        + (of_char b mod 16 * 4) div 4) = b"
    by (simp only: m nonzero_mult_div_cancel_right [of 4, simplified] div_mult_mod_eq char_of_char)
  show "char_of ((of_char a mod 16 * 4 + (of_char b :: nat) div 64) mod 4 * 64 + of_char b mod 64) = b"
    by (simp only: m div_mult_mod_eq char_of_char)
qed

lemma a2b_encode: "a2b 0 left pads (b64encode s) = Inr s"
proof (induction s arbitrary: left pads rule: b64encode.induct)
  case (2 a)
  then show ?case using byte_joins(2) [of a] by (simp add: Let_def)
next
  case (3 a b)
  then show ?case using byte_joins(1,3) [of a b] by (simp add: Let_def)
next
  case (4 a b c s)
  then show ?case
    using byte_joins(1) [of a b] byte_joins(4) [of a b c] byte_joins(5) [of b c]
    by (simp add: Let_def)
qed simp

lemma is_ascii_b64encode [simp]: "is_ascii (b64encode s)"
  by (induction s rule: b64encode.induct)
    (auto simp: Let_def of_char_lt_256 intro!: b64_char_ascii [THEN conjunct2] byte_parts)

interpretation b64: codec b64encode b64decode "\<lambda>_. True"
  by unfold_locales (simp add: b64decode_def a2b_encode)

text \<open>The encoded length: four characters for each started group of three bytes.\<close>

lemma length_b64encode: "length (b64encode s) = 4 * ((length s + 2) div 3)"
proof (induction s rule: b64encode.induct)
  case (4 a b c s)
  have "(length (a # b # c # s) + 2) div 3 = (length s + 2) div 3 + 1" by simp
  with 4 show ?case by (simp add: Let_def del: length_Cons add_2_eq_Suc')
qed (auto simp: Let_def)

lemma only_Exceptions_a2b [exn_rules]: "only_Exceptions (a2b quad left pads s)"
proof (induction quad left pads s rule: a2b.induct)
  case (2 quad left pads c s)
  then show ?case
    by (auto intro: only_Exceptions_Inr only_Exceptions_map simp add: a2b.simps(2) split: option.split)
qed (auto simp: b64_error_def is_Exception_iff intro: exn_rules)

lemma only_Exceptions_b64decode [exn_rules]: "only_Exceptions (b64decode s)"
  by (simp add: b64decode_def exn_rules is_Exception_iff)

end
