(* ===== verification/Datetime.thy ===== *)
theory Datetime
  imports Codec
begin

text \<open>
  The standard library's \<open>datetime\<close> as the program uses it: the proleptic Gregorian calendar,
  \<open>isoformat\<close>, \<open>fromisoformat\<close> and the two \<open>strftime\<close> formats of the log records.  A value is
  its wall clock in microseconds since 0001-01-01T00:00 and its UTC offset in microseconds
  (\<open>None\<close> for a naive value).
\<close>

record datetime =
  wall :: int
  utc_off :: "int option"

section \<open>Calendar\<close>

definition is_leap :: "int \<Rightarrow> bool" where
  "is_leap y \<longleftrightarrow> y mod 4 = 0 \<and> (y mod 100 \<noteq> 0 \<or> y mod 400 = 0)"

definition days_before_year :: "int \<Rightarrow> int" where
  "days_before_year y = (y - 1) * 365 + (y - 1) div 4 - (y - 1) div 100 + (y - 1) div 400"

definition month_starts :: "int list" where
  "month_starts = [0, 31, 59, 90, 120, 151, 181, 212, 243, 273, 304, 334]"

definition days_before_month :: "bool \<Rightarrow> int \<Rightarrow> int" where
  "days_before_month leap m = month_starts ! nat (m - 1) + (if leap \<and> 2 < m then 1 else 0)"

definition days_in_month :: "bool \<Rightarrow> int \<Rightarrow> int" where
  "days_in_month leap m =
     (if m = 2 then (if leap then 29 else 28) else if m \<in> {4, 6, 9, 11} then 30 else 31)"

text \<open>Days since 0001-01-01 of a date.\<close>

definition ymd_to_days :: "int \<times> int \<times> int \<Rightarrow> int" where
  "ymd_to_days = (\<lambda>(y, m, d). days_before_year y + days_before_month (is_leap y) m + (d - 1))"

definition ymd_ok :: "int \<times> int \<times> int \<Rightarrow> bool" where
  "ymd_ok = (\<lambda>(y, m, d). 1 \<le> y \<and> y \<le> 9999 \<and> 1 \<le> m \<and> m \<le> 12
     \<and> 1 \<le> d \<and> d \<le> days_in_month (is_leap y) m)"

text \<open>Month and day of the day \<open>r\<close> of a year, counted from 0: the estimate, then the correction.\<close>

definition month_day :: "bool \<Rightarrow> int \<Rightarrow> int \<times> int" where
  "month_day leap r =
     (let m = (r + 50) div 32;
          p = days_before_month leap m
      in if r < p then (m - 1, r - days_before_month leap (m - 1) + 1) else (m, r - p + 1))"

definition days_to_ymd :: "int \<Rightarrow> int \<times> int \<times> int" where
  "days_to_ymd n =
     (let a = n div 146097; r400 = n mod 146097;
          b = r400 div 36524; r100 = r400 mod 36524;
          c = r100 div 1461; r4 = r100 mod 1461;
          d = r4 div 365; r = r4 mod 365;
          y = a * 400 + b * 100 + c * 4 + d + 1
      in if d = 4 \<or> b = 4 then (y - 1, 12, 31)
         else (y, month_day (d = 3 \<and> (c \<noteq> 24 \<or> b = 3)) r))"

lemma days_before_year_parts:
  assumes "0 \<le> b" "b < 4" "0 \<le> c" "c < 25" "0 \<le> d" "d < 4"
  shows "days_before_year (a * 400 + b * 100 + c * 4 + d + 1) = a * 146097 + b * 36524 + c * 1461 + d * 365"
proof -
  let ?n = "a * 400 + b * 100 + c * 4 + d"
  have "?n div 4 = a * 100 + b * 25 + c" using assms by simp
  moreover have "?n div 100 = a * 4 + b"
    using assms by (simp add: int_div_pos_eq [where r = "c * 4 + d"])
  moreover have "?n div 400 = a"
    using assms by (simp add: int_div_pos_eq [where r = "b * 100 + c * 4 + d"])
  ultimately show ?thesis by (simp add: days_before_year_def)
qed

lemma mod_eq_0_top: "0 < (x :: int) \<Longrightarrow> x \<le> k \<Longrightarrow> x mod k = 0 \<longleftrightarrow> x = k"
  by (cases "x = k") auto

lemma is_leap_parts:
  assumes "0 \<le> b" "b < 4" "0 \<le> c" "c < 25" "0 \<le> d" "d < 4"
  shows "is_leap (a * 400 + b * 100 + c * 4 + d + 1) \<longleftrightarrow> d = 3 \<and> (c \<noteq> 24 \<or> b = 3)"
proof -
  let ?y = "a * 400 + b * 100 + c * 4 + d + 1"
  have "?y = d + 1 + (a * 100 + b * 25 + c) * 4" "?y = c * 4 + d + 1 + (a * 4 + b) * 100"
    "?y = b * 100 + c * 4 + d + 1 + a * 400"
    by simp_all
  then have "?y mod 4 = (d + 1) mod 4" "?y mod 100 = (c * 4 + d + 1) mod 100"
    "?y mod 400 = (b * 100 + c * 4 + d + 1) mod 400"
    by (metis mod_mult_self1)+
  moreover have "(d + 1) mod 4 = 0 \<longleftrightarrow> d + 1 = 4" "(c * 4 + d + 1) mod 100 = 0 \<longleftrightarrow> c * 4 + d + 1 = 100"
    "(b * 100 + c * 4 + d + 1) mod 400 = 0 \<longleftrightarrow> b * 100 + c * 4 + d + 1 = 400"
    using assms by (intro mod_eq_0_top; simp)+
  ultimately have "is_leap ?y \<longleftrightarrow> d + 1 = 4 \<and> (c * 4 + d + 1 \<noteq> 100 \<or> b * 100 + c * 4 + d + 1 = 400)"
    unfolding is_leap_def by (simp only: )
  moreover have "d = 3 \<Longrightarrow> c * 4 + d + 1 = 100 \<longleftrightarrow> c = 24" by auto
  moreover have "c = 24 \<Longrightarrow> d = 3 \<Longrightarrow> b * 100 + c * 4 + d + 1 = 400 \<longleftrightarrow> b = 3" by auto
  moreover have "c \<noteq> 24 \<Longrightarrow> d = 3 \<Longrightarrow> b * 100 + c * 4 + d + 1 \<noteq> 400 \<or> c * 4 + d + 1 \<noteq> 100" by auto
  ultimately show ?thesis by (cases "d = 3"; cases "c = 24") simp_all
qed

lemma month_day_table:
  "list_all (\<lambda>r. let (m, d) = month_day leap r in
      days_before_month leap m + (d - 1) = r \<and> 1 \<le> m \<and> m \<le> 12 \<and> 1 \<le> d \<and> d \<le> days_in_month leap m)
    (List.map int [0..<(if leap then 366 else 365)])"
  by (cases leap; simp only: if_True if_False; code_simp)

lemma month_day_correct:
  assumes "0 \<le> r" "r < (if leap then 366 else 365)" "month_day leap r = (m, d)"
  shows "days_before_month leap m + (d - 1) = r \<and> 1 \<le> m \<and> m \<le> 12 \<and> 1 \<le> d \<and> d \<le> days_in_month leap m"
proof -
  have "r = int (nat r)" "nat r \<in> set [0..<(if leap then 366 else 365)]"
    using assms by (auto split: if_splits)
  then have "r \<in> set (List.map int [0..<(if leap then 366 else 365)])"
    by (metis image_eqI list.set_map)
  with month_day_table [of leap] assms(3) show ?thesis
    by (auto simp: list_all_iff)
qed

lemma ymd_to_days_to_ymd:
  assumes "days_to_ymd n = (y, m, d)"
  shows "ymd_to_days (y, m, d) = n \<and> 1 \<le> m \<and> m \<le> 12 \<and> 1 \<le> d \<and> d \<le> days_in_month (is_leap y) m"
proof -
  define a r400 b r100 c r4 e r
    where "a = n div 146097" and "r400 = n mod 146097" and "b = r400 div 36524"
      and "r100 = r400 mod 36524" and "c = r100 div 1461" and "r4 = r100 mod 1461"
      and "e = r4 div 365" and "r = r4 mod 365"
  note defs = this
  have n: "n = a * 146097 + b * 36524 + c * 1461 + e * 365 + r"
    unfolding defs by simp
  have rb: "0 \<le> r400" "r400 < 146097" "0 \<le> r100" "r100 < 36524" "0 \<le> r4" "r4 < 1461"
    "0 \<le> r" "r < 365"
    unfolding defs by simp_all
  then have bnd: "0 \<le> b" "b \<le> 4" "0 \<le> c" "c < 25" "0 \<le> e" "e \<le> 4"
    unfolding b_def c_def e_def by auto
  have b4: "b = 4 \<Longrightarrow> c = 0 \<and> e = 0 \<and> r = 0"
  proof -
    assume "b = 4"
    then have "r100 = 0" using rb b_def r100_def div_mult_mod_eq [of r400 36524] by auto
    then show ?thesis by (simp add: c_def e_def r_def r4_def)
  qed
  have e4: "e = 4 \<Longrightarrow> r = 0"
    using rb e_def r_def div_mult_mod_eq [of r4 365] by auto
  have c24: "e = 4 \<Longrightarrow> b \<noteq> 4 \<Longrightarrow> c \<noteq> 24 \<or> b = 3"
  proof (rule ccontr)
    assume "e = 4" "\<not> (c \<noteq> 24 \<or> b = 3)"
    then have "r100 = 24 * 1461 + 1460"
      using e4 div_mult_mod_eq [of r100 1461] div_mult_mod_eq [of r4 365] by (auto simp: c_def e_def r_def r4_def)
    with rb show False by simp
  qed
  let ?y = "a * 400 + b * 100 + c * 4 + e + 1"
  have res: "(y, m, d) = (if e = 4 \<or> b = 4 then (?y - 1, 12, 31)
      else (?y, month_day (e = 3 \<and> (c \<noteq> 24 \<or> b = 3)) r))"
    unfolding assms [symmetric] days_to_ymd_def Let_def defs ..
  show ?thesis
  proof (cases "e = 4 \<or> b = 4")
    case False
    then have y: "y = ?y" and md: "month_day (e = 3 \<and> (c \<noteq> 24 \<or> b = 3)) r = (m, d)"
      using res by simp_all
    have "days_before_year y = n - r" and lp: "is_leap y \<longleftrightarrow> e = 3 \<and> (c \<noteq> 24 \<or> b = 3)"
      using n bnd False days_before_year_parts [of b c e a] is_leap_parts [of b c e a]
      unfolding y by simp_all
    moreover have "r < (if is_leap y then 366 else 365)" using rb by simp
    then have "days_before_month (is_leap y) m + (d - 1) = r \<and> 1 \<le> m \<and> m \<le> 12 \<and> 1 \<le> d
        \<and> d \<le> days_in_month (is_leap y) m"
      using md rb(7) unfolding lp [symmetric] by (intro month_day_correct)
    ultimately show ?thesis by (simp add: ymd_to_days_def)
  next
    case True
    then obtain b' c' where y: "y = a * 400 + b' * 100 + c' * 4 + 3 + 1"
      "0 \<le> b'" "b' < 4" "0 \<le> c'" "c' < 25" "c' \<noteq> 24 \<or> b' = 3"
      and n': "n = a * 146097 + b' * 36524 + c' * 1461 + 3 * 365 + 365"
    proof (cases "b = 4")
      case True
      with that [of 3 24] res n b4 show ?thesis by auto
    next
      case False
      with that [of b c] True res n bnd e4 c24 show ?thesis by auto
    qed
    then have "is_leap y" "days_before_year y = n - 365"
      using is_leap_parts [of b' c' 3 a] days_before_year_parts [of b' c' 3 a] by auto
    moreover have "m = 12" "d = 31" using res True by auto
    ultimately show ?thesis
      by (simp add: ymd_to_days_def days_before_month_def month_starts_def days_in_month_def)
  qed
qed

text \<open>The last representable day is 9999-12-31.\<close>

definition max_days :: int where
  "max_days = 3652058"

lemma days_to_ymd_pos:
  assumes "0 \<le> n" "days_to_ymd n = (y, m, d)"
  shows "1 \<le> y"
proof -
  define a b c e
    where "a = n div 146097" and "b = n mod 146097 div 36524"
      and "c = n mod 146097 mod 36524 div 1461" and "e = n mod 146097 mod 36524 mod 1461 div 365"
  note defs = this
  have "0 \<le> a" "0 \<le> b" "0 \<le> c" "0 \<le> e"
    using assms(1) unfolding defs by (simp_all add: pos_imp_zdiv_nonneg_iff)
  moreover have "y = a * 400 + b * 100 + c * 4 + e + 1 \<or> (e = 4 \<or> b = 4) \<and> y = a * 400 + b * 100 + c * 4 + e"
    using assms(2) by (auto simp: days_to_ymd_def Let_def defs split: if_splits)
  ultimately show ?thesis by auto
qed

lemma days_before_month_pos: "1 \<le> m \<Longrightarrow> m \<le> 12 \<Longrightarrow> 0 \<le> days_before_month l m"
proof -
  assume "1 \<le> m" "m \<le> 12"
  then have "nat (m - 1) < 12" by simp
  then have "nat (m - 1) \<in> {0, 1, 2, 3, 4, 5, 6, 7, 8, 9, 10, 11}"
    by (simp add: less_Suc_eq numeral_eq_Suc)
  then show ?thesis by (auto simp: days_before_month_def month_starts_def)
qed

lemma days_before_year_10000: "10000 \<le> y \<Longrightarrow> max_days < days_before_year y"
proof -
  assume y: "10000 \<le> y"
  define q1 q2 q3 r1 r2 r3
    where "q1 = (y - 1) div 4" and "q2 = (y - 1) div 100" and "q3 = (y - 1) div 400"
      and "r1 = (y - 1) mod 4" and "r2 = (y - 1) mod 100" and "r3 = (y - 1) mod 400"
  note defs = this
  have "q1 * 4 + r1 = y - 1" "q2 * 100 + r2 = y - 1" "q3 * 400 + r3 = y - 1"
    unfolding defs by (rule div_mult_mod_eq)+
  moreover have "r1 \<le> 3" "0 \<le> r2" "r3 \<le> 399"
    using pos_mod_bound [of 4 "y - 1"] pos_mod_bound [of 400 "y - 1"] unfolding defs by simp_all
  moreover have "days_before_year y = (y - 1) * 365 + q1 - q2 + q3"
    unfolding days_before_year_def defs ..
  ultimately have "400 * days_before_year y \<ge> 146097 * (y - 1) - 699"
    by (simp add: algebra_simps)
  with y show ?thesis
    unfolding max_days_def by simp
qed

lemma days_to_ymd_ok:
  assumes "0 \<le> n" "n \<le> max_days"
  shows "ymd_ok (days_to_ymd n)"
proof -
  obtain y m d where ymd: "days_to_ymd n = (y, m, d)" by (cases "days_to_ymd n")
  note c = ymd_to_days_to_ymd [OF ymd]
  then have "days_before_year y \<le> n"
    using days_before_month_pos [of m "is_leap y"] by (simp add: ymd_to_days_def)
  then have "y \<le> 9999"
    using days_before_year_10000 [of y] assms(2) by (cases "10000 \<le> y") auto
  then show ?thesis
    using c ymd days_to_ymd_pos [OF assms(1) ymd] by (simp add: ymd_ok_def)
qed

section \<open>Clock arithmetic\<close>

definition us_per_s :: int where "us_per_s = 1000000"
definition us_per_day :: int where "us_per_day = 86400000000"

text \<open>The wall clock of the Unix epoch, and \<open>datetime.fromtimestamp(t, tz=utc)\<close> in microseconds.\<close>

definition epoch_wall :: int where
  "epoch_wall = 719162 * us_per_day"

definition utc_datetime :: "int \<Rightarrow> datetime" where
  "utc_datetime us = \<lparr>wall = epoch_wall + us, utc_off = Some 0\<rparr>"

text \<open>Microseconds since the epoch of an aware value.\<close>

definition timestamp_us :: "datetime \<Rightarrow> int" where
  "timestamp_us t = wall t - epoch_wall - (case utc_off t of None \<Rightarrow> 0 | Some z \<Rightarrow> z)"

text \<open>\<open>int(delta.total_seconds())\<close>: towards zero.\<close>

definition trunc_seconds :: "int \<Rightarrow> int" where
  "trunc_seconds us = (if 0 \<le> us then us div us_per_s else - ((- us) div us_per_s))"

text \<open>\<open>a - b\<close>: both aware or both naive, otherwise \<open>TypeError\<close>.\<close>

definition dt_minus :: "datetime \<Rightarrow> datetime \<Rightarrow> int res" where
  "dt_minus a b =
     (if (utc_off a = None) = (utc_off b = None) then Inr (timestamp_us a - timestamp_us b)
      else Inl (PyError TypeErrorC ''TypeError'' ''cannot subtract offset-naive and offset-aware datetimes''))"

lemma utc_off_utc_datetime [simp]: "utc_off (utc_datetime us) = Some 0"
  by (simp add: utc_datetime_def)

lemma timestamp_utc_datetime [simp]: "timestamp_us (utc_datetime us) = us"
  by (simp add: timestamp_us_def utc_datetime_def)

lemma dt_minus_utc:
  "utc_off t \<noteq> None \<Longrightarrow> dt_minus t (utc_datetime now) = Inr (timestamp_us t - now)"
  by (simp add: dt_minus_def)

lemma trunc_seconds_bounds:
  "us - us_per_s < trunc_seconds us * us_per_s \<and> trunc_seconds us * us_per_s < us + us_per_s"
proof -
  have pos: "0 < us_per_s" by (simp add: us_per_s_def)
  have bnd: "x - us_per_s < x div us_per_s * us_per_s" "x div us_per_s * us_per_s \<le> x" for x
    using pos minus_mod_eq_div_mult [of x us_per_s, symmetric] by simp_all
  then show ?thesis
    using pos bnd [of us] bnd [of "- us"] unfolding trunc_seconds_def
    by (cases "0 \<le> us"; simp; linarith)
qed

section \<open>Text\<close>

fun zero_pad :: "nat \<Rightarrow> int \<Rightarrow> string" where
  "zero_pad 0 n = []"
| "zero_pad (Suc k) n = zero_pad k (n div 10) @ [digit_char (nat (n mod 10))]"

definition clock_parts :: "int \<Rightarrow> int \<times> int \<times> int \<times> int" where
  "clock_parts us =
     (us div 3600000000, us div 60000000 mod 60, us div 1000000 mod 60, us mod 1000000)"

definition ymd_str :: "int \<times> int \<times> int \<Rightarrow> string" where
  "ymd_str = (\<lambda>(y, m, d). zero_pad 4 y @ ''-'' @ zero_pad 2 m @ ''-'' @ zero_pad 2 d)"

definition hms_str :: "int \<Rightarrow> string" where
  "hms_str us = (case clock_parts us of (h, m, s, _) \<Rightarrow>
     zero_pad 2 h @ '':'' @ zero_pad 2 m @ '':'' @ zero_pad 2 s)"

definition off_str :: "int \<Rightarrow> string" where
  "off_str z = (if z < 0 then ''-'' else ''+'') @
     (case clock_parts \<bar>z\<bar> of (h, m, s, u) \<Rightarrow>
        zero_pad 2 h @ '':'' @ zero_pad 2 m
        @ (if s \<noteq> 0 \<or> u \<noteq> 0 then '':'' @ zero_pad 2 s else [])
        @ (if u \<noteq> 0 then ''.'' @ zero_pad 6 u else []))"

definition isoformat :: "datetime \<Rightarrow> string" where
  "isoformat t =
     (let us = wall t mod us_per_day
      in ymd_str (days_to_ymd (wall t div us_per_day)) @ ''T'' @ hms_str us
         @ (if us mod us_per_s = 0 then [] else ''.'' @ zero_pad 6 (us mod us_per_s))
         @ (case utc_off t of None \<Rightarrow> [] | Some z \<Rightarrow> off_str z))"

text \<open>\<open>fromisoformat\<close>: the documented ISO 8601 forms, dates by month or by week.\<close>

definition take_digits :: "nat \<Rightarrow> string \<Rightarrow> (int \<times> string) option" where
  "take_digits k s =
     (if k \<le> length s \<and> list_all is_digit (take k s) then Some (int (digits_val (take k s)), drop k s)
      else None)"

definition week_to_days :: "int \<Rightarrow> int \<Rightarrow> int \<Rightarrow> int option" where
  "week_to_days y w d =
     (let first = days_before_year y;
          wd = first mod 7;
          monday = first - wd + (if 3 < wd then 7 else 0);
          long = (wd = 3 \<or> wd = 2 \<and> is_leap y)
      in if 1 \<le> w \<and> (w \<le> 52 \<or> w = 53 \<and> long) \<and> 1 \<le> d \<and> d \<le> 7
         then Some (monday + (w - 1) * 7 + (d - 1)) else None)"

definition ymd_days_opt :: "int \<Rightarrow> int \<Rightarrow> int \<Rightarrow> int option" where
  "ymd_days_opt y m d = (if ymd_ok (y, m, d) then Some (ymd_to_days (y, m, d)) else None)"

definition parse_week :: "bool \<Rightarrow> int \<Rightarrow> string \<Rightarrow> int option" where
  "parse_week sep y s = Option.bind (take_digits 2 s) (\<lambda>(w, r).
     if r = [] then week_to_days y w 1
     else Option.bind (take_digits 1 (if sep then tl r else r)) (\<lambda>(d, r2).
       if r2 = [] \<and> (sep \<longrightarrow> hd r = CHR ''-'') then week_to_days y w d else None))"

definition parse_month :: "bool \<Rightarrow> int \<Rightarrow> string \<Rightarrow> int option" where
  "parse_month sep y s = Option.bind (take_digits 2 s) (\<lambda>(m, r).
     if sep \<and> (r = [] \<or> hd r \<noteq> CHR ''-'') then None
     else Option.bind (take_digits 2 (if sep then tl r else r)) (\<lambda>(d, r2).
       if r2 = [] then ymd_days_opt y m d else None))"

definition parse_date :: "string \<Rightarrow> int option" where
  "parse_date s = Option.bind (take_digits 4 s) (\<lambda>(y, r).
     if y < 1 then None
     else (case r of
         [] \<Rightarrow> None
       | c # r1 \<Rightarrow>
           if c = CHR ''W'' then parse_week False y r1
           else if c \<noteq> CHR ''-'' then parse_month False y r
           else if py_startswith r1 ''W'' then parse_week True y (tl r1)
           else parse_month True y r1))"

definition parse_frac :: "string \<Rightarrow> int option" where
  "parse_frac s =
     (case s of
        [] \<Rightarrow> Some 0
      | c # r \<Rightarrow>
          if (c = CHR ''.'' \<or> c = CHR '','') \<and> r \<noteq> [] \<and> list_all is_digit r
          then Some (int (digits_val (take 6 (r @ ''00000'')))) else None)"

definition parse_clock :: "string \<Rightarrow> (int \<times> int \<times> int \<times> int) option" where
  "parse_clock s = Option.bind (take_digits 2 s) (\<lambda>(h, r).
     if r = [] then Some (h, 0, 0, 0)
     else (let sep = (hd r = CHR '':'')
           in Option.bind (take_digits 2 (if sep then tl r else r)) (\<lambda>(m, r2).
                if r2 = [] then Some (h, m, 0, 0)
                else if sep \<and> hd r2 \<noteq> CHR '':'' then None
                else Option.bind (take_digits 2 (if sep then tl r2 else r2)) (\<lambda>(sec, r3).
                  map_option (\<lambda>us. (h, m, sec, us)) (parse_frac r3)))))"

definition clock_us :: "int \<times> int \<times> int \<times> int \<Rightarrow> int" where
  "clock_us = (\<lambda>(h, m, s, u). h * 3600000000 + m * 60000000 + s * 1000000 + u)"

definition parse_off :: "string \<Rightarrow> int option option" where
  "parse_off s =
     (case s of
        [] \<Rightarrow> Some None
      | c # r \<Rightarrow>
          if c = CHR ''Z'' then (if r = [] then Some (Some 0) else None)
          else Option.bind (parse_clock r) (\<lambda>k.
            if clock_us k < us_per_day
            then Some (Some (if c = CHR ''-'' then - clock_us k else clock_us k)) else None))"

definition off_mark :: "char \<Rightarrow> bool" where
  "off_mark c \<longleftrightarrow> c \<in> {CHR ''+'', CHR ''-'', CHR ''Z''}"

definition parse_time :: "string \<Rightarrow> (int \<times> int option) option" where
  "parse_time s =
     Option.bind (parse_clock (takeWhile (\<lambda>c. \<not> off_mark c) s)) (\<lambda>(h, m, sec, us).
       if 24 \<le> h \<or> 60 \<le> m \<or> 60 \<le> sec then None
       else map_option (\<lambda>z. (clock_us (h, m, sec, us), z))
              (parse_off (dropWhile (\<lambda>c. \<not> off_mark c) s)))"

text \<open>Where the date ends: the separator is whatever character stands there.\<close>

definition date_len :: "string \<Rightarrow> nat" where
  "date_len s =
     (if s ! 4 = CHR ''-'' then
        (if s ! 5 = CHR ''W'' then
           (if 8 < length s \<and> s ! 8 = CHR ''-'' \<and> \<not> (10 < length s \<and> is_digit (s ! 10)) then 10 else 8)
         else 10)
      else if s ! 4 = CHR ''W'' then
        (let i = 7 + length (takeWhile is_digit (drop 7 s))
         in if i < 9 then i else if even i then 7 else 8)
      else 8)"

text \<open>The parser looks at characters; one that is not ASCII can only be the separator.\<close>

definition ascii_fold :: "string \<Rightarrow> string" where
  "ascii_fold s = List.map (\<lambda>c. if c < 128 then char_of c else CHR 0xFF) (cps_of s)"

definition iso_error :: exn where
  "iso_error = PyError ValueErrorC ''ValueError'' ''Invalid isoformat string''"

definition fromisoformat :: "string \<Rightarrow> datetime res" where
  "fromisoformat str =
     (let s = ascii_fold str; k = date_len s; rest = drop (Suc k) s
      in if length s < 7 then Inl iso_error
         else of_option iso_error
           (Option.bind (parse_date (take k s)) (\<lambda>d.
              if rest = [] then Some \<lparr>wall = d * us_per_day, utc_off = None\<rparr>
              else map_option (\<lambda>(us, z). \<lparr>wall = d * us_per_day + us, utc_off = z\<rparr>) (parse_time rest))))"

section \<open>What is printed is read back\<close>

lemma length_zero_pad [simp]: "length (zero_pad k n) = k"
  by (induction k arbitrary: n) auto

lemma zero_pad_digits: "list_all is_digit (zero_pad k n)"
  by (induction k arbitrary: n) auto

lemma digits_val_zero_pad: "0 \<le> n \<Longrightarrow> n < 10 ^ k \<Longrightarrow> int (digits_val (zero_pad k n)) = n"
proof (induction k arbitrary: n)
  case 0
  then show ?case by (simp add: digits_val_def)
next
  case (Suc k)
  have "int (digits_val (zero_pad k (n div 10))) = n div 10"
    using Suc by (intro Suc.IH) auto
  then show ?case
    by (simp add: digits_val_snoc)
qed

lemma take_digits_zero_pad [simp]:
  "0 \<le> n \<Longrightarrow> n < 10 ^ k \<Longrightarrow> take_digits k (zero_pad k n @ t) = Some (n, t)"
  by (simp add: take_digits_def zero_pad_digits digits_val_zero_pad)

lemma zero_pad_not_mark: "list_all (\<lambda>c. \<not> off_mark c \<and> (of_char c :: nat) < 128) (zero_pad k n)"
  using zero_pad_digits [of k n] by (auto simp: list_all_iff is_digit_def off_mark_def)

lemma clock_parts_bounds:
  assumes "0 \<le> us" "us < us_per_day" "clock_parts us = (h, m, s, u)"
  shows "0 \<le> h \<and> h < 24 \<and> 0 \<le> m \<and> m < 60 \<and> 0 \<le> s \<and> s < 60 \<and> 0 \<le> u \<and> u < 1000000
    \<and> clock_us (h, m, s, u) = us"
proof -
  have h: "h = us div 3600000000" "m = us div 60000000 mod 60" "s = us div 1000000 mod 60" "u = us mod 1000000"
    using assms(3) by (auto simp: clock_parts_def)
  have "us div 60000000 = us div 1000000 div 60" "us div 3600000000 = us div 1000000 div 60 div 60"
    by (simp_all flip: zdiv_zmult2_eq)
  moreover define x q where "x = us div 1000000" and "q = x div 60"
  ultimately have "h = q div 60" "m = q mod 60" "s = x mod 60" by (simp_all add: h)
  then have "h * 60 + m = q" "q * 60 + s = x" "x * 1000000 + u = us"
    by (simp_all add: q_def x_def h(4))
  then have "clock_us (h, m, s, u) = us" by (simp add: clock_us_def)
  moreover have "h < 24" using assms unfolding h us_per_day_def by simp
  ultimately show ?thesis
    using assms(1) unfolding h by (simp add: pos_imp_zdiv_nonneg_iff)
qed

lemma take6_digits: "length s = 6 \<Longrightarrow> take 6 (s @ t) = s"
  by simp

lemma parse_frac_pad:
  assumes "0 \<le> u" "u < 1000000"
  shows "parse_frac (CHR ''.'' # zero_pad 6 u) = Some u"
proof -
  have "zero_pad 6 u \<noteq> []" by (metis length_zero_pad list.size(3) zero_neq_numeral)
  then show ?thesis
    using assms by (simp add: parse_frac_def zero_pad_digits digits_val_zero_pad)
qed
text \<open>The clock fields print as two digits each, with the rest \<open>r\<close> of the text after them.\<close>

lemma parse_clock_hms:
  assumes "0 \<le> us" "us < us_per_day" "clock_parts us = (h, m, s, v)"
  shows "parse_clock (zero_pad 2 h @ '':'' @ zero_pad 2 m @ '':'' @ zero_pad 2 s @ r) =
      map_option (\<lambda>u. (h, m, s, u)) (parse_frac r)"
    and "parse_clock (zero_pad 2 h @ '':'' @ zero_pad 2 m) = Some (h, m, 0, 0)"
proof -
  have b: "0 \<le> h" "h < 10 ^ 2" "0 \<le> m" "m < 10 ^ 2" "0 \<le> s" "s < 10 ^ 2"
    using clock_parts_bounds [OF assms] by auto
  show "parse_clock (zero_pad 2 h @ '':'' @ zero_pad 2 m @ '':'' @ zero_pad 2 s @ r) =
      map_option (\<lambda>u. (h, m, s, u)) (parse_frac r)"
    using b by (simp add: parse_clock_def)
  show "parse_clock (zero_pad 2 h @ '':'' @ zero_pad 2 m) = Some (h, m, 0, 0)"
    using b take_digits_zero_pad [of m 2 "[]"] by (simp add: parse_clock_def)
qed

lemma parse_off_str:
  assumes "\<bar>z\<bar> < us_per_day"
  shows "parse_off (off_str z) = Some (Some z)"
proof -
  obtain h m s u where c: "clock_parts \<bar>z\<bar> = (h, m, s, u)" by (cases "clock_parts \<bar>z\<bar>")
  have b: "0 \<le> u" "u < 1000000" "clock_us (h, m, s, u) = \<bar>z\<bar>"
    using clock_parts_bounds [OF _ assms c] by auto
  define body where "body = zero_pad 2 h @ '':'' @ zero_pad 2 m
        @ (if s \<noteq> 0 \<or> u \<noteq> 0 then '':'' @ zero_pad 2 s else [])
        @ (if u \<noteq> 0 then ''.'' @ zero_pad 6 u else [])"
  have "parse_frac (if u \<noteq> 0 then ''.'' @ zero_pad 6 u else []) = Some u"
    using b parse_frac_pad [of u] by (simp add: parse_frac_def)
  then have "parse_clock body = Some (h, m, s, u)"
    using parse_clock_hms [OF _ assms c] unfolding body_def by (cases "s \<noteq> 0 \<or> u \<noteq> 0") simp_all
  moreover have "off_str z = (if z < 0 then CHR ''-'' else CHR ''+'') # body"
    by (simp add: off_str_def c body_def)
  ultimately show ?thesis
    using b(3) assms by (auto simp: parse_off_def)
qed

lemma takeWhile_not_mark:
  assumes "list_all (\<lambda>c. \<not> off_mark c) a" "b = [] \<or> off_mark (hd b)"
  shows "takeWhile (\<lambda>c. \<not> off_mark c) (a @ b) = a" "dropWhile (\<lambda>c. \<not> off_mark c) (a @ b) = b"
proof -
  have "takeWhile (\<lambda>c. \<not> off_mark c) b = []" "dropWhile (\<lambda>c. \<not> off_mark c) b = b"
    using assms(2) by (cases b; simp)+
  then show "takeWhile (\<lambda>c. \<not> off_mark c) (a @ b) = a" "dropWhile (\<lambda>c. \<not> off_mark c) (a @ b) = b"
    using assms(1) by (simp_all add: list_all_iff)
qed

definition off_ok :: "int option \<Rightarrow> bool" where
  "off_ok z \<longleftrightarrow> (case z of None \<Rightarrow> True | Some v \<Rightarrow> \<bar>v\<bar> < us_per_day)"

definition off_opt_str :: "int option \<Rightarrow> string" where
  "off_opt_str z = (case z of None \<Rightarrow> [] | Some v \<Rightarrow> off_str v)"

lemma parse_off_opt: "off_ok z \<Longrightarrow> parse_off (off_opt_str z) = Some z"
  by (auto simp: off_ok_def off_opt_str_def parse_off_str split: option.splits)
    (simp add: parse_off_def)

lemma parse_time_str:
  assumes "0 \<le> us" "us < us_per_day" "off_ok z"
  shows "parse_time (hms_str us @ (if us mod us_per_s = 0 then [] else ''.'' @ zero_pad 6 (us mod us_per_s))
    @ off_opt_str z) = Some (us, z)"
proof -
  obtain h m s u where c: "clock_parts us = (h, m, s, u)" by (cases "clock_parts us")
  note b = clock_parts_bounds [OF assms(1,2) c]
  have u: "us mod us_per_s = u" using c by (simp add: clock_parts_def us_per_s_def)
  define fr where "fr = (if u = 0 then [] else ''.'' @ zero_pad 6 u)"
  define clk where "clk = zero_pad 2 h @ '':'' @ zero_pad 2 m @ '':'' @ zero_pad 2 s @ fr"
  have pf: "parse_frac fr = Some u"
    using b parse_frac_pad [of u] by (simp add: parse_frac_def fr_def)
  have pc: "parse_clock clk = Some (h, m, s, u)"
    using parse_clock_hms(1) [OF assms(1,2) c, of fr] pf by (simp add: clk_def)
  have "list_all (\<lambda>c. \<not> off_mark c) clk"
    unfolding clk_def fr_def using zero_pad_not_mark by (auto simp: list_all_iff off_mark_def)
  moreover have "off_opt_str z = [] \<or> off_mark (hd (off_opt_str z))"
    by (auto simp: off_opt_str_def off_str_def off_mark_def split: option.splits prod.splits)
  ultimately have "parse_time (clk @ off_opt_str z) = Some (us, z)"
    using b pc parse_off_opt [OF assms(3)] by (simp add: parse_time_def takeWhile_not_mark)
  then show ?thesis
    unfolding u hms_str_def c prod.case clk_def fr_def by simp
qed

lemma parse_date_str:
  assumes "ymd_ok (y, m, d)"
  shows "parse_date (ymd_str (y, m, d)) = Some (ymd_to_days (y, m, d))"
proof -
  have "days_in_month (is_leap y) m \<le> 31" by (simp add: days_in_month_def)
  then have "d \<le> 31" using assms by (simp add: ymd_ok_def)
  then have b: "1 \<le> y" "y < 10 ^ 4" "0 \<le> m" "m < 10 ^ 2" "0 \<le> d" "d < 10 ^ 2"
    using assms by (simp_all add: ymd_ok_def)
  then have pm: "parse_month True y (zero_pad 2 m @ ''-'' @ zero_pad 2 d) = Some (ymd_to_days (y, m, d))"
    using take_digits_zero_pad [of d 2 "[]"] assms by (simp add: parse_month_def ymd_days_opt_def)
  have "list_all is_digit (zero_pad 2 m)" by (rule zero_pad_digits)
  moreover obtain c q where "zero_pad 2 m = c # q"
    using length_zero_pad [of 2 m] by (cases "zero_pad 2 m") auto
  ultimately have "zero_pad 2 m = c # q" "is_digit c" by simp_all
  then have "\<not> py_startswith (zero_pad 2 m @ t) ''W''" for t
    by (auto simp: py_startswith_def is_digit_def)
  then show ?thesis
    using b pm by (simp add: parse_date_def ymd_str_def)
qed
lemma ascii_fold_id: "list_all (\<lambda>c. (of_char c :: nat) < 128) s \<Longrightarrow> ascii_fold s = s"
proof -
  assume a: "list_all (\<lambda>c. (of_char c :: nat) < 128) s"
  then have "cps_of s = List.map of_char s"
    by (simp add: cps_of_def utf8_decode_ascii is_ascii_def list_all_iff)
  with a show ?thesis
    by (simp add: ascii_fold_def list_all_iff map_idI)
qed

definition datetime_ok :: "datetime \<Rightarrow> bool" where
  "datetime_ok t \<longleftrightarrow> 0 \<le> wall t \<and> wall t div us_per_day \<le> max_days \<and> off_ok (utc_off t)"

lemma isoformat_ascii: "list_all (\<lambda>c. (of_char c :: nat) < 128) (isoformat t)"
  using zero_pad_not_mark
  by (auto simp: isoformat_def ymd_str_def hms_str_def off_str_def Let_def list_all_iff
      split: prod.split option.split)

lemma fromisoformat_isoformat:
  assumes "datetime_ok t"
  shows "fromisoformat (isoformat t) = Inr t"
proof -
  define day us where "day = wall t div us_per_day" and "us = wall t mod us_per_day"
  obtain y m d where ymd: "days_to_ymd day = (y, m, d)" by (cases "days_to_ymd day")
  have pos: "0 < us_per_day" by (simp add: us_per_day_def)
  then have day: "0 \<le> day" "day \<le> max_days"
    using assms by (simp_all add: day_def datetime_ok_def pos_imp_zdiv_nonneg_iff)
  define rest where "rest = hms_str us @ (if us mod us_per_s = 0 then [] else ''.'' @ zero_pad 6 (us mod us_per_s))
    @ off_opt_str (utc_off t)"
  have iso: "isoformat t = ymd_str (y, m, d) @ CHR ''T'' # rest"
    by (simp add: isoformat_def Let_def ymd rest_def off_opt_str_def flip: day_def us_def)
  have pt: "parse_time rest = Some (us, utc_off t)"
    unfolding rest_def using assms pos by (intro parse_time_str) (simp_all add: us_def datetime_ok_def)
  then have "rest \<noteq> []" by (auto simp: parse_time_def parse_clock_def take_digits_def)
  have pd: "parse_date (ymd_str (y, m, d)) = Some day"
    using parse_date_str days_to_ymd_ok [OF day] ymd ymd_to_days_to_ymd [OF ymd] by simp
  have len: "length (ymd_str (y, m, d)) = 10" by (simp add: ymd_str_def)
  have "(ymd_str (y, m, d) @ q) ! 4 = CHR ''-''" for q
    by (simp add: ymd_str_def nth_append)
  moreover have "(ymd_str (y, m, d) @ q) ! 5 \<noteq> CHR ''W''" for q
  proof -
    have "(ymd_str (y, m, d) @ q) ! 5 = zero_pad 2 m ! 0"
      by (simp add: ymd_str_def nth_append)
    moreover have "is_digit (zero_pad 2 m ! 0)"
      using zero_pad_digits [of 2 m] by (simp add: list_all_length)
    ultimately show ?thesis by (auto simp: is_digit_def)
  qed
  ultimately have "date_len (isoformat t) = 10"
    unfolding iso date_len_def by simp
  then show ?thesis
    using pt pd len \<open>rest \<noteq> []\<close> ascii_fold_id [OF isoformat_ascii, of t]
    by (simp add: fromisoformat_def Let_def iso day_def us_def)
qed

interpretation iso: codec isoformat fromisoformat datetime_ok
  by unfold_locales (rule fromisoformat_isoformat)

section \<open>The log formats\<close>

text \<open>\<open>strftime("%Y-%m-%dT%H:%M:%S.%f")[:-3] + "Z"\<close>: milliseconds, cut and not rounded.\<close>

definition iso_millis :: "datetime \<Rightarrow> string" where
  "iso_millis t =
     (let us = wall t mod us_per_day;
          text = ymd_str (days_to_ymd (wall t div us_per_day)) @ ''T'' @ hms_str us @ ''.''
                 @ zero_pad 6 (us mod us_per_s)
      in take (length text - 3) text @ ''Z'')"

end
