(* ===== verification/Models.thy ===== *)
theory Models
  imports Arn Base64 Datetime
begin

text \<open>
  The authentication part of \<open>models.py\<close> and \<open>services/payload_service.py\<close>: the credentials
  and the payload a client sends, and the result of an authentication.  Fields copied from
  decoded JSON without a type check are JSON values here too.
\<close>

section \<open>AwsCredentials\<close>

record aws_credentials =
  access_key_id :: json
  secret_access_key :: json
  session_token :: json
  expiration :: "datetime option"

definition AwsCredentials :: "json \<Rightarrow> json \<Rightarrow> json \<Rightarrow> datetime option \<Rightarrow> aws_credentials res" where
  "AwsCredentials a s t e =
     (if \<not> truthy a
      then Inl (mk_InputValidationError ''access_key_id'' ''Access key ID cannot be empty'')
      else if \<not> truthy s
      then Inl (mk_InputValidationError ''secret_access_key'' ''Secret access key cannot be empty'')
      else Inr \<lparr>access_key_id = a, secret_access_key = s, session_token = t, expiration = e\<rparr>)"

definition replace_Z :: "string \<Rightarrow> string" where
  "replace_Z s = concat (List.map (\<lambda>c. if c = CHR ''Z'' then ''+00:00'' else [c]) s)"

text \<open>A value that is not a string has no \<open>replace\<close>: that \<open>AttributeError\<close> is not caught here.\<close>

definition parse_expiration :: "json \<Rightarrow> datetime option res" where
  "parse_expiration v =
     (if \<not> truthy v then Inr None
      else (case v of
          JStr s \<Rightarrow>
            (case fromisoformat (replace_Z s) of
               Inr dt \<Rightarrow> Inr (Some (if utc_off dt = None then dt\<lparr>utc_off := Some 0\<rparr> else dt))
             | Inl e \<Rightarrow> if isinstance e [ValueErrorC, TypeErrorC] then Inr None else Inl e)
        | _ \<Rightarrow> Inl attribute_error))"

definition AwsCredentials_from_dict :: "json \<Rightarrow> aws_credentials res" where
  "AwsCredentials_from_dict data =
     bind_r (py_get data ''access_key_id'' (JStr '''')) (\<lambda>a.
     bind_r (py_get data ''secret_access_key'' (JStr '''')) (\<lambda>s.
     bind_r (py_get data ''session_token'' JNull) (\<lambda>t.
     bind_r (py_get data ''expiration'' JNull) (\<lambda>ev.
     bind_r (parse_expiration ev) (\<lambda>e.
       AwsCredentials a s t e)))))"

definition credentials_is_valid :: "aws_credentials \<Rightarrow> bool" where
  "credentials_is_valid c \<longleftrightarrow> truthy (access_key_id c) \<and> truthy (secret_access_key c)"

text \<open>\<open>now\<close> is the clock, in microseconds since the epoch.\<close>

definition seconds_until_expiration :: "int \<Rightarrow> aws_credentials \<Rightarrow> int option res" where
  "seconds_until_expiration now c =
     (case expiration c of
        None \<Rightarrow> Inr None
      | Some e \<Rightarrow>
          bind_r (dt_minus e (utc_datetime now)) (\<lambda>us. Inr (Some (max 0 (trunc_seconds us)))))"

definition dt_json :: "datetime option \<Rightarrow> json" where
  "dt_json e = (case e of None \<Rightarrow> JNull | Some t \<Rightarrow> JStr (isoformat t))"

definition AwsCredentials_to_dict :: "aws_credentials \<Rightarrow> json" where
  "AwsCredentials_to_dict c =
     JDict [(''access_key_id'', access_key_id c), (''secret_access_key'', secret_access_key c),
            (''session_token'', session_token c), (''expiration'', dt_json (expiration c))]"

section \<open>The wire payload\<close>

text \<open>
  What boto returns for a session: strings, and a \<open>datetime\<close> for the expiration, which
  \<open>json.dumps(default=str)\<close> writes as \<open>str(datetime)\<close> (a blank between date and time).
\<close>

datatype cred_value = CredJson json | CredTime datetime

definition replace_first_T :: "string \<Rightarrow> string" where
  "replace_first_T s = takeWhile (\<lambda>c. c \<noteq> CHR ''T'') s @ CHR '' '' # tl (dropWhile (\<lambda>c. c \<noteq> CHR ''T'') s)"

definition cred_json :: "cred_value \<Rightarrow> json" where
  "cred_json v = (case v of CredJson j \<Rightarrow> j | CredTime t \<Rightarrow> JStr (replace_first_T (isoformat t)))"

definition cred_item :: "(string \<times> cred_value) list \<Rightarrow> string \<Rightarrow> json res" where
  "cred_item d k = of_option (key_error k) (map_option cred_json (map_of d k))"

definition payload_dict :: "json \<Rightarrow> json \<Rightarrow> json \<Rightarrow> json \<Rightarrow> string \<Rightarrow> json" where
  "payload_dict a s t e arn =
     JDict [(''credentials'', JDict [(''access_key_id'', a), (''secret_access_key'', s),
                                     (''session_token'', t)]),
            (''expiration'', e), (''secret_arn'', JStr arn)]"

definition payload_wire :: "json \<Rightarrow> string" where
  "payload_wire v = b64encode (json_dumps v)"

text \<open>\<open>json.dumps\<close> escapes everything outside ASCII, so \<open>.encode("utf-8")\<close> cannot fail.\<close>

definition encode_payload :: "(string \<times> cred_value) list \<Rightarrow> string \<Rightarrow> string res" where
  "encode_payload credentials secret_arn =
     bind_r (cred_item credentials ''AccessKeyId'') (\<lambda>a.
     bind_r (cred_item credentials ''SecretAccessKey'') (\<lambda>s.
     bind_r (cred_item credentials ''SessionToken'') (\<lambda>t.
     bind_r (cred_item credentials ''Expiration'') (\<lambda>e.
       Inr (payload_wire (payload_dict a s t e secret_arn))))))"

definition decode_payload :: "string \<Rightarrow> json res" where
  "decode_payload payload = bind_r (b64decode payload) (\<lambda>b. bind_r (decode_utf8 b) json_loads)"

section \<open>AuthPayload\<close>

record auth_payload =
  raw :: string
  credentials :: aws_credentials
  secret_arn :: json
  target_host :: "string option"

definition AuthPayload :: "string \<Rightarrow> aws_credentials \<Rightarrow> json \<Rightarrow> string option \<Rightarrow> auth_payload res" where
  "AuthPayload r c a h =
     (if \<not> truthy a then Inl (mk_InputValidationError ''secret_arn'' ''Secret ARN cannot be empty'')
      else Inr \<lparr>raw = r, credentials = c, secret_arn = a, target_host = h\<rparr>)"

definition read_payload :: "string \<Rightarrow> string option \<Rightarrow> auth_payload res" where
  "read_payload raw_payload host =
     bind_r (decode_payload raw_payload) (\<lambda>d.
       if \<not> is_dict d then Inl (PayloadError ''Invalid payload format'')
       else
         bind_r (py_get d ''credentials'' (JDict [])) (\<lambda>cd.
         bind_r (AwsCredentials_from_dict cd) (\<lambda>c.
         bind_r (py_get d ''secret_arn'' (JStr '''')) (\<lambda>a.
           AuthPayload raw_payload c a host))))"

text \<open>The message of the second clause holds the whole payload, as the source's does.\<close>

definition from_contents :: "string \<Rightarrow> string option \<Rightarrow> auth_payload res" where
  "from_contents raw_payload host =
     (case read_payload raw_payload host of
        Inr p \<Rightarrow> Inr p
      | Inl e \<Rightarrow>
          if isinstance e [InputValidationErrorC]
          then Inl (PayloadError (''Validation error in payload: '' @ exn_message e))
          else if is_Exception e
          then Inl (PayloadError (''Failed to decode authorization payload: '' @ exn_str e
                                  @ '', payload: '' @ raw_payload))
          else Inl e)"

definition AuthPayload_to_dict :: "auth_payload \<Rightarrow> json" where
  "AuthPayload_to_dict p =
     JDict ([(''credentials'', AwsCredentials_to_dict (credentials p)),
             (''secret_arn'', secret_arn p), (''expiration'', JNull)]
            @ (case target_host p of
                 None \<Rightarrow> [] | Some h \<Rightarrow> if h = [] then [] else [(''target_host'', JStr h)]))"

section \<open>AuthResult\<close>

record auth_result =
  api_key :: json
  res_principal :: principal_info
  output_header :: json
  output_prefix :: json
  expires_at :: "datetime option"

definition fromisoformat_json :: "json \<Rightarrow> datetime option res" where
  "fromisoformat_json v =
     (if \<not> truthy v then Inr None
      else (case v of
          JStr s \<Rightarrow> map_sum id Some (fromisoformat s)
        | _ \<Rightarrow> Inl (PyError TypeErrorC ''TypeError'' ''fromisoformat: argument must be str'')))"

definition AuthResult_from_dict :: "json \<Rightarrow> auth_result res" where
  "AuthResult_from_dict data =
     bind_r (py_get data ''principal_info'' (JDict [])) (\<lambda>pd.
     bind_r (PrincipalInfo_from_dict pd) (\<lambda>p.
     bind_r (py_get data ''expires_at'' JNull) (\<lambda>x.
     bind_r (py_get data ''api_key'' (JStr '''')) (\<lambda>k.
     bind_r (py_get data ''output_header'' JNull) (\<lambda>h.
     bind_r (py_get data ''output_prefix'' JNull) (\<lambda>f.
     bind_r (fromisoformat_json x) (\<lambda>e.
       Inr \<lparr>api_key = k, res_principal = p, output_header = h, output_prefix = f,
            expires_at = e\<rparr>)))))))"

definition AuthResult_to_dict :: "auth_result \<Rightarrow> json" where
  "AuthResult_to_dict r =
     JDict [(''api_key'', api_key r), (''principal_info'', PrincipalInfo_to_dict (res_principal r)),
            (''output_header'', output_header r), (''output_prefix'', output_prefix r),
            (''expires_at'', dt_json (expires_at r))]"

definition result_successful :: "auth_result \<Rightarrow> bool" where
  "result_successful r \<longleftrightarrow> truthy (api_key r)"

text \<open>The dictionary form gives the result back, so long as its time is a representable one.\<close>

definition result_ok :: "auth_result \<Rightarrow> bool" where
  "result_ok r \<longleftrightarrow> (case expires_at r of None \<Rightarrow> True | Some t \<Rightarrow> datetime_ok t)"

lemma isoformat_not_Nil [simp]: "isoformat t \<noteq> []"
  by (simp add: isoformat_def Let_def)

lemma fromisoformat_dt_json:
  "(\<And>t. e = Some t \<Longrightarrow> datetime_ok t) \<Longrightarrow> fromisoformat_json (dt_json e) = Inr e"
  by (cases e) (simp_all add: fromisoformat_json_def dt_json_def fromisoformat_isoformat)

interpretation result: codec AuthResult_to_dict AuthResult_from_dict result_ok
proof unfold_locales
  fix r
  assume "result_ok r"
  then have "fromisoformat_json (dt_json (expires_at r)) = Inr (expires_at r)"
    by (intro fromisoformat_dt_json) (auto simp: result_ok_def split: option.splits)
  then show "AuthResult_from_dict (AuthResult_to_dict r) = Inr r"
    by (simp add: AuthResult_from_dict_def AuthResult_to_dict_def)
qed

section \<open>Errors and round trips of the payload\<close>

lemma only_Exceptions_AwsCredentials [exn_rules]: "only_Exceptions (AwsCredentials a s t e)"
  by (simp add: AwsCredentials_def mk_InputValidationError_def exn_rules is_Exception_iff)

lemma only_Exceptions_parse_expiration [exn_rules]: "only_Exceptions (parse_expiration v)"
proof (cases v)
  case (JStr s)
  have "is_Exception e" if "fromisoformat (replace_Z s) = Inl e" for e
    using that by (auto simp: fromisoformat_def Let_def of_option_def iso_error_def is_Exception_iff
        split: if_splits option.splits)
  then show ?thesis
    using JStr by (auto simp: parse_expiration_def intro!: exn_rules split: sum.split)
qed (auto simp: parse_expiration_def attribute_error_def is_Exception_iff intro!: exn_rules)

lemma only_Exceptions_from_dict [exn_rules]: "only_Exceptions (AwsCredentials_from_dict d)"
  unfolding AwsCredentials_from_dict_def by (intro exn_rules)

lemma only_Exceptions_read_payload: "only_Exceptions (read_payload r h)"
  unfolding read_payload_def decode_payload_def AuthPayload_def
  by (auto intro!: exn_rules simp: mk_InputValidationError_def is_Exception_iff)

text \<open>The wire format of a payload composes the JSON codec with the base64 one.\<close>

definition decode_json_bytes :: "bytes \<Rightarrow> json res" where
  "decode_json_bytes b = bind_r (decode_utf8 b) json_loads"

interpretation wire: codec_pair json_dumps decode_json_bytes json_ok b64encode b64decode "\<lambda>_. True"
  by unfold_locales
    (simp_all add: decode_json_bytes_def decode_utf8_def str_ok_ascii is_ascii_json_dumps json_loads_dumps)

lemma decode_payload_wire: "json_ok v \<Longrightarrow> decode_payload (payload_wire v) = Inr v"
  using wire.both.dec_enc [of v]
  by (simp add: decode_payload_def payload_wire_def decode_json_bytes_def [abs_def])

lemma from_contents_wire:
  assumes "json_ok (payload_dict a s t e arn)" "truthy a" "truthy s" "arn \<noteq> []"
  shows "from_contents (payload_wire (payload_dict a s t e arn)) host =
    Inr \<lparr>raw = payload_wire (payload_dict a s t e arn),
         credentials = \<lparr>access_key_id = a, secret_access_key = s, session_token = t, expiration = None\<rparr>,
         secret_arn = JStr arn, target_host = host\<rparr>"
  using assms
  by (simp add: from_contents_def read_payload_def decode_payload_wire)
    (simp add: payload_dict_def AwsCredentials_from_dict_def parse_expiration_def AwsCredentials_def
      AuthPayload_def)

text \<open>
  C20: whatever a client sends, \<open>AuthPayload.from_contents\<close> either accepts it, with non-empty keys
  and secret ARN, or raises \<open>PayloadError\<close> and nothing else.
\<close>

theorem from_contents_total:
  "case from_contents raw_payload host of
     Inl e \<Rightarrow> \<exists>m. e = PayloadError m
   | Inr p \<Rightarrow> raw p = raw_payload \<and> target_host p = host \<and> truthy (secret_arn p)
             \<and> credentials_is_valid (credentials p)"
proof (cases "read_payload raw_payload host")
  case (Inl e)
  then show ?thesis
    using only_ExceptionsD [OF only_Exceptions_read_payload Inl] by (simp add: from_contents_def)
next
  case (Inr p)
  then show ?thesis
    by (auto simp: from_contents_def read_payload_def bind_r_Inr_iff AuthPayload_def
        AwsCredentials_from_dict_def AwsCredentials_def credentials_is_valid_def split: if_splits)
qed

lemma in_set_tlD: "x \<in> set (tl xs) \<Longrightarrow> x \<in> set xs"
  by (cases xs) auto

text \<open>
  C29: a payload made by \<open>encode_payload\<close> reads back with the caller's keys and secret ARN and with
  no expiration: the writer puts the expiration beside the credentials, the reader looks for it
  inside them.
\<close>

theorem encode_payload_from_contents:
  assumes "encode_payload creds arn = Inr wire" "arn \<noteq> []" "str_ok False arn"
    and "map_of creds ''AccessKeyId'' = Some (CredJson a)" "truthy a" "json_ok a"
    and "map_of creds ''SecretAccessKey'' = Some (CredJson s)" "truthy s" "json_ok s"
    and "map_of creds ''SessionToken'' = Some (CredJson t)" "json_ok t"
    and "map_of creds ''Expiration'' = Some (CredTime x)"
  shows "from_contents wire host =
    Inr \<lparr>raw = wire,
         credentials = \<lparr>access_key_id = a, secret_access_key = s, session_token = t, expiration = None\<rparr>,
         secret_arn = JStr arn, target_host = host\<rparr>"
proof -
  let ?e = "JStr (replace_first_T (isoformat x))"
  have "is_ascii (isoformat x)"
    using isoformat_ascii [of x] by (simp add: is_ascii_def list_all_iff)
  then have "is_ascii (replace_first_T (isoformat x))"
    unfolding replace_first_T_def is_ascii_def
    by (auto dest!: set_takeWhileD dest: in_set_tlD set_dropWhileD)
  then have "json_ok (payload_dict a s t ?e arn)"
    using assms by (simp add: payload_dict_def str_ok_ascii)
  moreover have "wire = payload_wire (payload_dict a s t ?e arn)"
    using assms by (simp add: encode_payload_def cred_item_def cred_json_def)
  ultimately show ?thesis
    using from_contents_wire assms by simp
qed

definition demo_creds :: "(string \<times> cred_value) list" where
  "demo_creds = [(''AccessKeyId'', CredJson (JStr ''AKIA'')), (''SecretAccessKey'', CredJson (JStr ''S'')),
     (''SessionToken'', CredJson (JStr ''T'')), (''Expiration'', CredTime (utc_datetime 0))]"

theorem encode_payload_from_contents_witness:
  "\<exists>wire p. encode_payload demo_creds ''arn:x'' = Inr wire
     \<and> from_contents wire (Some ''h'') = Inr p \<and> expiration (credentials p) = None"
proof -
  obtain wire where w: "encode_payload demo_creds ''arn:x'' = Inr wire"
    by (simp add: encode_payload_def cred_item_def demo_creds_def)
  show ?thesis
    using encode_payload_from_contents [OF w, of "JStr ''AKIA''" "JStr ''S''" "JStr ''T''"
        "utc_datetime 0" "Some ''h''"] w
    by (simp add: demo_creds_def str_ok_ascii)
qed

end
