(* ===== verification/Secrets.thy ===== *)
theory Secrets
  imports Models
begin

text \<open>
  The typed secrets of \<open>models.py\<close> and \<open>services/secret_validation_service.py\<close>: what a Secrets
  Manager value means, and the host restriction.  The pydantic models are written out as the
  validators their field declarations describe.  \<open>lax_int\<close> stands for pydantic's coercion of a
  JSON value to an integer, which is not part of this repository.
\<close>

section \<open>The secret types\<close>

datatype secret =
    SecretsManagerAuthPayload (stored_key: string) (static_host: "string option")
  | AnthropicWifSecret (mint_host: string) (mint_role_arn: string) (federation_rule_id: string)
      (organization_id: string) (service_account_id: string) (workspace_id: "string option")
      (mint_audience: string)
  | OpenAiWifSecret (mint_host: string) (mint_role_arn: string) (identity_provider_id: string)
      (service_account_id: string) (mint_audience: string)
  | OpenRouterWifSecret (mint_host: string) (mint_role_arn: string) (federation_policy_id: string)
      (mint_audience: string)
  | GcpWifSecret (mint_host: string) (mint_role_arn: string) (mint_audience: string)
      (service_account: string) (scopes: "string list") (token_lifetime_seconds: int)

fun secret_host :: "secret \<Rightarrow> string option" where
  "secret_host (SecretsManagerAuthPayload k h) = h"
| "secret_host s = Some (mint_host s)"

text \<open>\<open>isinstance(secret, MintSecretBase)\<close>.\<close>

fun is_mint_secret :: "secret \<Rightarrow> bool" where
  "is_mint_secret (SecretsManagerAuthPayload k h) = False"
| "is_mint_secret _ = True"

definition OPENAI_API_AUDIENCE :: string where
  "OPENAI_API_AUDIENCE = ''https://api.openai.com/v1''"

definition OPENROUTER_API_AUDIENCE :: string where
  "OPENROUTER_API_AUDIENCE = ''https://openrouter.ai/api/v1''"

definition ANTHROPIC_API_AUDIENCE :: string where
  "ANTHROPIC_API_AUDIENCE = ''https://api.anthropic.com''"

definition GCP_CLOUD_PLATFORM_SCOPE :: string where
  "GCP_CLOUD_PLATFORM_SCOPE = ''https://www.googleapis.com/auth/cloud-platform''"

section \<open>Patterns\<close>

text \<open>\<open>^[A-Za-z0-9_-]+$\<close>\<close>

definition OPENAI_ID_PATTERN :: "string \<Rightarrow> bool" where
  "OPENAI_ID_PATTERN s \<longleftrightarrow> s \<noteq> [] \<and> list_all (\<lambda>c. is_alnum c \<or> c = CHR ''_'' \<or> c = CHR ''-'') s"

text \<open>The characters \<open>\s\<close> matches in a pattern, and \<open>[^/\s]+\<close>.\<close>

definition regex_spaces :: "string list" where
  "regex_spaces = filter (\<lambda>w. w \<notin> {[CHR 0x1C], [CHR 0x1D], [CHR 0x1E], [CHR 0x1F]}) py_whitespace"

definition no_space :: "string \<Rightarrow> bool" where
  "no_space s \<longleftrightarrow> list_all (\<lambda>w. \<not> py_contains w s) regex_spaces"

definition path_segment :: "string \<Rightarrow> bool" where
  "path_segment s \<longleftrightarrow> s \<noteq> [] \<and> CHR ''/'' \<notin> set s \<and> no_space s"

text \<open>\<open>\d+\<close>: decimal digits of any script.\<close>

definition all_digits :: "string \<Rightarrow> bool" where
  "all_digits s \<longleftrightarrow> s \<noteq> [] \<and> list_all is_decimal_cp (cps_of s)"

definition GCP_POOL_PROVIDER_PATTERN :: "string \<Rightarrow> bool" where
  "GCP_POOL_PROVIDER_PATTERN s \<longleftrightarrow>
     (case py_split CHR ''/'' s of
        [e1, e2, h, p, n, l, g, w, pool, pr, prov] \<Rightarrow>
          e1 = [] \<and> e2 = [] \<and> h = ''iam.googleapis.com'' \<and> p = ''projects'' \<and> all_digits n
          \<and> l = ''locations'' \<and> g = ''global'' \<and> w = ''workloadIdentityPools''
          \<and> path_segment pool \<and> pr = ''providers'' \<and> path_segment prov
      | _ \<Rightarrow> False)"

text \<open>\<open>^[A-Za-z0-9._+-]+@[A-Za-z0-9.-]+$\<close>\<close>

definition GCP_SERVICE_ACCOUNT_PATTERN :: "string \<Rightarrow> bool" where
  "GCP_SERVICE_ACCOUNT_PATTERN s \<longleftrightarrow>
     (case py_split CHR ''@'' s of
        [user, domain] \<Rightarrow>
          user \<noteq> [] \<and> list_all (\<lambda>c. is_alnum c \<or> c \<in> set ''._+-'') user
          \<and> domain \<noteq> [] \<and> list_all (\<lambda>c. is_alnum c \<or> c \<in> set ''.-'') domain
      | _ \<Rightarrow> False)"

section \<open>Field validators\<close>

text \<open>\<open>None\<close> is a \<open>ValidationError\<close>.  A missing field takes its default, if it has one.\<close>

definition str_field :: "(string \<Rightarrow> bool) \<Rightarrow> string option \<Rightarrow> json option \<Rightarrow> string option" where
  "str_field ok dflt v =
     (case v of
        None \<Rightarrow> dflt
      | Some (JStr s) \<Rightarrow> if ok s then Some s else None
      | Some _ \<Rightarrow> None)"

definition opt_str_field :: "(string \<Rightarrow> bool) \<Rightarrow> json option \<Rightarrow> string option option" where
  "opt_str_field ok v =
     (case v of
        None \<Rightarrow> Some None
      | Some JNull \<Rightarrow> Some None
      | Some (JStr s) \<Rightarrow> if ok s then Some (Some s) else None
      | Some _ \<Rightarrow> None)"

definition nonempty :: "string \<Rightarrow> bool" where
  "nonempty s \<longleftrightarrow> s \<noteq> []"

definition json_strs :: "json list \<Rightarrow> string list option" where
  "json_strs xs =
     foldr (\<lambda>v acc. case (v, acc) of (JStr s, Some ss) \<Rightarrow> if s = [] then None else Some (s # ss)
                    | _ \<Rightarrow> None) xs (Some [])"

definition scopes_field :: "json option \<Rightarrow> string list option" where
  "scopes_field v =
     (case v of
        None \<Rightarrow> Some [GCP_CLOUD_PLATFORM_SCOPE]
      | Some (JList xs) \<Rightarrow> if xs = [] then None else json_strs xs
      | Some _ \<Rightarrow> None)"

definition lifetime_field :: "(json \<Rightarrow> int option) \<Rightarrow> json option \<Rightarrow> int option" where
  "lifetime_field lax_int v =
     (case v of
        None \<Rightarrow> Some 3600
      | Some j \<Rightarrow>
          (case lax_int j of
             None \<Rightarrow> None | Some n \<Rightarrow> if 600 \<le> n \<and> n \<le> 3600 then Some n else None))"

text \<open>\<open>extra="forbid"\<close>\<close>

definition only_keys :: "string list \<Rightarrow> (string \<times> json) list \<Rightarrow> bool" where
  "only_keys ks d \<longleftrightarrow> list_all (\<lambda>p. fst p \<in> set ks) d"

definition static_fields :: "(string \<times> json) list \<Rightarrow> secret option" where
  "static_fields d =
     Option.bind (str_field (\<lambda>_. True) None
        (case map_of d ''secret'' of None \<Rightarrow> map_of d ''api_key'' | v \<Rightarrow> v)) (\<lambda>k.
     Option.bind (opt_str_field (\<lambda>_. True) (map_of d ''host'')) (\<lambda>h.
       Some (SecretsManagerAuthPayload k h)))"

definition anthropic_fields :: "(string \<times> json) list \<Rightarrow> secret option" where
  "anthropic_fields d =
     (if only_keys [''type'', ''host'', ''federation_role_arn'', ''federation_rule_id'',
          ''organization_id'', ''service_account_id'', ''workspace_id'', ''audience''] d then
        Option.bind (str_field nonempty None (map_of d ''host'')) (\<lambda>h.
        Option.bind (str_field nonempty None (map_of d ''federation_role_arn'')) (\<lambda>r.
        Option.bind (str_field nonempty None (map_of d ''federation_rule_id'')) (\<lambda>f.
        Option.bind (str_field nonempty None (map_of d ''organization_id'')) (\<lambda>g.
        Option.bind (str_field nonempty None (map_of d ''service_account_id'')) (\<lambda>s.
        Option.bind (opt_str_field nonempty (map_of d ''workspace_id'')) (\<lambda>w.
        Option.bind (str_field nonempty (Some ANTHROPIC_API_AUDIENCE) (map_of d ''audience'')) (\<lambda>a.
          Some (AnthropicWifSecret h r f g s w a))))))))
      else None)"

definition openai_fields :: "(string \<times> json) list \<Rightarrow> secret option" where
  "openai_fields d =
     (if only_keys [''type'', ''host'', ''federation_role_arn'', ''identity_provider_id'',
          ''service_account_id'', ''audience''] d then
        Option.bind (str_field nonempty None (map_of d ''host'')) (\<lambda>h.
        Option.bind (str_field nonempty None (map_of d ''federation_role_arn'')) (\<lambda>r.
        Option.bind (str_field OPENAI_ID_PATTERN None (map_of d ''identity_provider_id'')) (\<lambda>i.
        Option.bind (str_field OPENAI_ID_PATTERN None (map_of d ''service_account_id'')) (\<lambda>s.
        Option.bind (str_field nonempty (Some OPENAI_API_AUDIENCE) (map_of d ''audience'')) (\<lambda>a.
          Some (OpenAiWifSecret h r i s a))))))
      else None)"

definition openrouter_fields :: "(string \<times> json) list \<Rightarrow> secret option" where
  "openrouter_fields d =
     (if only_keys [''type'', ''host'', ''federation_role_arn'', ''federation_policy_id'', ''audience''] d
      then
        Option.bind (str_field nonempty None (map_of d ''host'')) (\<lambda>h.
        Option.bind (str_field nonempty None (map_of d ''federation_role_arn'')) (\<lambda>r.
        Option.bind (str_field nonempty None (map_of d ''federation_policy_id'')) (\<lambda>p.
        Option.bind (str_field nonempty (Some OPENROUTER_API_AUDIENCE) (map_of d ''audience'')) (\<lambda>a.
          Some (OpenRouterWifSecret h r p a)))))
      else None)"

definition gcp_fields :: "(json \<Rightarrow> int option) \<Rightarrow> (string \<times> json) list \<Rightarrow> secret option" where
  "gcp_fields lax_int d =
     (if only_keys [''type'', ''host'', ''federation_role_arn'', ''audience'', ''service_account'',
          ''scopes'', ''token_lifetime_seconds''] d then
        Option.bind (str_field nonempty None (map_of d ''host'')) (\<lambda>h.
        Option.bind (str_field nonempty None (map_of d ''federation_role_arn'')) (\<lambda>r.
        Option.bind (str_field GCP_POOL_PROVIDER_PATTERN None (map_of d ''audience'')) (\<lambda>a.
        Option.bind (str_field GCP_SERVICE_ACCOUNT_PATTERN None (map_of d ''service_account'')) (\<lambda>s.
        Option.bind (scopes_field (map_of d ''scopes'')) (\<lambda>sc.
        Option.bind (lifetime_field lax_int (map_of d ''token_lifetime_seconds'')) (\<lambda>t.
          Some (GcpWifSecret h r a s sc t)))))))
      else None)"

text \<open>The union discriminated on \<open>type\<close>.\<close>

definition typed_secret :: "(json \<Rightarrow> int option) \<Rightarrow> (string \<times> json) list \<Rightarrow> secret option" where
  "typed_secret lax_int d =
     (case map_of d ''type'' of
        Some (JStr t) \<Rightarrow>
          if t = ''static'' then static_fields d
          else if t = ''anthropic_wif'' then anthropic_fields d
          else if t = ''openai_wif'' then openai_fields d
          else if t = ''openrouter_wif'' then openrouter_fields d
          else if t = ''gcp_wif'' then gcp_fields lax_int d
          else None
      | _ \<Rightarrow> None)"

section \<open>parse_secret and validate_secret\<close>

definition has_key :: "string \<Rightarrow> (string \<times> json) list \<Rightarrow> bool" where
  "has_key k d \<longleftrightarrow> map_of d k \<noteq> None"

definition parse_secret :: "(json \<Rightarrow> int option) \<Rightarrow> string \<Rightarrow> secret res" where
  "parse_secret lax_int secret_string =
     (case json_loads secret_string of
        Inl e \<Rightarrow>
          if isinstance e [JSONDecodeErrorC]
          then Inr (SecretsManagerAuthPayload secret_string None) else Inl e
      | Inr (JDict d) \<Rightarrow>
          if \<not> has_key ''type'' d then
            (if has_key ''federation_role_arn'' d
             then Inl (AuthenticationError ''Secret names a federation role but has no type'')
             else Inr (case static_fields d of
                 Some s \<Rightarrow> s | None \<Rightarrow> SecretsManagerAuthPayload secret_string None))
          else
            of_option (AuthenticationError ''Secret has an unsupported type or invalid fields'')
              (typed_secret lax_int d)
      | Inr _ \<Rightarrow> Inr (SecretsManagerAuthPayload secret_string None))"

definition validate_secret :: "(json \<Rightarrow> int option) \<Rightarrow> string \<Rightarrow> string option \<Rightarrow> secret res" where
  "validate_secret lax_int secret_string host =
     bind_r (parse_secret lax_int secret_string) (\<lambda>s.
       (case secret_host s of
          Some (c # h) \<Rightarrow>
            if host = None \<or> host = Some []
            then Inl (AuthenticationError ''API key has host restriction but target host unknown'')
            else if host \<noteq> Some (c # h)
            then Inl (AuthenticationError ''API key is not valid for target host'')
            else Inr s
        | _ \<Rightarrow> Inr s))"

section \<open>What a validated secret is\<close>

fun secret_ok :: "secret \<Rightarrow> bool" where
  "secret_ok (SecretsManagerAuthPayload k h) = True"
| "secret_ok (AnthropicWifSecret h r f g s w a) =
     (h \<noteq> [] \<and> r \<noteq> [] \<and> f \<noteq> [] \<and> g \<noteq> [] \<and> s \<noteq> [] \<and> w \<noteq> Some [] \<and> a \<noteq> [])"
| "secret_ok (OpenAiWifSecret h r i s a) =
     (h \<noteq> [] \<and> r \<noteq> [] \<and> OPENAI_ID_PATTERN i \<and> OPENAI_ID_PATTERN s \<and> a \<noteq> [])"
| "secret_ok (OpenRouterWifSecret h r p a) = (h \<noteq> [] \<and> r \<noteq> [] \<and> p \<noteq> [] \<and> a \<noteq> [])"
| "secret_ok (GcpWifSecret h r a s sc t) =
     (h \<noteq> [] \<and> r \<noteq> [] \<and> GCP_POOL_PROVIDER_PATTERN a \<and> GCP_SERVICE_ACCOUNT_PATTERN s
      \<and> sc \<noteq> [] \<and> [] \<notin> set sc \<and> 600 \<le> t \<and> t \<le> 3600)"

lemma str_fieldD: "str_field ok dflt v = Some s \<Longrightarrow> ok s \<or> v = None \<and> dflt = Some s"
  by (auto simp: str_field_def split: option.splits json.splits if_splits)

lemma opt_str_fieldD: "opt_str_field ok v = Some (Some s) \<Longrightarrow> ok s"
  by (auto simp: opt_str_field_def split: option.splits json.splits if_splits)

lemma json_strs_nonempty: "json_strs xs = Some ss \<Longrightarrow> length ss = length xs \<and> [] \<notin> set ss"
  by (induction xs arbitrary: ss)
    (auto simp: json_strs_def split: option.splits json.splits if_splits)

lemma scopes_fieldD: "scopes_field v = Some ss \<Longrightarrow> ss \<noteq> [] \<and> [] \<notin> set ss"
  by (auto simp: scopes_field_def GCP_CLOUD_PLATFORM_SCOPE_def
      split: option.splits json.splits if_splits dest!: json_strs_nonempty)

lemma lifetime_fieldD: "lifetime_field li v = Some n \<Longrightarrow> 600 \<le> n \<and> n \<le> 3600"
  by (auto simp: lifetime_field_def split: option.splits if_splits)

lemmas field_defs = nonempty_def OPENAI_API_AUDIENCE_def OPENROUTER_API_AUDIENCE_def
  ANTHROPIC_API_AUDIENCE_def

lemma anthropic_ok: "anthropic_fields d = Some s \<Longrightarrow> secret_ok s \<and> is_mint_secret s"
  unfolding anthropic_fields_def
  by (auto split: if_splits bind_splits dest!: str_fieldD simp: field_defs opt_str_field_def
      split: option.splits json.splits)

lemma openai_ok: "openai_fields d = Some s \<Longrightarrow> secret_ok s \<and> is_mint_secret s"
  unfolding openai_fields_def
  by (auto split: if_splits bind_splits dest!: str_fieldD simp: field_defs)

lemma openrouter_ok: "openrouter_fields d = Some s \<Longrightarrow> secret_ok s \<and> is_mint_secret s"
  unfolding openrouter_fields_def
  by (auto split: if_splits bind_splits dest!: str_fieldD simp: field_defs)

lemma gcp_ok: "gcp_fields li d = Some s \<Longrightarrow> secret_ok s \<and> is_mint_secret s"
  unfolding gcp_fields_def
  by (auto split: if_splits bind_splits dest!: str_fieldD scopes_fieldD lifetime_fieldD simp: field_defs)

lemma static_ok: "static_fields d = Some s \<Longrightarrow> secret_ok s \<and> \<not> is_mint_secret s"
  unfolding static_fields_def by (auto split: bind_splits)

lemma typed_secret_ok:
  "typed_secret li d = Some s \<Longrightarrow>
     secret_ok s \<and> (is_mint_secret s \<longleftrightarrow> map_of d ''type'' \<noteq> Some (JStr ''static''))"
  unfolding typed_secret_def
  by (auto split: option.splits json.splits if_splits
      dest: static_ok anthropic_ok openai_ok openrouter_ok gcp_ok)

text \<open>
  C5: a JSON object that has a \<open>type\<close>, or names a federation role, is never used verbatim as an
  API key: it is refused with \<open>AuthenticationError\<close>, or it is a fully validated secret of the
  named type, and it is a stored key only if the type is \<open>static\<close>.
\<close>

theorem typed_object_never_forwarded:
  assumes "json_loads text = Inr (JDict d)" "has_key ''type'' d \<or> has_key ''federation_role_arn'' d"
  shows "case parse_secret li text of
      Inl e \<Rightarrow> \<exists>m. e = AuthenticationError m
    | Inr s \<Rightarrow> typed_secret li d = Some s \<and> secret_ok s
        \<and> (is_mint_secret s \<longleftrightarrow> map_of d ''type'' \<noteq> Some (JStr ''static''))"
  using assms typed_secret_ok [of li d]
  by (cases "typed_secret li d") (auto simp: parse_secret_def)

definition gcp_text :: string where
  "gcp_text = json_dumps (JDict [(''type'', JStr ''gcp_wif''), (''host'', JStr ''h''),
     (''federation_role_arn'', JStr ''r''),
     (''audience'', JStr ''//iam.googleapis.com/projects/12/locations/global/workloadIdentityPools/p/providers/q''),
     (''service_account'', JStr ''a@b.c''), (''token_lifetime_seconds'', JInt 600)])"

theorem typed_object_never_forwarded_witness:
  "\<exists>d. json_loads gcp_text = Inr (JDict d) \<and> has_key ''type'' d
     \<and> (case parse_secret (\<lambda>v. case v of JInt n \<Rightarrow> Some n | _ \<Rightarrow> None) gcp_text of
          Inl e \<Rightarrow> \<exists>m. e = AuthenticationError m
        | Inr s \<Rightarrow> secret_ok s \<and> is_mint_secret s)"
proof -
  let ?d = "[(''type'', JStr ''gcp_wif''), (''host'', JStr ''h''), (''federation_role_arn'', JStr ''r''),
     (''audience'', JStr ''//iam.googleapis.com/projects/12/locations/global/workloadIdentityPools/p/providers/q''),
     (''service_account'', JStr ''a@b.c''), (''token_lifetime_seconds'', JInt 600)]"
  have l: "json_loads gcp_text = Inr (JDict ?d)"
    unfolding gcp_text_def by (rule json_loads_dumps) (simp add: str_ok_ascii)
  moreover have t: "has_key ''type'' ?d" by (simp add: has_key_def)
  ultimately show ?thesis
    using typed_object_never_forwarded [OF l, of "\<lambda>v. case v of JInt n \<Rightarrow> Some n | _ \<Rightarrow> None"]
    by (intro exI [of _ ?d]) (auto split: sum.splits)
qed

text \<open>
  C30: \<open>validate_secret\<close> accepts a value exactly when it parses and either names no host or names
  the host the proxy is calling; in every other case it raises.
\<close>

theorem validate_secret_host:
  "validate_secret li text host = Inr s \<longleftrightarrow>
     parse_secret li text = Inr s
     \<and> (secret_host s = None \<or> secret_host s = Some [] \<or> secret_host s = host)"
proof (cases "parse_secret li text")
  case (Inr t)
  then show ?thesis
  proof (cases "secret_host t")
    case (Some h)
    then show ?thesis
      using Inr by (cases h; cases host) (auto simp: validate_secret_def)
  qed (auto simp: validate_secret_def)
qed (simp add: validate_secret_def)

text \<open>
  Text that is not JSON is an unrestricted key, used verbatim for every target host.
\<close>

theorem plaintext_secret:
  assumes "json_loads text = Inl json_decode_error"
  shows "validate_secret li text host = Inr (SecretsManagerAuthPayload text None)"
  using assms by (simp add: validate_secret_def parse_secret_def json_decode_error_def)

theorem plaintext_secret_witness:
  "json_loads ''sk-abc'' = Inl json_decode_error
     \<and> validate_secret (\<lambda>_. None) ''sk-abc'' (Some ''h'') = Inr (SecretsManagerAuthPayload ''sk-abc'' None)"
proof -
  have "json_loads ''sk-abc'' = Inl json_decode_error" by code_simp
  then show ?thesis using plaintext_secret by blast
qed

end
