(* ===== verification/Config.thy ===== *)
theory Config
  imports Codec
begin

text \<open>
  \<open>config.py\<close>: the settings, their field constraints, and \<open>get_config\<close>, which reads them from
  the environment.  The environment is an association list of variables.
\<close>

section \<open>Settings\<close>

record redis_config =
  redis_host :: string
  redis_port :: int
  redis_password :: "string option"
  cache_duration :: int
  log_ttl :: int
  redis_max_connections :: int
  use_tls :: bool

record kinesis_config =
  metadata_stream_name :: "string option"
  request_headers_stream_name :: "string option"
  request_body_stream_name :: "string option"
  request_trailers_stream_name :: "string option"
  response_headers_stream_name :: "string option"
  response_body_stream_name :: "string option"
  response_trailers_stream_name :: "string option"
  max_record_size :: int

record aws_config =
  xray_daemon_address :: string
  xray_log_group :: string
  xray_extra_log_groups :: "string option"
  xray_enabled :: bool
  endpoint_url :: "string option"

record relay_config =
  max_message_size :: int
  max_connection_lifetime :: int
  relay_max_connections :: int
  drain_timeout :: int

record federation_config =
  allowed_account_ids :: "string list"
  role_path_prefix :: string
  sts_endpoint_url :: "string option"

record config =
  cfg_redis :: redis_config
  cfg_aws :: aws_config
  cfg_kinesis :: kinesis_config
  cfg_relay :: relay_config
  cfg_federation :: federation_config
  log_level :: string
  api_key_header :: string
  api_key_prefix :: string

definition DEFAULT_FEDERATION_ROLE_PATH_PREFIX :: string where
  "DEFAULT_FEDERATION_ROLE_PATH_PREFIX = ''/portunus-fed/''"

section \<open>Validators\<close>

definition validation_error :: "string \<Rightarrow> exn" where
  "validation_error m = PyError PydanticValidationErrorC ''ValidationError'' m"

definition check :: "bool \<Rightarrow> string \<Rightarrow> 'a \<Rightarrow> 'a res" where
  "check ok m x = (if ok then Inr x else Inl (validation_error m))"

text \<open>\<open>str.isdigit\<close> also admits the digits that are not decimal, such as superscripts.\<close>

definition other_digit_ranges :: "(int \<times> int) list" where
  "other_digit_ranges =
     [(178, 179), (185, 185), (4969, 4977), (6618, 6618), (8304, 8304), (8308, 8313), (8320, 8329),
      (9312, 9320), (9332, 9340), (9352, 9360), (9450, 9450), (9461, 9469), (9471, 9471),
      (10102, 10110), (10112, 10120), (10122, 10130), (68160, 68163), (69216, 69224),
      (69714, 69722), (127232, 127242)]"

definition is_digit_cp :: "nat \<Rightarrow> bool" where
  "is_digit_cp cp \<longleftrightarrow> is_decimal_cp cp \<or> list_ex (\<lambda>(a, b). a \<le> int cp \<and> int cp \<le> b) other_digit_ranges"

definition py_isdigit :: "string \<Rightarrow> bool" where
  "py_isdigit s \<longleftrightarrow> cps_of s \<noteq> [] \<and> list_all is_digit_cp (cps_of s)"

definition account_id_ok :: "string \<Rightarrow> bool" where
  "account_id_ok a \<longleftrightarrow> py_isdigit a \<and> length (cps_of a) = 12"

definition validate_account_ids :: "string list \<Rightarrow> string list res" where
  "validate_account_ids v = check (list_all account_id_ok v) ''Invalid AWS account ID'' v"

definition validate_role_path_prefix :: "string \<Rightarrow> string res" where
  "validate_role_path_prefix v =
     check (py_startswith v ''/'' \<and> py_endswith v ''/'') ''role_path_prefix must start and end with /'' v"

definition log_levels :: "string list" where
  "log_levels = [''DEBUG'', ''INFO'', ''WARNING'', ''ERROR'', ''CRITICAL'']"

definition validate_log_level :: "string \<Rightarrow> string res" where
  "validate_log_level v = check (py_upper v \<in> set log_levels) ''Log level must be one of'' (py_upper v)"

section \<open>Reading the environment\<close>

type_synonym environ = "(string \<times> string) list"

definition env_get :: "environ \<Rightarrow> string \<Rightarrow> string \<Rightarrow> string" where
  "env_get env k d = (case map_of env k of None \<Rightarrow> d | Some v \<Rightarrow> v)"

definition split_csv :: "string \<Rightarrow> string list" where
  "split_csv s = List.map py_strip (filter (\<lambda>i. py_strip i \<noteq> []) (py_split CHR '','' s))"

text \<open>
  \<open>int(text)\<close>: surrounding white space, one sign, decimal digits of any script with single
  underscores between them.
\<close>

definition decimal_val :: "nat \<Rightarrow> int" where
  "decimal_val cp =
     (case filter (\<lambda>b. b \<le> int cp \<and> int cp < b + 10) decimal_blocks of
        [] \<Rightarrow> 0 | b # _ \<Rightarrow> int cp - b)"

fun int_digits :: "int \<Rightarrow> bool \<Rightarrow> nat list \<Rightarrow> int option" where
  "int_digits acc started [] = (if started then Some acc else None)"
| "int_digits acc started (c # cs) =
     (if is_decimal_cp c then int_digits (acc * 10 + decimal_val c) True cs
      else if c = 95 \<and> started then
        (case cs of d # ds \<Rightarrow> if is_decimal_cp d then int_digits (acc * 10 + decimal_val d) True ds else None
         | [] \<Rightarrow> None)
      else None)"

definition py_int :: "string \<Rightarrow> int res" where
  "py_int s =
     of_option (PyError ValueErrorC ''ValueError'' ''invalid literal for int() with base 10'')
       (case cps_of (py_strip s) of
          c # cs \<Rightarrow>
            if c = 45 then map_option uminus (int_digits 0 False cs)
            else if c = 43 then int_digits 0 False cs
            else int_digits 0 False (c # cs)
        | [] \<Rightarrow> None)"

definition env_int :: "environ \<Rightarrow> string \<Rightarrow> string \<Rightarrow> int res" where
  "env_int env k d = py_int (env_get env k d)"

definition redis_config_of_env :: "environ \<Rightarrow> redis_config res" where
  "redis_config_of_env env =
     bind_r (env_int env ''REDIS_PORT'' ''6379'') (\<lambda>port.
     bind_r (env_int env ''CACHE_DURATION'' ''86400'') (\<lambda>cd.
     bind_r (env_int env ''LOG_TTL'' ''3600'') (\<lambda>ttl.
     bind_r (env_int env ''REDIS_MAX_CONNECTIONS'' ''200'') (\<lambda>mc.
       check (1 \<le> port \<and> port \<le> 65535 \<and> 1 \<le> cd \<and> 1 \<le> ttl \<and> 1 \<le> mc) ''RedisConfig''
         \<lparr>redis_host = env_get env ''REDIS_HOST'' ''localhost'', redis_port = port,
          redis_password = map_of env ''REDIS_PASSWORD'', cache_duration = cd, log_ttl = ttl,
          redis_max_connections = mc,
          use_tls = (py_lower (env_get env ''REDIS_USE_TLS'' ''true'') = ''true'')\<rparr>))))"

definition aws_config_of_env :: "environ \<Rightarrow> aws_config" where
  "aws_config_of_env env =
     \<lparr>xray_daemon_address = env_get env ''AWS_XRAY_DAEMON_ADDRESS'' ''127.0.0.1:2000'',
      xray_log_group = env_get env ''AWS_XRAY_LOG_GROUP'' ''/aws/xray/portunus'',
      xray_extra_log_groups = map_of env ''AWS_XRAY_EXTRA_LOG_GROUPS'',
      xray_enabled = (py_lower (env_get env ''AWS_XRAY_SDK_ENABLED'' ''true'') \<noteq> ''false''),
      endpoint_url = map_of env ''AWS_ENDPOINT_URL''\<rparr>"

definition kinesis_config_of_env :: "environ \<Rightarrow> kinesis_config res" where
  "kinesis_config_of_env env =
     bind_r (env_int env ''KINESIS_MAX_RECORD_SIZE'' ''1000000'') (\<lambda>size.
       check (1000 \<le> size) ''KinesisConfig''
         \<lparr>metadata_stream_name = map_of env ''KINESIS_METADATA_STREAM'',
          request_headers_stream_name = map_of env ''KINESIS_REQUEST_HEADERS_STREAM'',
          request_body_stream_name = map_of env ''KINESIS_REQUEST_BODY_STREAM'',
          request_trailers_stream_name = map_of env ''KINESIS_REQUEST_TRAILERS_STREAM'',
          response_headers_stream_name = map_of env ''KINESIS_RESPONSE_HEADERS_STREAM'',
          response_body_stream_name = map_of env ''KINESIS_RESPONSE_BODY_STREAM'',
          response_trailers_stream_name = map_of env ''KINESIS_RESPONSE_TRAILERS_STREAM'',
          max_record_size = size\<rparr>)"

definition relay_config_of_env :: "environ \<Rightarrow> relay_config res" where
  "relay_config_of_env env =
     bind_r (env_int env ''WS_MAX_MESSAGE_SIZE'' ''10485760'') (\<lambda>ms.
     bind_r (env_int env ''WS_MAX_CONNECTION_LIFETIME'' ''3300'') (\<lambda>lt.
     bind_r (env_int env ''WS_MAX_CONNECTIONS'' ''200'') (\<lambda>mc.
     bind_r (env_int env ''WS_DRAIN_TIMEOUT'' ''10'') (\<lambda>dt.
       check (1024 \<le> ms \<and> 60 \<le> lt \<and> 1 \<le> mc \<and> 0 \<le> dt) ''RelayConfig''
         \<lparr>max_message_size = ms, max_connection_lifetime = lt, relay_max_connections = mc,
          drain_timeout = dt\<rparr>))))"

definition federation_config_of_env :: "environ \<Rightarrow> federation_config res" where
  "federation_config_of_env env =
     bind_r (validate_account_ids (split_csv (env_get env ''FEDERATION_ALLOWED_ACCOUNT_IDS'' ''''))) (\<lambda>ids.
     bind_r (validate_role_path_prefix
       (env_get env ''FEDERATION_ROLE_PATH_PREFIX'' DEFAULT_FEDERATION_ROLE_PATH_PREFIX)) (\<lambda>p.
       Inr \<lparr>allowed_account_ids = ids, role_path_prefix = p,
            sts_endpoint_url = map_of env ''FEDERATION_STS_ENDPOINT_URL''\<rparr>))"

definition get_config :: "environ \<Rightarrow> config res" where
  "get_config env =
     bind_r (redis_config_of_env env) (\<lambda>r.
     bind_r (kinesis_config_of_env env) (\<lambda>k.
     bind_r (relay_config_of_env env) (\<lambda>w.
     bind_r (federation_config_of_env env) (\<lambda>f.
     bind_r (validate_log_level (env_get env ''LOG_LEVEL'' ''INFO'')) (\<lambda>l.
       Inr \<lparr>cfg_redis = r, cfg_aws = aws_config_of_env env, cfg_kinesis = k, cfg_relay = w,
            cfg_federation = f, log_level = l,
            api_key_header = env_get env ''API_KEY_HEADER'' ''authorization'',
            api_key_prefix = env_get env ''API_KEY_PREFIX'' ''Bearer ''\<rparr>)))))"

section \<open>What every loaded configuration satisfies\<close>

definition config_ok :: "config \<Rightarrow> bool" where
  "config_ok c \<longleftrightarrow>
     1 \<le> redis_port (cfg_redis c) \<and> redis_port (cfg_redis c) \<le> 65535
     \<and> 1 \<le> cache_duration (cfg_redis c) \<and> 1 \<le> log_ttl (cfg_redis c)
     \<and> 1 \<le> redis_max_connections (cfg_redis c)
     \<and> 1000 \<le> max_record_size (cfg_kinesis c)
     \<and> 1024 \<le> max_message_size (cfg_relay c) \<and> 60 \<le> max_connection_lifetime (cfg_relay c)
     \<and> 1 \<le> relay_max_connections (cfg_relay c) \<and> 0 \<le> drain_timeout (cfg_relay c)
     \<and> list_all account_id_ok (allowed_account_ids (cfg_federation c))
     \<and> py_startswith (role_path_prefix (cfg_federation c)) ''/''
     \<and> py_endswith (role_path_prefix (cfg_federation c)) ''/''
     \<and> log_level c \<in> set log_levels"

lemma check_Inr_iff [simp]: "check b m x = Inr y \<longleftrightarrow> b \<and> x = y"
  by (simp add: check_def)

lemma redis_config_ok:
  "redis_config_of_env env = Inr r \<Longrightarrow> 1 \<le> redis_port r \<and> redis_port r \<le> 65535
     \<and> 1 \<le> cache_duration r \<and> 1 \<le> log_ttl r \<and> 1 \<le> redis_max_connections r"
  by (auto simp: redis_config_of_env_def bind_r_Inr_iff)

lemma kinesis_config_ok: "kinesis_config_of_env env = Inr k \<Longrightarrow> 1000 \<le> max_record_size k"
  by (auto simp: kinesis_config_of_env_def bind_r_Inr_iff)

lemma relay_config_ok:
  "relay_config_of_env env = Inr w \<Longrightarrow> 1024 \<le> max_message_size w \<and> 60 \<le> max_connection_lifetime w
     \<and> 1 \<le> relay_max_connections w \<and> 0 \<le> drain_timeout w"
  by (auto simp: relay_config_of_env_def bind_r_Inr_iff)

lemma federation_config_ok:
  "federation_config_of_env env = Inr f \<Longrightarrow> list_all account_id_ok (allowed_account_ids f)
     \<and> py_startswith (role_path_prefix f) ''/'' \<and> py_endswith (role_path_prefix f) ''/''"
  by (auto simp: federation_config_of_env_def bind_r_Inr_iff validate_account_ids_def
      validate_role_path_prefix_def)

text \<open>
  Every configuration that loads is within its bounds: ports, durations, pool and record sizes,
  twelve-digit account ids, a role path between slashes, a known log level.
\<close>

theorem get_config_ok:
  assumes "get_config env = Inr c"
  shows "config_ok c"
  using assms
  by (auto simp: get_config_def bind_r_Inr_iff config_ok_def validate_log_level_def
      dest!: redis_config_ok kinesis_config_ok relay_config_ok federation_config_ok)

lemma default_ints:
  "py_int ''6379'' = Inr 6379" "py_int ''86400'' = Inr 86400" "py_int ''3600'' = Inr 3600"
  "py_int ''200'' = Inr 200" "py_int ''1000000'' = Inr 1000000" "py_int ''10485760'' = Inr 10485760"
  "py_int ''3300'' = Inr 3300" "py_int ''10'' = Inr 10"
  by code_simp+

lemma default_checks:
  "split_csv '''' = []"
  "py_startswith DEFAULT_FEDERATION_ROLE_PATH_PREFIX ''/''"
  "py_endswith DEFAULT_FEDERATION_ROLE_PATH_PREFIX ''/''"
  "py_upper ''INFO'' \<in> set log_levels"
  by code_simp+

text \<open>With an empty environment the defaults of \<open>get_config\<close> are loaded.\<close>

lemma get_config_defaults:
  "\<exists>c. get_config [] = Inr c \<and> cache_duration (cfg_redis c) = 86400
     \<and> allowed_account_ids (cfg_federation c) = []"
  by (simp add: get_config_def redis_config_of_env_def kinesis_config_of_env_def
      relay_config_of_env_def federation_config_of_env_def env_int_def env_get_def default_ints
      default_checks validate_account_ids_def validate_role_path_prefix_def validate_log_level_def
      check_def)

theorem get_config_ok_witness:
  "\<exists>c. get_config [] = Inr c \<and> config_ok c \<and> cache_duration (cfg_redis c) = 86400
     \<and> allowed_account_ids (cfg_federation c) = []"
  using get_config_defaults get_config_ok [of "[]"] by blast

end
