(* ===== verification/Sha256.thy ===== *)
theory Sha256
  imports Prelude "HOL-Library.Word"
begin

text \<open>
  \<open>hashlib.sha256(b).hexdigest()\<close> of the standard library, on 32-bit words that wrap: the cache
  keys are made with it.  No proof below depends on what the digest is, only on what is hashed.
\<close>

unbundle bit_operations_syntax

text \<open>
  The constants as FIPS 180-4 defines them: the first 32 bits of the fractional parts of the cube
  roots of the first 64 primes, and of the square roots of the first eight; \<open>root_bits e b n\<close> is the
  integer root of degree \<open>e\<close> of \<open>n\<close>, found bit by bit, and the word keeps its low 32 bits.
\<close>

primrec root_bits :: "nat \<Rightarrow> nat \<Rightarrow> nat \<Rightarrow> nat \<Rightarrow> nat" where
  "root_bits e 0 n r = r"
| "root_bits e (Suc b) n r = root_bits e b n (if (r + 2 ^ b) ^ e \<le> n then r + 2 ^ b else r)"

definition root_word :: "nat \<Rightarrow> nat \<Rightarrow> 32 word" where
  "root_word e p = of_nat (root_bits e 40 (p * 2 ^ (32 * e)) 0)"

definition sha_primes :: "nat list" where
  "sha_primes = filter (\<lambda>p. list_all (\<lambda>d. p mod d \<noteq> 0) [2..<p]) [2..<312]"

definition sha_k :: "32 word list" where
  "sha_k = List.map (root_word 3) sha_primes"

definition sha_init :: "32 word list" where
  "sha_init = List.map (root_word 2) (take 8 sha_primes)"

definition rotr :: "nat \<Rightarrow> 32 word \<Rightarrow> 32 word" where
  "rotr n w = drop_bit n w OR push_bit (32 - n) w"

definition small_sigma :: "nat \<Rightarrow> nat \<Rightarrow> nat \<Rightarrow> 32 word \<Rightarrow> 32 word" where
  "small_sigma a b c w = rotr a w XOR rotr b w XOR drop_bit c w"

definition big_sigma :: "nat \<Rightarrow> nat \<Rightarrow> nat \<Rightarrow> 32 word \<Rightarrow> 32 word" where
  "big_sigma a b c w = rotr a w XOR rotr b w XOR rotr c w"

text \<open>The message with its padding and bit length, in words, most significant byte first.\<close>

definition be_bytes :: "nat \<Rightarrow> int \<Rightarrow> int list" where
  "be_bytes k n = rev (List.map (\<lambda>i. n div 256 ^ i mod 256) [0..<k])"

definition sha_pad :: "bytes \<Rightarrow> int list" where
  "sha_pad s =
     (let n = length s
      in List.map of_char s @ [128] @ replicate ((119 - n mod 64) mod 64) 0 @ be_bytes 8 (8 * int n))"

fun be_words :: "int list \<Rightarrow> 32 word list" where
  "be_words (a # b # c # d # s) = of_int (a * 16777216 + b * 65536 + c * 256 + d) # be_words s"
| "be_words _ = []"

text \<open>The schedule, latest word first, grown from the sixteen words of a block.\<close>

fun schedule :: "nat \<Rightarrow> 32 word list \<Rightarrow> 32 word list" where
  "schedule 0 ws = ws"
| "schedule (Suc n) ws =
     schedule n ((small_sigma 17 19 10 (ws ! 1) + ws ! 6 + small_sigma 7 18 3 (ws ! 14) + ws ! 15) # ws)"

definition sha_round :: "32 word \<times> 32 word \<Rightarrow> 32 word list \<Rightarrow> 32 word list" where
  "sha_round kw v =
     (case v of
        [a, b, c, d, e, f, g, h] \<Rightarrow>
          (let t1 = h + big_sigma 6 11 25 e + ((e AND f) XOR (NOT e AND g)) + fst kw + snd kw;
               t2 = big_sigma 2 13 22 a + ((a AND b) XOR (a AND c) XOR (b AND c))
           in [t1 + t2, a, b, c, d + t1, e, f, g])
      | _ \<Rightarrow> v)"

definition sha_block :: "32 word list \<Rightarrow> 32 word list \<Rightarrow> 32 word list" where
  "sha_block block v =
     List.map2 (+) v (fold sha_round (zip sha_k (rev (schedule 48 (rev block)))) v)"

fun sha_blocks :: "nat \<Rightarrow> 32 word list \<Rightarrow> 32 word list \<Rightarrow> 32 word list" where
  "sha_blocks 0 ws v = v"
| "sha_blocks (Suc n) ws v = sha_blocks n (drop 16 ws) (sha_block (take 16 ws) v)"

definition hex_char :: "nat \<Rightarrow> char" where
  "hex_char d = (if d < 10 then char_of (48 + d) else char_of (87 + d))"

definition word_hex :: "32 word \<Rightarrow> string" where
  "word_hex w = rev (List.map (\<lambda>i. hex_char (unat (drop_bit (4 * i) w AND 15))) [0..<8])"

definition sha256_hexdigest :: "bytes \<Rightarrow> string" where
  "sha256_hexdigest s =
     (let ws = be_words (sha_pad s)
      in concat (List.map word_hex (sha_blocks (length ws div 16) ws sha_init)))"

end
