(* ===== verification/World.thy ===== *)
theory World
  imports Complex_Main Secrets Config Sha256
begin

text \<open>
  Effects.  An operation of the program takes the state of the process and of the outside world
  and returns a value or a raised exception with the new state.  Everything outside the
  repository (Redis, STS, Secrets Manager, the providers' token endpoints, Kinesis, the clock,
  the locks' scheduling) is a field of a \<open>services\<close> record, a parameter of every definition that
  uses it: each is an arbitrary function of the outside state \<open>'x\<close>, so it may fail, time out,
  or reflect what other tasks did in the meantime.  The state also carries a ghost trace of the
  calls made, which the safety properties speak of.  \<open>lax_int\<close> and \<open>aware_datetime\<close> are pydantic's
  coercions of a JSON value.
\<close>

section \<open>The monad\<close>

type_synonym ('s, 'a) eff = "'s \<Rightarrow> 'a res \<times> 's"

definition retE :: "'a \<Rightarrow> ('s, 'a) eff" where
  "retE x = (\<lambda>s. (Inr x, s))"

definition raiseE :: "exn \<Rightarrow> ('s, 'a) eff" where
  "raiseE e = (\<lambda>s. (Inl e, s))"

definition liftE :: "'a res \<Rightarrow> ('s, 'a) eff" where
  "liftE r = (\<lambda>s. (r, s))"

definition bindE :: "('s, 'a) eff \<Rightarrow> ('a \<Rightarrow> ('s, 'b) eff) \<Rightarrow> ('s, 'b) eff" where
  "bindE m f = (\<lambda>s. case m s of (Inl e, s') \<Rightarrow> (Inl e, s') | (Inr x, s') \<Rightarrow> f x s')"

text \<open>\<open>try: m except ...: h\<close>; the handler re-raises what its clauses do not name.\<close>

definition catchE :: "('s, 'a) eff \<Rightarrow> (exn \<Rightarrow> ('s, 'a) eff) \<Rightarrow> ('s, 'a) eff" where
  "catchE m h = (\<lambda>s. case m s of (Inl e, s') \<Rightarrow> h e s' | (Inr x, s') \<Rightarrow> (Inr x, s'))"

text \<open>\<open>try: m finally: f\<close>; an exception of \<open>f\<close> replaces the outcome.\<close>

definition finallyE :: "('s, 'a) eff \<Rightarrow> ('s, unit) eff \<Rightarrow> ('s, 'a) eff" where
  "finallyE m f = (\<lambda>s. case m s of (r, s') \<Rightarrow>
     (case f s' of (Inl e, s'') \<Rightarrow> (Inl e, s'') | (Inr _, s'') \<Rightarrow> (r, s'')))"

text \<open>
  \<open>async with asyncio.timeout(...)\<close>: when the block's own deadline cancels it, the cancellation
  becomes \<open>TimeoutError\<close>; any other outcome passes.
\<close>

definition timeoutE :: "string \<Rightarrow> ('s, 'a) eff \<Rightarrow> ('s, 'a) eff" where
  "timeoutE scope m = catchE m (\<lambda>e. if e = Cancelled scope then raiseE (PyTimeoutError '''') else raiseE e)"

definition getE :: "('s \<Rightarrow> 'a) \<Rightarrow> ('s, 'a) eff" where
  "getE f = (\<lambda>s. (Inr (f s), s))"

definition modifyE :: "('s \<Rightarrow> 's) \<Rightarrow> ('s, unit) eff" where
  "modifyE f = (\<lambda>s. (Inr (), f s))"

definition mapE :: "('a \<Rightarrow> 'b) \<Rightarrow> ('s, 'a) eff \<Rightarrow> ('s, 'b) eff" where
  "mapE f m = bindE m (\<lambda>x. retE (f x))"

lemmas eff_defs = retE_def raiseE_def liftE_def bindE_def catchE_def finallyE_def timeoutE_def
  getE_def modifyE_def mapE_def

lemma eff_simps [simp]:
  "retE x s = (Inr x, s)" "raiseE e s = (Inl e, s)" "liftE r s = (r, s)" "getE f s = (Inr (f s), s)"
  "modifyE g s = (Inr (), g s)"
  by (simp_all add: eff_defs)

lemma bindE_ret [simp]: "bindE (retE x) f = f x"
  by (simp add: bindE_def)

lemma bindE_raise [simp]: "bindE (raiseE e) f = raiseE e"
  by (auto simp: bindE_def raiseE_def)

lemma bindE_get: "bindE (getE g) f s = f (g s) s"
  by (simp add: bindE_def)

lemma bindE_Inr: "m s = (Inr x, s') \<Longrightarrow> bindE m f s = f x s'"
  by (simp add: bindE_def)

lemma bindE_Inl: "m s = (Inl e, s') \<Longrightarrow> bindE m f s = (Inl e, s')"
  by (simp add: bindE_def)

lemma catchE_Inr: "m s = (Inr x, s') \<Longrightarrow> catchE m h s = (Inr x, s')"
  by (simp add: catchE_def)

lemma catchE_Inl: "m s = (Inl e, s') \<Longrightarrow> catchE m h s = h e s'"
  by (simp add: catchE_def)

text \<open>Inverting a run that returned a value.\<close>

lemma bindE_InrD:
  "bindE m f s = (Inr y, s') \<Longrightarrow> \<exists>x t. m s = (Inr x, t) \<and> f x t = (Inr y, s')"
  by (auto simp: bindE_def split: prod.splits sum.splits)

lemma bindE_InlD:
  "bindE m f s = (Inl e, s') \<Longrightarrow> m s = (Inl e, s') \<or> (\<exists>x t. m s = (Inr x, t) \<and> f x t = (Inl e, s'))"
  by (auto simp: bindE_def split: prod.splits sum.splits)

section \<open>Outcomes\<close>

text \<open>\<open>raises P m\<close>: whatever \<open>m\<close> raises satisfies \<open>P\<close>.\<close>

named_theorems raises_rules \<open>which exceptions an operation may raise\<close>

definition raises :: "(exn \<Rightarrow> bool) \<Rightarrow> ('s, 'a) eff \<Rightarrow> bool" where
  "raises P m \<longleftrightarrow> (\<forall>s e s'. m s = (Inl e, s') \<longrightarrow> P e)"

lemma raises_ret [raises_rules]: "raises P (retE x)"
  by (simp add: raises_def)

lemma raises_raise [raises_rules]: "P e \<Longrightarrow> raises P (raiseE e)"
  by (simp add: raises_def)

lemma raises_get [raises_rules]: "raises P (getE f)" "raises P (modifyE g)"
  by (simp_all add: raises_def)

lemma raises_bind [raises_rules]:
  "raises P m \<Longrightarrow> (\<And>x. raises P (f x)) \<Longrightarrow> raises P (bindE m f)"
  unfolding raises_def by (blast dest: bindE_InlD)

lemma raises_catch:
  "(\<And>e. Q e \<Longrightarrow> raises P (h e)) \<Longrightarrow> raises Q m \<Longrightarrow> raises P (catchE m h)"
  unfolding raises_def catchE_def by (auto split: prod.splits sum.splits)

lemma raises_catch_any: "(\<And>e. raises P (h e)) \<Longrightarrow> raises P (catchE m h)"
  unfolding raises_def catchE_def by (auto split: prod.splits sum.splits)

lemma raises_True [simp]: "raises (\<lambda>_. True) m"
  by (simp add: raises_def)

lemma raises_weaken: "raises Q m \<Longrightarrow> (\<And>e. Q e \<Longrightarrow> P e) \<Longrightarrow> raises P m"
  by (auto simp: raises_def)

lemma raisesD: "raises P m \<Longrightarrow> m s = (Inl e, s') \<Longrightarrow> P e"
  by (auto simp: raises_def)

section \<open>What is outside the repository\<close>

text \<open>Keys a boto client is created with.\<close>

record client_keys =
  ck_access :: json
  ck_secret :: json
  ck_token :: json

definition keys_of :: "aws_credentials \<Rightarrow> client_keys" where
  "keys_of c = \<lparr>ck_access = access_key_id c, ck_secret = secret_access_key c, ck_token = session_token c\<rparr>"

datatype http_body = FormBody "(string \<times> string) list" | JsonBody json

text \<open>A response: the status and what \<open>response.json()\<close> gives, a value or a \<open>ValueError\<close>.\<close>

record http_response =
  status_code :: int
  resp_json :: "json res"

record role_response =
  issued_access_key :: json
  issued_secret_key :: json
  issued_token :: json
  issued_expiration :: datetime
  source_identity :: "string option"

record 'x services =
  clock :: "'x \<Rightarrow> int"
  random_unit :: "('x, rat) eff"
  sleep :: "rat \<Rightarrow> ('x, unit) eff"
  redis_new :: "redis_config \<Rightarrow> ('x, unit) eff"
  redis_ping :: "('x, unit) eff"
  redis_aclose :: "('x, unit) eff"
  redis_get :: "string \<Rightarrow> ('x, string option) eff"
  redis_setex :: "string \<Rightarrow> int \<Rightarrow> string \<Rightarrow> ('x, bool) eff"
  redis_delete :: "string \<Rightarrow> ('x, unit) eff"
  redis_flushdb :: "('x, unit) eff"
  aws_region :: "'x \<Rightarrow> string option"
  get_caller_identity :: "client_keys \<Rightarrow> string option \<Rightarrow> ('x, string option) eff"
  get_secret_value :: "client_keys \<Rightarrow> string option \<Rightarrow> json \<Rightarrow> ('x, string option) eff"
  assume_role :: "client_keys \<Rightarrow> string \<Rightarrow> string \<Rightarrow> string \<Rightarrow> int \<Rightarrow> ('x, role_response) eff"
  get_web_identity_token :: "client_keys \<Rightarrow> string \<Rightarrow> string \<Rightarrow> string \<Rightarrow> int \<Rightarrow> ('x, string) eff"
  http_post :: "string \<Rightarrow> http_body \<Rightarrow> (string \<times> string) list \<Rightarrow> ('x, http_response) eff"
  http_aclose :: "string \<Rightarrow> ('x, unit) eff"
  kinesis_enter :: "('x, unit) eff"
  kinesis_aclose :: "('x, unit) eff"
  put_record :: "string option \<Rightarrow> string \<Rightarrow> string \<Rightarrow> ('x, json) eff"
  lock_acquire :: "string \<Rightarrow> ('x, unit) eff"
  lock_release :: "string \<Rightarrow> ('x, unit) eff"
  lax_int :: "json \<Rightarrow> int option"
  aware_datetime :: "json \<Rightarrow> datetime option"

section \<open>The state\<close>

datatype event =
    EvSleep rat
  | EvRedisNew | EvRedisPing | EvRedisClose
  | EvRedisGet string | EvRedisSet string int string | EvRedisDelete string | EvRedisFlush
  | EvCallerIdentity client_keys
  | EvGetSecret client_keys json
  | EvAssumeRole client_keys string string string int
  | EvWebIdentity client_keys string string string int
  | EvHttpPost string http_body "(string \<times> string) list" | EvHttpClose string
  | EvKinesisEnter | EvKinesisClose | EvPutRecord "string option" string string
  | EvLock string | EvUnlock string
  | EvWsAccept | EvWsClose int string
  | EvConnect string "(string \<times> string) list" int | EvUpstreamClose
  | EvLog "(string \<times> json) list"

text \<open>
  The clients the process keeps: \<open>StateService.redis_client\<close> and \<open>kinesis_client\<close>, and the token
  exchange adapters that have opened their HTTP client.
\<close>

record 'x world =
  ext :: 'x
  redis_client :: bool
  kinesis_client :: bool
  http_clients :: "string list"
  trace :: "event list"

definition callE :: "event \<Rightarrow> ('x, 'a) eff \<Rightarrow> ('x world, 'a) eff" where
  "callE ev op = (\<lambda>w. case op (ext w) of (r, x) \<Rightarrow> (r, w\<lparr>ext := x, trace := trace w @ [ev]\<rparr>))"

text \<open>A local effect that is no call: the random number generator.\<close>

definition quietE :: "('x, 'a) eff \<Rightarrow> ('x world, 'a) eff" where
  "quietE op = (\<lambda>w. case op (ext w) of (r, x) \<Rightarrow> (r, w\<lparr>ext := x\<rparr>))"

definition logE :: "(string \<times> json) list \<Rightarrow> ('x world, unit) eff" where
  "logE fs = modifyE (\<lambda>w. w\<lparr>trace := trace w @ [EvLog fs]\<rparr>)"

definition now_us :: "'x services \<Rightarrow> ('x world, int) eff" where
  "now_us svc = getE (\<lambda>w. clock svc (ext w))"

section \<open>Which calls an operation makes\<close>

text \<open>\<open>calls P m\<close>: every call \<open>m\<close> makes, on every branch, satisfies \<open>P\<close>.\<close>

named_theorems calls_rules \<open>which calls an operation may make\<close>

definition calls :: "(event \<Rightarrow> bool) \<Rightarrow> ('x world, 'a) eff \<Rightarrow> bool" where
  "calls P m \<longleftrightarrow> (\<forall>w. \<exists>evs. trace (snd (m w)) = trace w @ evs \<and> list_all P evs)"

lemma calls_pure [calls_rules]: "calls P (retE x)" "calls P (raiseE e)" "calls P (liftE r)"
  "calls P (getE f)"
  by (simp_all add: calls_def)

lemma calls_now [calls_rules]: "calls P (now_us svc)"
  by (simp add: now_us_def calls_rules)

lemma calls_quiet [calls_rules]: "calls P (quietE op)"
  by (simp add: calls_def quietE_def split: prod.split)

lemma calls_log [calls_rules]: "P (EvLog fs) \<Longrightarrow> calls P (logE fs)"
  by (simp add: calls_def logE_def)

lemma calls_modify [calls_rules]: "(\<And>w. trace (g w) = trace w) \<Longrightarrow> calls P (modifyE g)"
  by (simp add: calls_def)

lemma calls_call [calls_rules]: "P ev \<Longrightarrow> calls P (callE ev op)"
  by (simp add: calls_def callE_def split: prod.split)

lemma calls_step:
  assumes "calls P m"
  obtains r s e1 where "m w = (r, s)" "trace s = trace w @ e1" "list_all P e1"
  using assms unfolding calls_def by (metis prod.collapse)

lemma calls_after:
  assumes "calls P n" "trace s = trace w @ e1" "list_all P e1"
  shows "\<exists>evs. trace (snd (n s)) = trace w @ evs \<and> list_all P evs"
proof -
  obtain e2 where "trace (snd (n s)) = trace s @ e2" "list_all P e2"
    using assms(1) unfolding calls_def by blast
  with assms show ?thesis by (intro exI [of _ "e1 @ e2"]) simp
qed

lemma calls_bind [calls_rules]:
  assumes "calls P m" "\<And>x. calls P (f x)"
  shows "calls P (bindE m f)"
  unfolding calls_def
proof
  fix w
  obtain r s e1 where m: "m w = (r, s)" "trace s = trace w @ e1" "list_all P e1"
    using assms(1) by (rule calls_step)
  show "\<exists>evs. trace (snd (bindE m f w)) = trace w @ evs \<and> list_all P evs"
  proof (cases r)
    case (Inr x)
    then show ?thesis using calls_after [OF assms(2) m(2,3)] m(1) by (simp add: bindE_def)
  qed (use m in \<open>simp add: bindE_def\<close>)
qed

lemma calls_catch [calls_rules]:
  assumes "calls P m" "\<And>e. calls P (h e)"
  shows "calls P (catchE m h)"
  unfolding calls_def
proof
  fix w
  obtain r s e1 where m: "m w = (r, s)" "trace s = trace w @ e1" "list_all P e1"
    using assms(1) by (rule calls_step)
  show "\<exists>evs. trace (snd (catchE m h w)) = trace w @ evs \<and> list_all P evs"
  proof (cases r)
    case (Inl e)
    then show ?thesis using calls_after [OF assms(2) m(2,3)] m(1) by (simp add: catchE_def)
  qed (use m in \<open>simp add: catchE_def\<close>)
qed

lemma calls_finally [calls_rules]:
  assumes "calls P m" "calls P f"
  shows "calls P (finallyE m f)"
  unfolding calls_def
proof
  fix w
  obtain r s e1 where m: "m w = (r, s)" "trace s = trace w @ e1" "list_all P e1"
    using assms(1) by (rule calls_step)
  have "snd (finallyE m f w) = snd (f s)"
    using m(1) by (simp add: finallyE_def split: prod.split sum.split)
  then show "\<exists>evs. trace (snd (finallyE m f w)) = trace w @ evs \<and> list_all P evs"
    using calls_after [OF assms(2) m(2,3)] by simp
qed

lemma calls_timeout [calls_rules]: "calls P m \<Longrightarrow> calls P (timeoutE scope m)"
  unfolding timeoutE_def by (rule calls_catch) (simp_all add: calls_rules)

lemma calls_map [calls_rules]: "calls P m \<Longrightarrow> calls P (mapE f m)"
  by (simp add: mapE_def calls_rules)

lemma calls_weaken: "calls Q m \<Longrightarrow> (\<And>ev. Q ev \<Longrightarrow> P ev) \<Longrightarrow> calls P m"
  unfolding calls_def by (metis list.pred_mono_strong)

lemma callsD:
  assumes "calls P m" "m w = (r, w')"
  obtains evs where "trace w' = trace w @ evs" "list_all P evs"
  using assms unfolding calls_def by (metis snd_conv)

section \<open>How an operation changes the state\<close>

text \<open>
  \<open>evolves R m\<close>: the state after \<open>m\<close>, whatever its outcome, is related to the state before.  The
  rules are for a reflexive and transitive \<open>R\<close>, which a frame condition is.
\<close>

definition evolves :: "('s \<Rightarrow> 's \<Rightarrow> bool) \<Rightarrow> ('s, 'a) eff \<Rightarrow> bool" where
  "evolves R m \<longleftrightarrow> (\<forall>s. R s (snd (m s)))"

locale frame =
  fixes R :: "'s \<Rightarrow> 's \<Rightarrow> bool"
  assumes refl: "R s s" and trans: "R s t \<Longrightarrow> R t u \<Longrightarrow> R s u"
begin

lemma evolves_pure: "evolves R (retE x)" "evolves R (raiseE e)" "evolves R (liftE r)" "evolves R (getE f)"
  by (simp_all add: evolves_def refl)

lemma evolves_modify: "(\<And>s. R s (g s)) \<Longrightarrow> evolves R (modifyE g)"
  by (simp add: evolves_def)

lemma evolves_bind: "evolves R m \<Longrightarrow> (\<And>x. evolves R (f x)) \<Longrightarrow> evolves R (bindE m f)"
  unfolding evolves_def bindE_def
  by (auto split: prod.splits sum.splits) (metis snd_conv trans)+

lemma evolves_catch: "evolves R m \<Longrightarrow> (\<And>e. evolves R (h e)) \<Longrightarrow> evolves R (catchE m h)"
  unfolding evolves_def catchE_def
  by (auto split: prod.splits sum.splits) (metis snd_conv trans)+

lemma evolves_finally: "evolves R m \<Longrightarrow> evolves R f \<Longrightarrow> evolves R (finallyE m f)"
  unfolding evolves_def finallyE_def
  by (auto split: prod.splits sum.splits) (metis snd_conv trans)+

lemma evolves_timeout: "evolves R m \<Longrightarrow> evolves R (timeoutE scope m)"
  unfolding timeoutE_def by (intro evolves_catch) (simp_all add: evolves_pure)

lemmas evolves_rules = evolves_pure evolves_modify evolves_bind evolves_catch evolves_finally
  evolves_timeout

lemma evolvesD: "evolves R m \<Longrightarrow> m s = (r, s') \<Longrightarrow> R s s'"
  unfolding evolves_def by (metis snd_conv)

end

section \<open>Locks\<close>

text \<open>\<open>async with lock\<close>.\<close>

definition with_lock :: "'x services \<Rightarrow> string \<Rightarrow> ('x world, 'a) eff \<Rightarrow> ('x world, 'a) eff" where
  "with_lock svc n m =
     bindE (callE (EvLock n) (lock_acquire svc n)) (\<lambda>_.
       finallyE m (callE (EvUnlock n) (lock_release svc n)))"

lemma calls_with_lock [calls_rules]:
  "P (EvLock n) \<Longrightarrow> P (EvUnlock n) \<Longrightarrow> calls P m \<Longrightarrow> calls P (with_lock svc n m)"
  by (simp add: with_lock_def calls_rules)

section \<open>Outcomes of calls\<close>


lemma raises_lift: "(\<And>e. r = Inl e \<Longrightarrow> P e) \<Longrightarrow> raises P (liftE r)"
  by (auto simp: raises_def)

lemma raises_call: "raises P op \<Longrightarrow> raises P (callE ev op)"
  by (auto simp: raises_def callE_def split: prod.splits)

lemma raises_clock: "raises P (now_us svc)"
  by (simp add: now_us_def raises_rules)

lemma raises_log: "raises P (logE fs)"
  by (simp add: logE_def raises_rules)

lemmas [raises_rules] = raises_lift raises_call raises_clock raises_log

end
