(* ===== verification/Sim.thy ===== *)
theory Sim
  imports World
begin

text \<open>
  A concrete outside world: a key-value store with expiry, a clock, and canned answers of the
  other services.  It discharges the laws the interfaces state and carries the witnesses.
\<close>

record sim =
  sim_now :: int
  sim_store :: "string \<Rightarrow> (string \<times> int) option"
  sim_busy :: nat
  sim_arn :: "string option"
  sim_secret :: "string option"
  sim_http :: "http_response list"
  sim_fail :: "exn option"

text \<open>The first \<open>sim_busy\<close> pings find no free connection.\<close>

definition sim_ping :: "(sim, unit) eff" where
  "sim_ping = (\<lambda>x. case sim_busy x of
     0 \<Rightarrow> (Inr (), x)
   | Suc n \<Rightarrow> (Inl (PyError MaxConnectionsErrorC ''MaxConnectionsError'' ''Too many connections''),
              x\<lparr>sim_busy := n\<rparr>))"

definition sim_get :: "string \<Rightarrow> (sim, string option) eff" where
  "sim_get k = (\<lambda>x. (case sim_fail x of
       Some e \<Rightarrow> Inl e
     | None \<Rightarrow> Inr (case sim_store x k of
           Some (v, t) \<Rightarrow> if sim_now x < t then Some v else None | None \<Rightarrow> None), x))"

definition sim_setex :: "string \<Rightarrow> int \<Rightarrow> string \<Rightarrow> (sim, bool) eff" where
  "sim_setex k ttl v =
     (\<lambda>x. (Inr True, x\<lparr>sim_store := (sim_store x)(k \<mapsto> (v, sim_now x + ttl * us_per_s))\<rparr>))"

definition sim_http_post :: "(sim, http_response) eff" where
  "sim_http_post = (\<lambda>x. case sim_http x of
     [] \<Rightarrow> (Inl (PyError HTTPErrorC ''ConnectError'' ''no route''), x)
   | r # rs \<Rightarrow> (Inr r, x\<lparr>sim_http := rs\<rparr>))"

definition sim_role :: role_response where
  "sim_role = \<lparr>issued_access_key = JStr ''ASIA'', issued_secret_key = JStr ''s'', issued_token = JStr ''t'',
     issued_expiration = utc_datetime 0, source_identity = None\<rparr>"

definition sim_svc :: "sim services" where
  "sim_svc =
     \<lparr>clock = sim_now,
      random_unit = retE (1 / 2),
      sleep = (\<lambda>_. retE ()),
      redis_new = (\<lambda>_. retE ()),
      redis_ping = sim_ping,
      redis_aclose = retE (),
      redis_get = sim_get,
      redis_setex = sim_setex,
      redis_delete = (\<lambda>k x. (Inr (), x\<lparr>sim_store := (sim_store x)(k := None)\<rparr>)),
      redis_flushdb = (\<lambda>x. (Inr (), x\<lparr>sim_store := (\<lambda>_. None)\<rparr>)),
      aws_region = (\<lambda>_. Some ''eu-west-2''),
      get_caller_identity = (\<lambda>_ _. getE sim_arn),
      get_secret_value = (\<lambda>_ _ _. getE sim_secret),
      assume_role = (\<lambda>_ _ _ _ _. retE sim_role),
      get_web_identity_token = (\<lambda>_ _ _ _ _. retE ''jwt''),
      http_post = (\<lambda>_ _ _. sim_http_post),
      http_aclose = (\<lambda>_. retE ()),
      kinesis_enter = retE (),
      kinesis_aclose = retE (),
      put_record = (\<lambda>_ _ _. retE (JDict [])),
      lock_acquire = (\<lambda>_. retE ()),
      lock_release = (\<lambda>_. retE ()),
      lax_int = (\<lambda>v. case v of JInt n \<Rightarrow> Some n | _ \<Rightarrow> None),
      aware_datetime = (\<lambda>v. case v of JInt n \<Rightarrow> Some (utc_datetime n) | _ \<Rightarrow> None)\<rparr>"

definition sim0 :: sim where
  "sim0 = \<lparr>sim_now = 0, sim_store = (\<lambda>_. None), sim_busy = 0, sim_arn = None, sim_secret = None,
     sim_http = [], sim_fail = None\<rparr>"

definition sim_world :: "sim \<Rightarrow> sim world" where
  "sim_world x = \<lparr>ext = x, redis_client = True, kinesis_client = False, http_clients = [], trace = []\<rparr>"

lemma sim_svc_fields [simp]:
  "clock sim_svc = sim_now" "random_unit sim_svc = retE (1 / 2)" "sleep sim_svc d = retE ()"
  "redis_new sim_svc rc = retE ()" "redis_ping sim_svc = sim_ping" "redis_get sim_svc = sim_get"
  "redis_setex sim_svc = sim_setex" "get_caller_identity sim_svc ck u = getE sim_arn"
  "get_secret_value sim_svc ck u arn = getE sim_secret" "assume_role sim_svc ck url r n dur = retE sim_role"
  "get_web_identity_token sim_svc ck url aud g dur = retE ''jwt''" "http_post sim_svc url b h = sim_http_post"
  "put_record sim_svc st dat pk = retE (JDict [])" "kinesis_enter sim_svc = retE ()"
  "lock_acquire sim_svc n = retE ()" "lock_release sim_svc n = retE ()"
  "aws_region sim_svc x = Some ''eu-west-2''"
  "lax_int sim_svc v = (case v of JInt n \<Rightarrow> Some n | _ \<Rightarrow> None)"
  "aware_datetime sim_svc v = (case v of JInt n \<Rightarrow> Some (utc_datetime n) | _ \<Rightarrow> None)"
  by (simp_all add: sim_svc_def)

lemma sim_world_fields [simp]:
  "ext (sim_world x) = x" "redis_client (sim_world x)" "\<not> kinesis_client (sim_world x)"
  "http_clients (sim_world x) = []" "trace (sim_world x) = []"
  by (simp_all add: sim_world_def)

lemmas sim_defs = sim_ping_def sim_get_def sim_setex_def sim_http_post_def sim0_def

end
