(* ===== verification/StateService.thy ===== *)
theory StateService
  imports Sim
begin

text \<open>
  \<open>services/state_service.py\<close>: the lazily created Redis client, the ping loop that waits for a free
  connection, and the shared Kinesis client.
\<close>

section \<open>Redis\<close>

definition ping :: "'x services \<Rightarrow> ('x world, unit) eff" where
  "ping svc = callE EvRedisPing (redis_ping svc)"

definition get_redis_client :: "'x services \<Rightarrow> config \<Rightarrow> ('x world, bool) eff" where
  "get_redis_client svc cfg =
     bindE (getE redis_client) (\<lambda>open.
       if open then retE True
       else
         catchE
           (bindE (callE EvRedisNew (redis_new svc (cfg_redis cfg))) (\<lambda>_.
            bindE (modifyE (\<lambda>w. w\<lparr>redis_client := True\<rparr>)) (\<lambda>_.
            bindE (ping svc) (\<lambda>_. retE True))))
           (\<lambda>e. if is_Exception e
                then bindE (modifyE (\<lambda>w. w\<lparr>redis_client := False\<rparr>)) (\<lambda>_. retE False)
                else raiseE e))"

definition close_redis_client :: "'x services \<Rightarrow> ('x world, unit) eff" where
  "close_redis_client svc =
     bindE (getE redis_client) (\<lambda>open.
       if open then
         finallyE
           (catchE (callE EvRedisClose (redis_aclose svc))
              (\<lambda>e. if is_Exception e then retE () else raiseE e))
           (modifyE (\<lambda>w. w\<lparr>redis_client := False\<rparr>))
       else retE ())"

text \<open>\<open>min(0.1 * 1.5 ** n, 1.0) * (0.8 + 0.4 * random.random())\<close> seconds, in exact arithmetic.\<close>

definition backoff :: "nat \<Rightarrow> rat \<Rightarrow> rat" where
  "backoff n r = min (1 / 10 * (3 / 2) ^ n) 1 * (4 / 5 + 2 / 5 * r)"

definition connection_limit :: "exn \<Rightarrow> bool" where
  "connection_limit e \<longleftrightarrow> isinstance e [MaxConnectionsErrorC, RedisConnectionErrorC]
     \<and> py_contains ''Too many connections'' (exn_str e)"

text \<open>\<open>left\<close> is \<open>max_retries - retry_count\<close>; the loop body runs at most \<open>max_retries + 1\<close> times.\<close>

fun acquire_loop :: "'x services \<Rightarrow> nat \<Rightarrow> nat \<Rightarrow> ('x world, bool) eff" where
  "acquire_loop svc max_retries 0 = bindE (ping svc) (\<lambda>_. retE True)"
| "acquire_loop svc max_retries (Suc left) =
     catchE (bindE (ping svc) (\<lambda>_. retE True))
       (\<lambda>e. if connection_limit e then
              bindE (quietE (random_unit svc)) (\<lambda>u.
              bindE (callE (EvSleep (backoff (max_retries - left) u))
                       (sleep svc (backoff (max_retries - left) u))) (\<lambda>_.
                acquire_loop svc max_retries left))
            else raiseE e)"

definition acquire_redis_connection :: "'x services \<Rightarrow> config \<Rightarrow> ('x world, bool) eff" where
  "acquire_redis_connection svc cfg =
     bindE (get_redis_client svc cfg) (\<lambda>client.
       if client then acquire_loop svc 8 8 else retE False)"

definition state_health_check :: "'x services \<Rightarrow> config \<Rightarrow> ('x world, bool) eff" where
  "state_health_check svc cfg =
     bindE (get_redis_client svc cfg) (\<lambda>client.
       if client then
         catchE (bindE (ping svc) (\<lambda>_. retE True))
           (\<lambda>e. if is_Exception e then retE False else raiseE e)
       else retE False)"

section \<open>Kinesis\<close>

definition get_kinesis_client :: "'x services \<Rightarrow> ('x world, unit) eff" where
  "get_kinesis_client svc =
     bindE (getE kinesis_client) (\<lambda>open.
       if open then retE ()
       else with_lock svc ''kinesis''
         (bindE (getE kinesis_client) (\<lambda>open2.
            if open2 then retE ()
            else bindE (callE EvKinesisEnter (kinesis_enter svc)) (\<lambda>_.
              modifyE (\<lambda>w. w\<lparr>kinesis_client := True\<rparr>)))))"

definition close_kinesis_client :: "'x services \<Rightarrow> ('x world, unit) eff" where
  "close_kinesis_client svc =
     with_lock svc ''kinesis''
       (bindE (getE kinesis_client) (\<lambda>open.
          if \<not> open then retE ()
          else finallyE
            (catchE (callE EvKinesisClose (kinesis_aclose svc))
               (\<lambda>e. if is_Exception e then retE () else raiseE e))
            (modifyE (\<lambda>w. w\<lparr>kinesis_client := False\<rparr>))))"

text \<open>An open client whose first ping answers is handed out at once.\<close>

lemma acquire_answering:
  assumes "redis_client w" "redis_ping svc (ext w) = (Inr (), x)"
  shows "acquire_redis_connection svc cfg w =
    (Inr True, w\<lparr>ext := x, trace := trace w @ [EvRedisPing]\<rparr>)"
proof -
  have p: "ping svc w = (Inr (), w\<lparr>ext := x, trace := trace w @ [EvRedisPing]\<rparr>)"
    using assms(2) by (simp add: ping_def callE_def)
  have "acquire_loop svc m (Suc n) w = (Inr True, w\<lparr>ext := x, trace := trace w @ [EvRedisPing]\<rparr>)" for m n
    by (simp add: bindE_def catchE_def p)
  from this [of 8 7] show ?thesis
    using assms(1) by (simp add: acquire_redis_connection_def get_redis_client_def bindE_def)
qed

section \<open>The back-pressure loop is bounded\<close>

lemma backoff_bounds:
  assumes "1 \<le> n" "0 \<le> r" "r < 1"
  shows "3 / 25 \<le> backoff n r \<and> backoff n r < 6 / 5"
proof -
  obtain k where n: "n = Suc k" using assms(1) by (cases n) auto
  have "1 \<le> (3 / 2 :: rat) ^ k" by simp
  then have lo: "3 / 20 \<le> min (1 / 10 * (3 / 2) ^ n) (1 :: rat)" by (simp add: n)
  have hi: "min (1 / 10 * (3 / 2) ^ n) (1 :: rat) \<le> 1" by simp
  have f: "4 / 5 \<le> 4 / 5 + 2 / 5 * r" "4 / 5 + 2 / 5 * r < 6 / 5" using assms by simp_all
  have "3 / 20 * (4 / 5) \<le> backoff n r"
    unfolding backoff_def using lo f by (intro mult_mono) simp_all
  moreover have "backoff n r \<le> 1 * (4 / 5 + 2 / 5 * r)"
    unfolding backoff_def using lo hi f by (intro mult_right_mono) simp_all
  ultimately show ?thesis using f by simp
qed

fun is_sleep :: "event \<Rightarrow> bool" where
  "is_sleep (EvSleep b) = True"
| "is_sleep _ = False"

definition unit_random :: "'x services \<Rightarrow> bool" where
  "unit_random svc \<longleftrightarrow> (\<forall>x u x'. random_unit svc x = (Inr u, x') \<longrightarrow> 0 \<le> u \<and> u < 1)"

definition sleep_ok :: "event \<Rightarrow> bool" where
  "sleep_ok ev \<longleftrightarrow> (case ev of EvSleep b \<Rightarrow> 3 / 25 \<le> b \<and> b < 6 / 5 | _ \<Rightarrow> True)"

definition ping_trace :: "nat \<Rightarrow> event list \<Rightarrow> bool" where
  "ping_trace n evs \<longleftrightarrow> length (filter (\<lambda>e. e = EvRedisPing) evs) \<le> Suc n
     \<and> length (filter is_sleep evs) \<le> n \<and> list_all sleep_ok evs
     \<and> list_all (\<lambda>e. e = EvRedisPing \<or> is_sleep e) evs"

lemma acquire_loop_trace:
  assumes "unit_random svc" "left \<le> max_retries"
  shows "\<exists>evs. trace (snd (acquire_loop svc max_retries left w)) = trace w @ evs \<and> ping_trace left evs"
  using assms(2)
proof (induction left arbitrary: w)
  case 0
  then show ?case
    by (auto simp: ping_trace_def ping_def bindE_def callE_def sleep_ok_def split: prod.split sum.split)
next
  case (Suc left)
  obtain r w1 where p: "ping svc w = (r, w1)" by (cases "ping svc w")
  then have t1: "trace w1 = trace w @ [EvRedisPing]"
    by (auto simp: ping_def callE_def split: prod.splits)
  have one: "ping_trace (Suc left) [EvRedisPing]" by (simp add: ping_trace_def sleep_ok_def)
  show ?case
  proof (cases r)
    case (Inr u)
    then show ?thesis using p t1 one by (simp add: catchE_def bindE_def)
  next
    case (Inl e)
    show ?thesis
    proof (cases "connection_limit e")
      case False
      then show ?thesis using p t1 one Inl by (simp add: catchE_def bindE_def)
    next
      case True
      obtain u w2 where q: "quietE (random_unit svc) w1 = (u, w2)" by fastforce
      then have t2: "trace w2 = trace w1" by (auto simp: quietE_def split: prod.splits)
      show ?thesis
      proof (cases u)
        case Inl': (Inl e')
        then show ?thesis using p q t1 t2 one Inl True by (simp add: catchE_def bindE_def)
      next
        case Inr': (Inr v)
        define b where "b = backoff (max_retries - left) v"
        have "0 \<le> v" "v < 1"
          using q Inr' assms(1) unfolding unit_random_def quietE_def by (auto split: prod.splits)
        then have b: "3 / 25 \<le> b \<and> b < 6 / 5"
          unfolding b_def using Suc.prems by (intro backoff_bounds) simp_all
        obtain s w3 where c: "callE (EvSleep b) (sleep svc b) w2 = (s, w3)" by fastforce
        then have t3: "trace w3 = trace w @ [EvRedisPing, EvSleep b]"
          using t1 t2 by (auto simp: callE_def split: prod.splits)
        have two: "ping_trace (Suc left) [EvRedisPing, EvSleep b]"
          using b by (simp add: ping_trace_def sleep_ok_def)
        obtain evs where evs: "trace (snd (acquire_loop svc max_retries left w3)) = trace w3 @ evs"
          "ping_trace left evs"
          using Suc.IH [of w3] Suc.prems by auto
        then have "ping_trace (Suc left) ([EvRedisPing, EvSleep b] @ evs)"
          using b by (simp add: ping_trace_def sleep_ok_def)
        then show ?thesis
          using p q c t3 two Inl Inr' True evs(1)
          by (cases s) (auto simp: catchE_def bindE_def b_def simp del: backoff_def)
      qed
    qed
  qed
qed

text \<open>
  C33: acquiring a connection with an open client pings at most nine times, sleeps at most eight
  times and each time between 0.12 and 1.2 seconds, and makes no other call, whatever Redis does.
\<close>

theorem acquire_bounded:
  assumes "unit_random svc" "redis_client w"
  shows "\<exists>evs. trace (snd (acquire_redis_connection svc cfg w)) = trace w @ evs
    \<and> length (filter (\<lambda>e. e = EvRedisPing) evs) \<le> 9 \<and> length (filter is_sleep evs) \<le> 8
    \<and> (\<forall>b. EvSleep b \<in> set evs \<longrightarrow> 3 / 25 \<le> b \<and> b < 6 / 5)
    \<and> (\<forall>e \<in> set evs. e = EvRedisPing \<or> is_sleep e)"
proof -
  obtain evs where "trace (snd (acquire_loop svc 8 8 w)) = trace w @ evs" "ping_trace 8 evs"
    using acquire_loop_trace [OF assms(1), of 8 8 w] by auto
  moreover have "acquire_redis_connection svc cfg w = acquire_loop svc 8 8 w"
    using assms(2) by (simp add: acquire_redis_connection_def get_redis_client_def bindE_def
        del: acquire_loop.simps)
  ultimately show ?thesis
    by (intro exI [of _ evs]) (auto simp: ping_trace_def sleep_ok_def list_all_iff split: event.splits)
qed

theorem acquire_bounded_witness:
  "\<forall>cfg. \<exists>evs. trace (snd (acquire_redis_connection sim_svc cfg (sim_world (sim0\<lparr>sim_busy := 20\<rparr>)))) = evs
    \<and> length (filter (\<lambda>e. e = EvRedisPing) evs) \<le> 9"
  using acquire_bounded [of sim_svc "sim_world (sim0\<lparr>sim_busy := 20\<rparr>)"]
  by (auto simp: unit_random_def sim_svc_def sim_world_def)

end
