(* ===== verification/Cache.thy ===== *)
theory Cache
  imports StateService
begin

text \<open>
  \<open>services/cache_service.py\<close>: how long a minted token may stay cached, the cache key, and the Redis
  operations over the StateService.
\<close>

definition TOKEN_EXPIRY_SAFETY_MARGIN_SECONDS :: int where
  "TOKEN_EXPIRY_SAFETY_MARGIN_SECONDS = 60"

definition effective_cache_ttl :: "int \<Rightarrow> datetime \<Rightarrow> int \<Rightarrow> int res" where
  "effective_cache_ttl duration token_expires_at now =
     bind_r (dt_minus token_expires_at (utc_datetime now)) (\<lambda>remaining.
       Inr (max 0 (min duration (trunc_seconds remaining - TOKEN_EXPIRY_SAFETY_MARGIN_SECONDS))))"

text \<open>What is hashed: the payload, a newline, the target host or nothing.\<close>

definition cache_key_text :: "string \<Rightarrow> string option \<Rightarrow> string" where
  "cache_key_text payload host = payload @ newline # (case host of None \<Rightarrow> [] | Some h \<Rightarrow> h)"

definition generate_cache_key :: "string \<Rightarrow> string option \<Rightarrow> string res" where
  "generate_cache_key payload host =
     map_sum id sha256_hexdigest (encode_utf8 (cache_key_text payload host))"

section \<open>Reading\<close>

definition decode_auth_response :: "string \<Rightarrow> auth_result res" where
  "decode_auth_response data =
     bind_r (json_loads data) (\<lambda>v.
     bind_r (json_item v ''principal_info'') (\<lambda>pd.
     bind_r (PrincipalInfo_from_dict pd) (\<lambda>p.
     bind_r (py_get v ''expires_at'' JNull) (\<lambda>x.
     bind_r (json_item v ''api_key'') (\<lambda>k.
     bind_r (py_get v ''output_header'' JNull) (\<lambda>h.
     bind_r (py_get v ''output_prefix'' JNull) (\<lambda>f.
     bind_r (fromisoformat_json x) (\<lambda>e.
       Inr \<lparr>api_key = k, res_principal = p, output_header = h, output_prefix = f,
            expires_at = e\<rparr>))))))))"

definition get_cached_auth_result ::
  "'x services \<Rightarrow> config \<Rightarrow> string \<Rightarrow> string option \<Rightarrow> ('x world, auth_result option) eff" where
  "get_cached_auth_result svc cfg payload host =
     bindE (acquire_redis_connection svc cfg) (\<lambda>client.
       if \<not> client then retE None
       else
         catchE
           (bindE (liftE (generate_cache_key payload host)) (\<lambda>key.
            bindE (callE (EvRedisGet key) (redis_get svc key)) (\<lambda>cached.
              case cached of
                Some (c # cs) \<Rightarrow> mapE Some (liftE (decode_auth_response (c # cs)))
              | _ \<Rightarrow> retE None)))
           (\<lambda>e. if isinstance e [JSONDecodeErrorC] then retE None
                else if isinstance e [RedisTimeoutErrorC] then raiseE e
                else if is_Exception e
                then raiseE (CacheError (''Failed to retrieve from cache: '' @ exn_str e))
                else raiseE e))"

lemma json_item_dict [simp]: "json_item (JDict d) k = dict_item d k"
  by (simp add: json_item_def)

lemma decode_auth_response_dumps:
  "json_ok (AuthResult_to_dict r) \<Longrightarrow> result_ok r \<Longrightarrow>
     decode_auth_response (json_dumps (AuthResult_to_dict r)) = Inr r"
proof -
  assume j: "json_ok (AuthResult_to_dict r)" and "result_ok r"
  then have "fromisoformat_json (dt_json (expires_at r)) = Inr (expires_at r)"
    by (intro fromisoformat_dt_json) (auto simp: result_ok_def split: option.splits)
  then show ?thesis
    by (simp add: decode_auth_response_def json_loads_dumps [OF j])
      (simp add: AuthResult_to_dict_def dict_item_def)
qed

section \<open>Writing\<close>

definition cache_auth_response ::
  "'x services \<Rightarrow> config \<Rightarrow> string \<Rightarrow> string option \<Rightarrow> auth_result \<Rightarrow> int option \<Rightarrow> ('x world, bool) eff" where
  "cache_auth_response svc cfg payload host r ttl_seconds =
     bindE (acquire_redis_connection svc cfg) (\<lambda>client.
       if \<not> client then retE False
       else
         catchE
           (bindE (liftE (generate_cache_key payload host)) (\<lambda>key.
              let ttl = (case ttl_seconds of Some t \<Rightarrow> t | None \<Rightarrow> cache_duration (cfg_redis cfg))
              in if ttl \<le> 0 then retE False
                 else callE (EvRedisSet key ttl (json_dumps (AuthResult_to_dict r)))
                        (redis_setex svc key ttl (json_dumps (AuthResult_to_dict r)))))
           (\<lambda>e. if is_Exception e
                then raiseE (CacheError (''Failed to store in cache: '' @ exn_str e))
                else raiseE e))"

definition cache_auth_result ::
  "'x services \<Rightarrow> config \<Rightarrow> string \<Rightarrow> string option \<Rightarrow> auth_result \<Rightarrow> int option \<Rightarrow> ('x world, bool) eff" where
  "cache_auth_result svc cfg payload host r ttl_seconds =
     cache_auth_response svc cfg payload host r ttl_seconds"

definition cache_api_key ::
  "'x services \<Rightarrow> config \<Rightarrow> string \<Rightarrow> string option \<Rightarrow> string \<Rightarrow> principal_info \<Rightarrow> ('x world, bool) eff" where
  "cache_api_key svc cfg payload host key p =
     cache_auth_response svc cfg payload host
       \<lparr>api_key = JStr key, res_principal = p, output_header = JNull, output_prefix = JNull,
        expires_at = None\<rparr> None"

definition invalidate_cache_entry ::
  "'x services \<Rightarrow> config \<Rightarrow> string \<Rightarrow> string option \<Rightarrow> ('x world, bool) eff" where
  "invalidate_cache_entry svc cfg payload host =
     bindE (acquire_redis_connection svc cfg) (\<lambda>client.
       if \<not> client then retE False
       else
         catchE
           (bindE (liftE (generate_cache_key payload host)) (\<lambda>key.
            bindE (callE (EvRedisDelete key) (redis_delete svc key)) (\<lambda>_. retE True)))
           (\<lambda>e. if is_Exception e then retE False else raiseE e))"

definition flush_all :: "'x services \<Rightarrow> config \<Rightarrow> ('x world, bool) eff" where
  "flush_all svc cfg =
     bindE (acquire_redis_connection svc cfg) (\<lambda>client.
       if \<not> client then retE False
       else
         catchE (bindE (callE EvRedisFlush (redis_flushdb svc)) (\<lambda>_. retE True))
           (\<lambda>e. if is_Exception e
                then raiseE (CacheError (''Failed to flush cache: '' @ exn_str e)) else raiseE e))"

definition cache_health_check :: "'x services \<Rightarrow> config \<Rightarrow> ('x world, bool) eff" where
  "cache_health_check svc cfg = state_health_check svc cfg"

section \<open>Keys\<close>

definition host_text :: "string option \<Rightarrow> string" where
  "host_text h = (case h of None \<Rightarrow> [] | Some s \<Rightarrow> s)"

lemma split_last_newline:
  "newline \<notin> set b \<Longrightarrow> newline \<notin> set d \<Longrightarrow> a @ newline # b = c @ newline # d \<longleftrightarrow> a = c \<and> b = d"
proof -
  assume n: "newline \<notin> set b" "newline \<notin> set d"
  have "a = c \<and> b = d" if eq: "a @ newline # b = c @ newline # d"
  proof -
    have "rev b @ newline # rev a = rev d @ newline # rev c"
      using arg_cong [OF eq, of rev] by simp
    then have "py_split1 newline (rev b @ newline # rev a) = py_split1 newline (rev d @ newline # rev c)"
      by simp
    then show ?thesis using n by (simp add: py_split1_append)
  qed
  then show ?thesis by blast
qed

text \<open>
  C32: two authorisations hash the same text only if they have the same payload and the same
  target host, provided no host holds a newline (an HTTP header value cannot); no host and an
  empty host are the same key.
\<close>

theorem cache_key_text_injective:
  assumes "newline \<notin> set (host_text h1)" "newline \<notin> set (host_text h2)"
  shows "cache_key_text p1 h1 = cache_key_text p2 h2 \<longleftrightarrow> p1 = p2 \<and> host_text h1 = host_text h2"
  using assms split_last_newline [of "host_text h1" "host_text h2" p1 p2]
  by (simp add: cache_key_text_def host_text_def)

theorem cache_key_text_injective_witness:
  "cache_key_text ''p'' (Some ''a.example'') \<noteq> cache_key_text ''p'' (Some ''b.example'')"
  using cache_key_text_injective [of "Some ''a.example''" "Some ''b.example''" "''p''" "''p''"]
  by (simp add: host_text_def)

lemma cache_ttl_bounds:
  assumes "utc_off expiry \<noteq> None" "effective_cache_ttl duration expiry now = Inr ttl" "1 \<le> duration"
  shows "0 \<le> ttl \<and> ttl \<le> duration
    \<and> (0 < ttl \<longrightarrow> now + (ttl + 59) * us_per_s < timestamp_us expiry)
    \<and> (now + 61 * us_per_s \<le> timestamp_us expiry \<longrightarrow> 0 < ttl)"
proof -
  define rem where "rem = timestamp_us expiry - now"
  have ttl: "ttl = max 0 (min duration (trunc_seconds rem - 60))"
    using assms(1,2)
    by (simp add: effective_cache_ttl_def dt_minus_utc rem_def TOKEN_EXPIRY_SAFETY_MARGIN_SECONDS_def)
  note b = trunc_seconds_bounds [of rem]
  have "rem \<ge> (ttl + 59) * us_per_s + 1" if "0 < ttl"
  proof -
    have "ttl + 60 \<le> trunc_seconds rem" using that ttl by auto
    then have "(ttl + 60) * us_per_s \<le> trunc_seconds rem * us_per_s"
      by (intro mult_right_mono) (simp_all add: us_per_s_def)
    with b show ?thesis by (simp add: us_per_s_def)
  qed
  moreover have "0 < ttl" if "61 * us_per_s \<le> rem"
  proof -
    have "61 \<le> trunc_seconds rem"
      using that by (simp add: trunc_seconds_def us_per_s_def)
    then show ?thesis using ttl assms(3) by auto
  qed
  moreover have "0 \<le> ttl" "ttl \<le> duration" using ttl assms(3) by simp_all
  ultimately show ?thesis
    unfolding rem_def by force
qed

text \<open>
  C16: a token's time in the cache is never negative, never above the configured duration, and, when
  positive, ends more than 59 seconds before the token does; whenever at least 61 seconds of life
  are left it is positive.
\<close>

theorem effective_cache_ttl_bounds:
  assumes "utc_off expiry \<noteq> None" "effective_cache_ttl duration expiry now = Inr ttl" "1 \<le> duration"
  shows "0 \<le> ttl \<and> ttl \<le> duration
    \<and> (0 < ttl \<longrightarrow> now + (ttl + 59) * us_per_s < timestamp_us expiry)
    \<and> (now + 61 * us_per_s \<le> timestamp_us expiry \<longrightarrow> 0 < ttl)"
  using assms by (rule cache_ttl_bounds)

theorem effective_cache_ttl_bounds_witness:
  "effective_cache_ttl 3600 (utc_datetime 100000000) 0 = Inr 40
     \<and> (40 + 59) * us_per_s < timestamp_us (utc_datetime 100000000)"
proof -
  have e: "effective_cache_ttl 3600 (utc_datetime 100000000) 0 = Inr 40"
    by (simp add: effective_cache_ttl_def dt_minus_utc trunc_seconds_def us_per_s_def
        TOKEN_EXPIRY_SAFETY_MARGIN_SECONDS_def)
  then show ?thesis
    using effective_cache_ttl_bounds [of "utc_datetime 100000000" 3600 0 40]
    by simp
qed

section \<open>What the store promises\<close>

text \<open>
  The contract of Redis the cache relies on.  \<open>view\<close> is its content, with the time each entry
  expires.  A read gives nothing but the unexpired value stored under the key; a write stores
  under its key, to expire within the given time; no other call adds an entry.  Entries may
  vanish at any time (expiry, eviction, a flush by another process).
\<close>

locale redis_store =
  fixes svc :: "'x services"
    and view :: "'x \<Rightarrow> string \<Rightarrow> (string \<times> int) option"
  assumes get_view: "redis_get svc k x = (Inr (Some v), x') \<Longrightarrow>
      \<exists>t. view x k = Some (v, t) \<and> clock svc x < t"
    and set_view: "redis_setex svc k ttl v x = (Inr b, x') \<Longrightarrow>
      \<exists>t \<le> clock svc x' + ttl * us_per_s. view x' \<subseteq>\<^sub>m (view x)(k \<mapsto> (v, t))"
    and frame_view: "view (snd (redis_ping svc x)) \<subseteq>\<^sub>m view x"
      "view (snd (redis_new svc rc x)) \<subseteq>\<^sub>m view x"
      "view (snd (random_unit svc x)) \<subseteq>\<^sub>m view x"
      "view (snd (sleep svc d x)) \<subseteq>\<^sub>m view x"
begin

definition shrinks :: "'x world \<Rightarrow> 'x world \<Rightarrow> bool" where
  "shrinks w w' \<longleftrightarrow> view (ext w') \<subseteq>\<^sub>m view (ext w)"

lemma shrinks_refl: "shrinks w w"
  by (simp add: shrinks_def)

lemma shrinks_trans: "shrinks u v \<Longrightarrow> shrinks v w \<Longrightarrow> shrinks u w"
  unfolding shrinks_def by (rule map_le_trans)

end

sublocale redis_store \<subseteq> fr: frame shrinks
  by unfold_locales (rule shrinks_refl, rule shrinks_trans)

context redis_store
begin

lemma evolves_ping: "evolves shrinks (ping svc)"
  unfolding evolves_def shrinks_def ping_def callE_def
  using frame_view(1) by (auto split: prod.split) (metis snd_conv)

lemma evolves_acquire_loop: "evolves shrinks (acquire_loop svc m n)"
proof (induction n)
  case (Suc n)
  have "evolves shrinks (quietE (random_unit svc))"
    unfolding evolves_def shrinks_def quietE_def
    using frame_view(3) by (auto split: prod.split) (metis snd_conv)
  moreover have "evolves shrinks (callE ev (sleep svc d))" for ev d
    unfolding evolves_def shrinks_def callE_def
    using frame_view(4) by (auto split: prod.split) (metis snd_conv)
  ultimately show ?case
    using Suc by (auto intro!: fr.evolves_rules evolves_ping split: if_split)
qed (auto intro!: fr.evolves_rules evolves_ping)

lemma evolves_acquire: "evolves shrinks (acquire_redis_connection svc cfg)"
proof -
  have "evolves shrinks (callE EvRedisNew (redis_new svc rc))" for rc
    unfolding evolves_def shrinks_def callE_def
    using frame_view(2) by (auto split: prod.split) (metis snd_conv)
  moreover have "evolves shrinks (modifyE (redis_client_update f))" for f
    by (rule fr.evolves_modify) (simp add: shrinks_def)
  ultimately show ?thesis
    unfolding acquire_redis_connection_def get_redis_client_def
    by (auto intro!: fr.evolves_rules evolves_ping evolves_acquire_loop simp: shrinks_def)
qed

lemma cache_auth_view:
  assumes "cache_auth_result svc cfg p h r ttl_opt w = (Inr True, w')"
  shows "\<exists>key t. generate_cache_key p h = Inr key
    \<and> t \<le> clock svc (ext w') + (case ttl_opt of Some n \<Rightarrow> n | None \<Rightarrow> cache_duration (cfg_redis cfg)) * us_per_s
    \<and> view (ext w') \<subseteq>\<^sub>m (view (ext w))(key \<mapsto> (json_dumps (AuthResult_to_dict r), t))"
proof -
  let ?ttl = "case ttl_opt of Some n \<Rightarrow> n | None \<Rightarrow> cache_duration (cfg_redis cfg)"
  let ?v = "json_dumps (AuthResult_to_dict r)"
  obtain w1 where a: "acquire_redis_connection svc cfg w = (Inr True, w1)"
    using assms unfolding cache_auth_result_def cache_auth_response_def
    by (auto dest!: bindE_InrD split: if_splits)
  have sub: "view (ext w1) \<subseteq>\<^sub>m view (ext w)"
    using fr.evolvesD [OF evolves_acquire a] by (simp add: shrinks_def)
  have "\<exists>key x'. generate_cache_key p h = Inr key \<and> redis_setex svc key ?ttl ?v (ext w1) = (Inr True, x')
      \<and> ext w' = x'"
    using assms a unfolding cache_auth_result_def cache_auth_response_def
    by (auto simp: bindE_def catchE_def callE_def Let_def split: prod.splits sum.splits if_splits)
  then obtain key where k: "generate_cache_key p h = Inr key"
    "redis_setex svc key ?ttl ?v (ext w1) = (Inr True, ext w')"
    by blast
  from set_view [OF k(2)] obtain t where t: "t \<le> clock svc (ext w') + ?ttl * us_per_s"
    "view (ext w') \<subseteq>\<^sub>m (view (ext w1))(key \<mapsto> (?v, t))"
    by blast
  have "(view (ext w1))(key \<mapsto> (?v, t)) \<subseteq>\<^sub>m (view (ext w))(key \<mapsto> (?v, t))"
    using sub by (simp add: map_le_upd)
  then show ?thesis using t k map_le_trans by blast
qed



lemma get_cached_view:
  assumes "get_cached_auth_result svc cfg p h w = (Inr (Some r), w')"
  shows "\<exists>key v t x. generate_cache_key p h = Inr key \<and> view (ext w) key = Some (v, t)
    \<and> clock svc x < t \<and> decode_auth_response v = Inr r"
proof -
  obtain w1 where a: "acquire_redis_connection svc cfg w = (Inr True, w1)"
    using assms unfolding get_cached_auth_result_def
    by (auto dest!: bindE_InrD split: if_splits)
  have sub: "view (ext w1) \<subseteq>\<^sub>m view (ext w)"
    using fr.evolvesD [OF evolves_acquire a] by (simp add: shrinks_def)
  have "\<exists>key c cs x'. generate_cache_key p h = Inr key
      \<and> redis_get svc key (ext w1) = (Inr (Some (c # cs)), x') \<and> decode_auth_response (c # cs) = Inr r"
    using assms a unfolding get_cached_auth_result_def
    by (auto simp: bindE_def catchE_def callE_def mapE_def split: prod.splits sum.splits if_splits
        option.splits list.splits)
  then obtain key v x' where g: "generate_cache_key p h = Inr key"
    "redis_get svc key (ext w1) = (Inr (Some v), x')" "decode_auth_response v = Inr r"
    by blast
  then obtain t where "view (ext w1) key = Some (v, t)" "clock svc (ext w1) < t"
    using get_view by blast
  moreover from this(1) sub have "view (ext w) key = Some (v, t)"
    by (metis domI map_le_def)
  ultimately show ?thesis using g by blast
qed

text \<open>A result read right after a successful write is the one written.\<close>

lemma read_after_write:
  assumes "cache_auth_result svc cfg p h r ttl_opt w = (Inr True, w1)"
    and "get_cached_auth_result svc cfg p h w1 = (Inr (Some r'), w2)"
    and "json_ok (AuthResult_to_dict r)" "result_ok r"
  shows "r' = r"
proof -
  obtain key t where k: "generate_cache_key p h = Inr key"
    "view (ext w1) \<subseteq>\<^sub>m (view (ext w))(key \<mapsto> (json_dumps (AuthResult_to_dict r), t))"
    using cache_auth_view [OF assms(1)] by blast
  obtain v t' where v: "view (ext w1) key = Some (v, t')" "decode_auth_response v = Inr r'"
    using get_cached_view [OF assms(2)] k(1) by auto
  have "view (ext w1) key = ((view (ext w))(key \<mapsto> (json_dumps (AuthResult_to_dict r), t))) key"
    using k(2) v(1) by (metis domI map_le_def)
  with v(1) have "v = json_dumps (AuthResult_to_dict r)" by simp
  then show ?thesis
    using v(2) assms(3,4) by (simp add: decode_auth_response_dumps)
qed

end

text \<open>The simulated store keeps the contract.\<close>

interpretation sim_redis: redis_store sim_svc sim_store
proof unfold_locales
  show "redis_get sim_svc k x = (Inr (Some v), x') \<Longrightarrow> \<exists>t. sim_store x k = Some (v, t) \<and> clock sim_svc x < t"
    for k x v x'
    by (auto simp: sim_defs split: option.splits if_splits)
  show "redis_setex sim_svc k ttl v x = (Inr b, x') \<Longrightarrow>
      \<exists>t\<le>clock sim_svc x' + ttl * us_per_s. sim_store x' \<subseteq>\<^sub>m (sim_store x)(k \<mapsto> (v, t))" for k ttl v x b x'
    by (auto simp: sim_defs)
qed (auto simp: sim_defs split: nat.splits)

text \<open>
  C15: through any store that keeps Redis's contract, what a cache lookup finds after a successful
  store for the same payload and host is the result that was stored, all fields included.
\<close>

theorem cache_read_after_write:
  assumes "redis_store svc view"
    and "cache_auth_result svc cfg p h r ttl_opt w = (Inr True, w1)"
    and "get_cached_auth_result svc cfg p h w1 = (Inr (Some r'), w2)"
    and "json_ok (AuthResult_to_dict r)" "result_ok r"
  shows "r' = r"
  using assms by (rule redis_store.read_after_write)

definition demo_result :: auth_result where
  "demo_result = \<lparr>api_key = JStr ''k'', res_principal = PrincipalInfo_empty, output_header = JNull,
     output_prefix = JNull, expires_at = Some (utc_datetime 0)\<rparr>"

lemma demo_result_ok: "json_ok (AuthResult_to_dict demo_result)" "result_ok demo_result"
proof -
  have "is_ascii (isoformat t)" for t
    using isoformat_ascii [of t] by (simp add: is_ascii_def list_all_iff)
  then show "json_ok (AuthResult_to_dict demo_result)"
    by (simp add: demo_result_def AuthResult_to_dict_def PrincipalInfo_to_dict_def
        PrincipalInfo_empty_def dt_json_def str_ok_ascii)
  show "result_ok demo_result"
    by (simp add: result_ok_def demo_result_def datetime_ok_def utc_datetime_def epoch_wall_def
        us_per_day_def max_days_def off_ok_def)
qed

lemma demo_key: "\<exists>key. generate_cache_key ''p'' None = Inr key"
  by (simp add: generate_cache_key_def cache_key_text_def encode_utf8_def str_ok_ascii)

lemma demo_write_read:
  "\<exists>w1 w2 r. cache_auth_result sim_svc cfg ''p'' None demo_result (Some 60) (sim_world sim0) = (Inr True, w1)
     \<and> get_cached_auth_result sim_svc cfg ''p'' None w1 = (Inr (Some r), w2)"
proof -
  obtain key where key: "generate_cache_key ''p'' None = Inr key" using demo_key by blast
  define v where "v = json_dumps (AuthResult_to_dict demo_result)"
  define x1 where "x1 = sim0\<lparr>sim_store := (sim_store sim0)(key \<mapsto> (v, 60 * us_per_s))\<rparr>"
  define w1 where "w1 = (sim_world x1)\<lparr>trace := [EvRedisPing, EvRedisSet key 60 v]\<rparr>"
  have d: "decode_auth_response v = Inr demo_result"
    unfolding v_def using demo_result_ok by (rule decode_auth_response_dumps)
  have "v \<noteq> []" by (simp add: v_def json_dumps_def AuthResult_to_dict_def)
  have "acquire_redis_connection sim_svc cfg (sim_world sim0) =
      (Inr True, (sim_world sim0)\<lparr>trace := [EvRedisPing]\<rparr>)"
    by (subst acquire_answering [where x = sim0]) (simp_all add: sim_defs sim_world_def)
  then have 1: "cache_auth_result sim_svc cfg ''p'' None demo_result (Some 60) (sim_world sim0) = (Inr True, w1)"
    by (simp add: cache_auth_result_def cache_auth_response_def bindE_Inr catchE_def bindE_def key
        callE_def w1_def x1_def sim_world_def sim_defs flip: v_def)
  have a: "acquire_redis_connection sim_svc cfg w1 = (Inr True, w1\<lparr>trace := trace w1 @ [EvRedisPing]\<rparr>)"
    by (subst acquire_answering [where x = x1]) (simp_all add: w1_def x1_def sim_defs)
  have "\<exists>w2. get_cached_auth_result sim_svc cfg ''p'' None w1 = (Inr (Some demo_result), w2)"
    unfolding get_cached_auth_result_def bindE_Inr [where m = "acquire_redis_connection sim_svc cfg", OF a]
    using d \<open>v \<noteq> []\<close>
    by (cases v) (simp_all add: catchE_def bindE_def key callE_def mapE_def w1_def x1_def sim_defs us_per_s_def)
  with 1 show ?thesis by blast
qed

theorem cache_read_after_write_witness:
  "\<forall>cfg. \<exists>w1 w2 r. cache_auth_result sim_svc cfg ''p'' None demo_result (Some 60) (sim_world sim0) = (Inr True, w1)
     \<and> get_cached_auth_result sim_svc cfg ''p'' None w1 = (Inr (Some r), w2) \<and> r = demo_result"
  using demo_write_read cache_read_after_write [OF sim_redis.redis_store_axioms] demo_result_ok
  by blast

end
