(* ===== verification/JsonBytes.thy ===== *)
theory JsonBytes
  imports Json
begin

text \<open>
  \<open>json.loads\<close> on \<open>bytes\<close>: the encoding is guessed from the first bytes (UTF-8, UTF-16 or UTF-32,
  with or without a byte order mark), the text decoded with surrogates passed through, and parsed.
\<close>

datatype json_encoding = Utf8 | Utf8Sig | Utf16 bool | Utf32 bool

text \<open>The flag is for big-endian; a byte order mark is skipped by \<open>skip_bom\<close>.\<close>

definition bytes_of :: "nat list \<Rightarrow> bytes" where
  "bytes_of ns = List.map char_of ns"

definition detect_encoding :: "bytes \<Rightarrow> json_encoding \<times> nat" where
  "detect_encoding b =
     (if py_startswith b (bytes_of [0, 0, 254, 255]) then (Utf32 True, 4)
      else if py_startswith b (bytes_of [255, 254, 0, 0]) then (Utf32 False, 4)
      else if py_startswith b (bytes_of [254, 255]) then (Utf16 True, 2)
      else if py_startswith b (bytes_of [255, 254]) then (Utf16 False, 2)
      else if py_startswith b (bytes_of [239, 187, 191]) then (Utf8Sig, 3)
      else if 4 \<le> length b \<and> b ! 0 = CHR 0x00 then
        (if b ! 1 \<noteq> CHR 0x00 then (Utf16 True, 0) else (Utf32 True, 0))
      else if 4 \<le> length b \<and> b ! 1 = CHR 0x00 then
        (if b ! 2 \<noteq> CHR 0x00 \<or> b ! 3 \<noteq> CHR 0x00 then (Utf16 False, 0) else (Utf32 False, 0))
      else if length b = 2 \<and> b ! 0 = CHR 0x00 then (Utf16 True, 0)
      else if length b = 2 \<and> b ! 1 = CHR 0x00 then (Utf16 False, 0)
      else (Utf8, 0))"

definition unit_of :: "bool \<Rightarrow> bytes \<Rightarrow> nat" where
  "unit_of be bs = foldl (\<lambda>n c. n * 256 + of_char c) 0 (if be then bs else rev bs)"

fun utf16_cps :: "bool \<Rightarrow> bytes \<Rightarrow> nat list option" where
  "utf16_cps be [] = Some []"
| "utf16_cps be [a] = None"
| "utf16_cps be (a # b # s) =
     (let u = unit_of be [a, b] in
      case s of
        c # d # s2 \<Rightarrow>
          (let v = unit_of be [c, d] in
           if 55296 \<le> u \<and> u < 56320 \<and> 56320 \<le> v \<and> v < 57344
           then map_option (\<lambda>r. (65536 + (u - 55296) * 1024 + (v - 56320)) # r) (utf16_cps be s2)
           else map_option (\<lambda>r. u # r) (utf16_cps be s))
      | _ \<Rightarrow> map_option (\<lambda>r. u # r) (utf16_cps be s))"

fun utf32_cps :: "bool \<Rightarrow> bytes \<Rightarrow> nat list option" where
  "utf32_cps be (a # b # c # d # s) =
     (let u = unit_of be [a, b, c, d] in
      if u < 1114112 then map_option (\<lambda>r. u # r) (utf32_cps be s) else None)"
| "utf32_cps be s = (if s = [] then Some [] else None)"

definition json_text :: "bytes \<Rightarrow> string option" where
  "json_text b =
     (case detect_encoding b of
        (Utf16 be, n) \<Rightarrow> map_option utf8_enc (utf16_cps be (drop n b))
      | (Utf32 be, n) \<Rightarrow> map_option utf8_enc (utf32_cps be (drop n b))
      | (_, n) \<Rightarrow> if str_ok True (drop n b) then Some (drop n b) else None)"

definition json_loads_bytes :: "bytes \<Rightarrow> json res" where
  "json_loads_bytes b =
     bind_r (of_option (PyError UnicodeDecodeErrorC ''UnicodeDecodeError'' ''invalid text'') (json_text b))
       json_loads"

lemma only_Exceptions_loads_bytes [exn_rules]: "only_Exceptions (json_loads_bytes b)"
  unfolding json_loads_bytes_def by (intro exn_rules) (simp add: is_Exception_iff)


end
