(* ===== verification/Federation.thy ===== *)
theory Federation
  imports Cache JsonBytes
begin

text \<open>
  \<open>services/federation_service.py\<close>: which federation roles may be assumed, the identity proof from
  STS, the exchange of the proof at each provider, and minting, which composes them.
\<close>

section \<open>Constants\<close>

definition JWT_BEARER_GRANT_TYPE :: string where
  "JWT_BEARER_GRANT_TYPE = ''urn:ietf:params:oauth:grant-type:jwt-bearer''"
definition ANTHROPIC_TOKEN_URL :: string where
  "ANTHROPIC_TOKEN_URL = ''https://api.anthropic.com/v1/oauth/token''"
definition TOKEN_EXCHANGE_GRANT_TYPE :: string where
  "TOKEN_EXCHANGE_GRANT_TYPE = ''urn:ietf:params:oauth:grant-type:token-exchange''"
definition JWT_TOKEN_TYPE :: string where
  "JWT_TOKEN_TYPE = ''urn:ietf:params:oauth:token-type:jwt''"
definition FEDERATION_SESSION_SECONDS :: int where "FEDERATION_SESSION_SECONDS = 3600"
definition IDENTITY_TOKEN_SECONDS :: int where "IDENTITY_TOKEN_SECONDS = 900"
definition OPENAI_IDENTITY_TOKEN_SECONDS :: int where "OPENAI_IDENTITY_TOKEN_SECONDS = 1800"
definition OPENROUTER_IDENTITY_TOKEN_SECONDS :: int where "OPENROUTER_IDENTITY_TOKEN_SECONDS = 900"
definition OPENAI_TOKEN_URL :: string where
  "OPENAI_TOKEN_URL = ''https://auth.openai.com/oauth/token''"
definition OPENROUTER_TOKEN_URL :: string where
  "OPENROUTER_TOKEN_URL = ''https://openrouter.ai/api/v1/oauth/token''"
definition GOOGLE_STS_TOKEN_URL :: string where
  "GOOGLE_STS_TOKEN_URL = ''https://sts.googleapis.com/v1/token''"
definition GOOGLE_ACCESS_TOKEN_TYPE :: string where
  "GOOGLE_ACCESS_TOKEN_TYPE = ''urn:ietf:params:oauth:token-type:access_token''"
definition GOOGLE_IAM_SCOPE :: string where
  "GOOGLE_IAM_SCOPE = ''https://www.googleapis.com/auth/iam''"

section \<open>Federation role ARNs\<close>

definition word_char :: "char \<Rightarrow> bool" where
  "word_char c \<longleftrightarrow> is_alnum c \<or> c = CHR ''_''"

definition iam_name_char :: "char \<Rightarrow> bool" where
  "iam_name_char c \<longleftrightarrow> word_char c \<or> c \<in> set ''+=,.@-''"

definition iam_path_char :: "char \<Rightarrow> bool" where
  "iam_path_char c \<longleftrightarrow> 33 \<le> (of_char c :: nat) \<and> (of_char c :: nat) \<le> 126 \<and> c \<noteq> CHR ''/''"

definition iam_prefix :: string where "iam_prefix = ''arn:aws:iam::''"

text \<open>The groups \<open>account_id\<close>, \<open>path\<close> and \<open>name\<close> of \<open>_IAM_ROLE_ARN.fullmatch\<close>.\<close>

definition match_role_arn :: "string \<Rightarrow> (string \<times> string \<times> string) option" where
  "match_role_arn arn =
     (let s = drop 13 arn; account = take 12 s; r = drop 12 s; q = drop 5 r
      in if py_startswith arn iam_prefix \<and> length account = 12 \<and> list_all is_digit account
            \<and> py_startswith r '':role''
         then (case py_split CHR ''/'' q of
             [] # ps \<Rightarrow>
               if ps \<noteq> [] \<and> list_all (\<lambda>p. p \<noteq> [] \<and> list_all iam_path_char p) (butlast ps)
                  \<and> 1 \<le> length (last ps) \<and> length (last ps) \<le> 64 \<and> list_all iam_name_char (last ps)
               then Some (account, CHR ''/'' # concat (List.map (\<lambda>p. p @ ''/'') (butlast ps)), last ps)
               else None
           | _ \<Rightarrow> None)
         else None)"

definition validate_federation_role_arn :: "string \<Rightarrow> string list \<Rightarrow> string \<Rightarrow> unit res" where
  "validate_federation_role_arn arn allowed role_prefix =
     (if allowed = []
      then Inl (AuthenticationError ''Token minting is disabled: FEDERATION_ALLOWED_ACCOUNT_IDS is not set'')
      else (case match_role_arn arn of
          None \<Rightarrow> Inl (AuthenticationError ''federation_role_arn is not an IAM role ARN'')
        | Some (account, path, name) \<Rightarrow>
            if account \<notin> set allowed
            then Inl (AuthenticationError ''federation_role_arn is not in an allowed account'')
            else if \<not> py_startswith path role_prefix
            then Inl (AuthenticationError (''federation_role_arn is not under the '' @ role_prefix @ '' role path''))
            else Inr ()))"

section \<open>The caller\<close>

text \<open>A principal's fields are decoded values; \<open>startswith\<close> exists on strings only.\<close>

definition role_session_name :: "string \<Rightarrow> bool" where
  "role_session_name s \<longleftrightarrow> 2 \<le> length s \<and> length s \<le> 64 \<and> list_all iam_name_char s"

definition assumed_role_prefix :: string where "assumed_role_prefix = ''assumed-role/''"

definition caller_role_name :: "principal_info \<Rightarrow> string res" where
  "caller_role_name p =
     (if \<not> truthy (pi_principal p)
      then Inl (CredentialsError ''Token minting requires an assumed-role caller'')
      else (case pi_principal p of
          JStr s \<Rightarrow>
            if \<not> py_startswith s assumed_role_prefix
            then Inl (CredentialsError ''Token minting requires an assumed-role caller'')
            else if \<not> role_session_name (drop (length assumed_role_prefix) s)
            then Inl (CredentialsError ''Caller role name is not a valid session name'')
            else Inr (drop (length assumed_role_prefix) s)
        | _ \<Rightarrow> Inl attribute_error))"

definition caller_session :: "principal_info \<Rightarrow> json res" where
  "caller_session p =
     (if \<not> truthy (pi_session_name p)
      then Inl (CredentialsError ''Token minting requires an assumed-role caller'')
      else Inr (pi_session_name p))"

definition caller_user :: "string \<Rightarrow> string option \<Rightarrow> string" where
  "caller_user role_name source = (case source of Some (c # s) \<Rightarrow> c # s | _ \<Rightarrow> role_name)"

definition caller_project :: "principal_info \<Rightarrow> json" where
  "caller_project p =
     (if pi_project p = JNull \<or> pi_project p = JStr ''unknown'' then JStr '''' else pi_project p)"

text \<open>The \<open>jti\<close> of a JWT, read without verification.\<close>

definition identity_token_id :: "string \<Rightarrow> string option" where
  "identity_token_id token =
     (case py_split CHR ''.'' token of
        _ # payload # _ \<Rightarrow>
          (case bind_r (urlsafe_b64decode
                  (payload @ replicate (nat ((- int (length payload)) mod 4)) CHR ''='')) json_loads_bytes of
             Inr (JDict d) \<Rightarrow> (case map_of d ''jti'' of Some (JStr j) \<Rightarrow> Some j | _ \<Rightarrow> None)
           | _ \<Rightarrow> None)
      | _ \<Rightarrow> None)"

section \<open>Identity proof\<close>

record federation_identity =
  fi_credentials :: aws_credentials
  fi_role_arn :: string
  fi_user :: string
  fi_principal :: string
  fi_session :: json
  fi_project :: json

record minted_token =
  mt_token :: string
  mt_expires_at :: datetime

definition nonblank :: "string option \<Rightarrow> string option" where
  "nonblank s = (case s of Some (c # cs) \<Rightarrow> Some (c # cs) | _ \<Rightarrow> None)"

definition sts_endpoint :: "'x services \<Rightarrow> config \<Rightarrow> ('x world, string) eff" where
  "sts_endpoint svc cfg =
     (case nonblank (sts_endpoint_url (cfg_federation cfg)) of
        Some u \<Rightarrow> retE u
      | None \<Rightarrow>
          (case nonblank (endpoint_url (cfg_aws cfg)) of
             Some u \<Rightarrow> retE u
           | None \<Rightarrow>
               bindE (getE (\<lambda>w. nonblank (aws_region svc (ext w)))) (\<lambda>r.
                 case r of
                   None \<Rightarrow> raiseE (ConfigurationError
                     ''AWS region is required to build the regional STS endpoint'')
                 | Some region \<Rightarrow> retE (''https://sts.'' @ region @ ''.amazonaws.com''))))"

fun client_error_code :: "exn \<Rightarrow> string" where
  "client_error_code (ClientError code m) = code"
| "client_error_code _ = []"

definition code_or_unknown :: "string \<Rightarrow> string" where
  "code_or_unknown c = (if c = [] then ''unknown error'' else c)"

definition assume_federation_role ::
  "'x services \<Rightarrow> config \<Rightarrow> aws_credentials \<Rightarrow> principal_info \<Rightarrow> string
     \<Rightarrow> ('x world, federation_identity) eff" where
  "assume_federation_role svc cfg creds caller role_arn =
     bindE (liftE (caller_role_name caller)) (\<lambda>role_name.
     bindE (liftE (caller_session caller)) (\<lambda>session.
     bindE
       (catchE
          (bindE (sts_endpoint svc cfg) (\<lambda>url.
             callE (EvAssumeRole (keys_of creds) url role_arn role_name FEDERATION_SESSION_SECONDS)
               (assume_role svc (keys_of creds) url role_arn role_name FEDERATION_SESSION_SECONDS)))
          (\<lambda>e. if isinstance e [ClientErrorC] then
                 (if client_error_code e = ''ExpiredToken''
                  then raiseE (CredentialsError ''AWS credentials have expired'')
                  else raiseE (AuthenticationError (''Could not assume federation role (''
                                @ code_or_unknown (client_error_code e) @ '')'')))
               else if isinstance e [BotoCoreErrorC]
               then raiseE (UpstreamServiceError ''STS is unavailable'')
               else raiseE e)) (\<lambda>response.
     bindE (liftE (AwsCredentials (issued_access_key response) (issued_secret_key response)
              (issued_token response) (Some (issued_expiration response)))) (\<lambda>issued.
       retE \<lparr>fi_credentials = issued, fi_role_arn = role_arn,
             fi_user = caller_user role_name (source_identity response), fi_principal = role_name,
             fi_session = session, fi_project = caller_project caller\<rparr>))))"

definition web_identity_token ::
  "'x services \<Rightarrow> config \<Rightarrow> federation_identity \<Rightarrow> string \<Rightarrow> string \<Rightarrow> int \<Rightarrow> ('x world, string) eff" where
  "web_identity_token svc cfg identity audience algorithm duration =
     (if \<not> (60 \<le> duration \<and> duration \<le> 3600)
      then raiseE (PyError ValueErrorC ''ValueError''
             (''duration_seconds must be between 60 and 3600, got '' @ int_str duration))
      else
        catchE
          (bindE (sts_endpoint svc cfg) (\<lambda>url.
             callE (EvWebIdentity (keys_of (fi_credentials identity)) url audience algorithm duration)
               (get_web_identity_token svc (keys_of (fi_credentials identity)) url audience algorithm
                  duration)))
          (\<lambda>e. if isinstance e [ClientErrorC]
               then raiseE (AuthenticationError (''Could not issue identity token (''
                              @ code_or_unknown (client_error_code e) @ '')''))
               else if isinstance e [BotoCoreErrorC]
               then raiseE (UpstreamServiceError ''STS is unavailable'')
               else raiseE e))"

section \<open>The exchange at a provider\<close>

text \<open>The shared client of an adapter is created on first use and closed at shutdown.\<close>

definition open_http :: "string \<Rightarrow> ('x world, unit) eff" where
  "open_http adapter = modifyE (\<lambda>w.
     if adapter \<in> set (http_clients w) then w else w\<lparr>http_clients := adapter # http_clients w\<rparr>)"

definition http_aclose_adapter :: "'x services \<Rightarrow> string \<Rightarrow> ('x world, unit) eff" where
  "http_aclose_adapter svc adapter =
     bindE (getE (\<lambda>w. adapter \<in> set (http_clients w))) (\<lambda>open.
       if open then
         bindE (callE (EvHttpClose adapter) (http_aclose svc adapter)) (\<lambda>_.
           modifyE (\<lambda>w. w\<lparr>http_clients := filter (\<lambda>a. a \<noteq> adapter) (http_clients w)\<rparr>))
       else retE ())"

definition http_status_error :: "string \<Rightarrow> int \<Rightarrow> exn" where
  "http_status_error step status =
     (let message = step @ '' returned HTTP '' @ int_str status
      in if 500 \<le> status \<or> status = 429 then UpstreamServiceError message
         else AuthenticationError message)"

definition post_json ::
  "'x services \<Rightarrow> string \<Rightarrow> string \<Rightarrow> string \<Rightarrow> http_body \<Rightarrow> (string \<times> string) list
     \<Rightarrow> ('x world, (string \<times> json) list) eff" where
  "post_json svc adapter step url body headers =
     bindE (open_http adapter) (\<lambda>_.
     bindE
       (catchE (callE (EvHttpPost url body headers) (http_post svc url body headers))
          (\<lambda>e. if isinstance e [HTTPErrorC]
               then raiseE (UpstreamServiceError (step @ '' is unavailable'')) else raiseE e)) (\<lambda>resp.
       if status_code resp \<noteq> 200 then raiseE (http_status_error step (status_code resp))
       else
         (case resp_json resp of
            Inl e \<Rightarrow>
              if isinstance e [ValueErrorC]
              then raiseE (AuthenticationError (step @ '' returned a malformed response'')) else raiseE e
          | Inr (JDict d) \<Rightarrow> retE d
          | Inr _ \<Rightarrow> raiseE (AuthenticationError (step @ '' returned a malformed response'')))))"

record oauth_response =
  access_token :: string
  expires_in :: int

definition malformed :: "string \<Rightarrow> exn" where
  "malformed step = AuthenticationError (step @ '' returned a malformed response'')"

definition parse_oauth :: "'x services \<Rightarrow> (string \<times> json) list \<Rightarrow> string \<Rightarrow> oauth_response res" where
  "parse_oauth svc d step =
     of_option (malformed step)
       (Option.bind (str_field nonempty None (map_of d ''access_token'')) (\<lambda>t.
        Option.bind (Option.bind (map_of d ''expires_in'') (lax_int svc)) (\<lambda>n.
          if 0 < n then Some \<lparr>access_token = t, expires_in = n\<rparr> else None)))"

text \<open>\<open>requested_at + timedelta(seconds=expires_in)\<close>; past the last date it overflows.\<close>

definition overflow_error :: exn where
  "overflow_error = PyError OtherExceptionC ''OverflowError'' ''date value out of range''"

definition oauth_minted_token :: "oauth_response \<Rightarrow> int \<Rightarrow> minted_token res" where
  "oauth_minted_token r requested_at =
     (let t = utc_datetime (requested_at + expires_in r * us_per_s)
      in if wall t div us_per_day \<le> max_days
         then Inr \<lparr>mt_token = access_token r, mt_expires_at = t\<rparr> else Inl overflow_error)"

definition parse_google :: "'x services \<Rightarrow> (string \<times> json) list \<Rightarrow> string \<Rightarrow> minted_token res" where
  "parse_google svc d step =
     of_option (malformed step)
       (Option.bind (str_field nonempty None (map_of d ''accessToken'')) (\<lambda>t.
        Option.bind (Option.bind (map_of d ''expireTime'') (aware_datetime svc)) (\<lambda>e.
          Some \<lparr>mt_token = t, mt_expires_at = e\<rparr>)))"

definition oauth_exchange ::
  "'x services \<Rightarrow> string \<Rightarrow> string \<Rightarrow> string \<Rightarrow> http_body \<Rightarrow> ('x world, minted_token) eff" where
  "oauth_exchange svc adapter step url body =
     bindE (now_us svc) (\<lambda>requested_at.
     bindE (post_json svc adapter step url body []) (\<lambda>d.
     bindE (liftE (parse_oauth svc d step)) (\<lambda>r.
       liftE (oauth_minted_token r requested_at))))"

definition anthropic_body :: "string \<Rightarrow> secret \<Rightarrow> http_body" where
  "anthropic_body proof_jwt s =
     JsonBody (JDict ([(''grant_type'', JStr JWT_BEARER_GRANT_TYPE), (''assertion'', JStr proof_jwt),
       (''federation_rule_id'', JStr (federation_rule_id s)),
       (''organization_id'', JStr (organization_id s)),
       (''service_account_id'', JStr (service_account_id s))]
       @ (case workspace_id s of None \<Rightarrow> [] | Some w \<Rightarrow> [(''workspace_id'', JStr w)])))"

definition anthropic_exchange :: "'x services \<Rightarrow> string \<Rightarrow> secret \<Rightarrow> ('x world, minted_token) eff" where
  "anthropic_exchange svc proof_jwt s =
     oauth_exchange svc ''anthropic'' ''Anthropic token exchange'' ANTHROPIC_TOKEN_URL
       (anthropic_body proof_jwt s)"

definition openai_exchange :: "'x services \<Rightarrow> string \<Rightarrow> secret \<Rightarrow> ('x world, minted_token) eff" where
  "openai_exchange svc proof_jwt s =
     oauth_exchange svc ''openai'' ''Token exchange with OpenAI'' OPENAI_TOKEN_URL
       (JsonBody (JDict [(''grant_type'', JStr TOKEN_EXCHANGE_GRANT_TYPE),
          (''subject_token_type'', JStr JWT_TOKEN_TYPE), (''subject_token'', JStr proof_jwt),
          (''identity_provider_id'', JStr (identity_provider_id s)),
          (''service_account_id'', JStr (service_account_id s))]))"

definition openrouter_exchange :: "'x services \<Rightarrow> string \<Rightarrow> secret \<Rightarrow> ('x world, minted_token) eff" where
  "openrouter_exchange svc proof_jwt s =
     oauth_exchange svc ''openrouter'' ''Token exchange with OpenRouter'' OPENROUTER_TOKEN_URL
       (FormBody [(''grant_type'', TOKEN_EXCHANGE_GRANT_TYPE), (''subject_token_type'', JWT_TOKEN_TYPE),
          (''subject_token'', proof_jwt), (''federation_policy_id'', federation_policy_id s)])"

text \<open>\<open>urllib.parse.quote(s, safe="@")\<close>.\<close>

definition upper_hex :: "nat \<Rightarrow> char" where
  "upper_hex d = (if d < 10 then char_of (48 + d) else char_of (55 + d))"

definition url_quote :: "string \<Rightarrow> string" where
  "url_quote s = concat (List.map (\<lambda>c.
     if is_alnum c \<or> c \<in> set ''_.-~@'' then [c]
     else [CHR ''%'', upper_hex (of_char c div 16), upper_hex (of_char c mod 16)]) s)"

definition google_iam_url :: "string \<Rightarrow> string" where
  "google_iam_url account =
     ''https://iamcredentials.googleapis.com/v1/projects/-/serviceAccounts/'' @ url_quote account
     @ '':generateAccessToken''"

definition gcp_exchange :: "'x services \<Rightarrow> string \<Rightarrow> secret \<Rightarrow> ('x world, minted_token) eff" where
  "gcp_exchange svc proof_jwt s =
     bindE (post_json svc ''gcp'' ''Google STS exchange'' GOOGLE_STS_TOKEN_URL
       (FormBody [(''grant_type'', TOKEN_EXCHANGE_GRANT_TYPE), (''audience'', mint_audience s),
          (''scope'', GOOGLE_IAM_SCOPE), (''requested_token_type'', GOOGLE_ACCESS_TOKEN_TYPE),
          (''subject_token_type'', JWT_TOKEN_TYPE), (''subject_token'', proof_jwt)]) []) (\<lambda>federated.
     bindE (liftE (parse_oauth svc federated ''Google STS exchange'')) (\<lambda>ft.
     bindE (post_json svc ''gcp'' ''Google service-account impersonation''
       (google_iam_url (service_account s))
       (JsonBody (JDict [(''scope'', JList (List.map JStr (scopes s))),
          (''lifetime'', JStr (int_str (token_lifetime_seconds s) @ ''s''))]))
       [(''Authorization'', ''Bearer '' @ access_token ft)]) (\<lambda>access.
       liftE (parse_google svc access ''Google service-account impersonation''))))"

section \<open>Minting\<close>

text \<open>The route of a secret type: how the identity is proved, and the adapter; a stored key has none.\<close>

definition prove :: "'x services \<Rightarrow> config \<Rightarrow> federation_identity \<Rightarrow> secret \<Rightarrow> ('x world, string) eff" where
  "prove svc cfg identity s =
     (case s of
        OpenAiWifSecret _ _ _ _ aud \<Rightarrow>
          web_identity_token svc cfg identity aud ''ES384'' OPENAI_IDENTITY_TOKEN_SECONDS
      | OpenRouterWifSecret _ _ _ aud \<Rightarrow>
          web_identity_token svc cfg identity aud ''RS256'' OPENROUTER_IDENTITY_TOKEN_SECONDS
      | _ \<Rightarrow> web_identity_token svc cfg identity (mint_audience s) ''RS256'' IDENTITY_TOKEN_SECONDS)"

definition exchange :: "'x services \<Rightarrow> string \<Rightarrow> secret \<Rightarrow> ('x world, minted_token) eff" where
  "exchange svc proof_jwt s =
     (case s of
        AnthropicWifSecret _ _ _ _ _ _ _ \<Rightarrow> anthropic_exchange svc proof_jwt s
      | OpenAiWifSecret _ _ _ _ _ \<Rightarrow> openai_exchange svc proof_jwt s
      | OpenRouterWifSecret _ _ _ _ \<Rightarrow> openrouter_exchange svc proof_jwt s
      | GcpWifSecret _ _ _ _ _ _ \<Rightarrow> gcp_exchange svc proof_jwt s
      | SecretsManagerAuthPayload _ _ \<Rightarrow>
          raiseE (AuthenticationError ''No token exchange for secret type SecretsManagerAuthPayload''))"

definition mint_log :: "secret \<Rightarrow> federation_identity \<Rightarrow> string option \<Rightarrow> (string \<times> json) list" where
  "mint_log s identity token_id =
     [(''identity_token_id'', json_opt token_id),
      (''federation_role_arn'', JStr (fi_role_arn identity)), (''user'', JStr (fi_user identity)),
      (''principal'', JStr (fi_principal identity)), (''session'', fi_session identity),
      (''project'', fi_project identity)]"

definition mint ::
  "'x services \<Rightarrow> config \<Rightarrow> aws_credentials \<Rightarrow> principal_info \<Rightarrow> secret \<Rightarrow> ('x world, minted_token) eff" where
  "mint svc cfg creds caller s =
     bindE (liftE (validate_federation_role_arn (mint_role_arn s)
              (allowed_account_ids (cfg_federation cfg)) (role_path_prefix (cfg_federation cfg)))) (\<lambda>_.
     bindE (if is_mint_secret s then retE ()
            else raiseE (AuthenticationError ''No token exchange for secret type SecretsManagerAuthPayload''))
       (\<lambda>_.
     bindE
       (catchE
          (timeoutE ''mint''
             (bindE (assume_federation_role svc cfg creds caller (mint_role_arn s)) (\<lambda>identity.
              bindE (prove svc cfg identity s) (\<lambda>proof_jwt.
              bindE (exchange svc proof_jwt s) (\<lambda>minted.
                retE (identity, proof_jwt, minted))))))
          (\<lambda>e. if isinstance e [TimeoutErrorC]
               then raiseE (UpstreamServiceError ''Token minting timed out'') else raiseE e))
       (\<lambda>(identity, proof_jwt, minted).
         bindE (logE (mint_log s identity (identity_token_id proof_jwt))) (\<lambda>_. retE minted))))"

definition mint_aclose :: "'x services \<Rightarrow> ('x world, unit) eff" where
  "mint_aclose svc =
     bindE (http_aclose_adapter svc ''anthropic'') (\<lambda>_.
     bindE (http_aclose_adapter svc ''openai'') (\<lambda>_.
     bindE (http_aclose_adapter svc ''openrouter'') (\<lambda>_.
       http_aclose_adapter svc ''gcp'')))"

section \<open>Which role ARNs are accepted\<close>

definition role_path :: "string list \<Rightarrow> string" where
  "role_path segs = CHR ''/'' # concat (List.map (\<lambda>p. p @ ''/'') segs)"

definition role_arn_parts :: "string \<Rightarrow> string list \<Rightarrow> string \<Rightarrow> bool" where
  "role_arn_parts account segs name \<longleftrightarrow> length account = 12 \<and> list_all is_digit account
     \<and> list_all (\<lambda>p. p \<noteq> [] \<and> list_all iam_path_char p) segs
     \<and> 1 \<le> length name \<and> length name \<le> 64 \<and> list_all iam_name_char name"

definition federation_role_arn :: "string \<Rightarrow> string list \<Rightarrow> string \<Rightarrow> string" where
  "federation_role_arn account segs name = iam_prefix @ account @ '':role'' @ role_path segs @ name"

lemma py_join_slash: "ps \<noteq> [] \<Longrightarrow> py_join ''/'' ps = concat (List.map (\<lambda>p. p @ ''/'') (butlast ps)) @ last ps"
  by (induction ps rule: induct_list012) auto

lemma length_iam_prefix [simp]: "length iam_prefix = 13"
  by (simp add: iam_prefix_def)

lemma match_role_arn_complete:
  assumes "role_arn_parts account segs name"
  shows "match_role_arn (federation_role_arn account segs name) = Some (account, role_path segs, name)"
proof -
  have "CHR ''/'' \<notin> set p" if "p \<in> set (segs @ [name])" for p
    using that assms
    by (auto simp: role_arn_parts_def list_all_iff iam_path_char_def iam_name_char_def word_char_def
        is_alnum_def is_alpha_def is_upper_def is_lower_def is_digit_def)
  then have "py_split CHR ''/'' (py_join ''/'' ([] # segs @ [name])) = [] # segs @ [name]"
    by (intro py_split_join) auto
  moreover have "py_join ''/'' ([] # segs @ [name]) = role_path segs @ name"
    by (simp add: py_join_slash role_path_def py_join_cons)
  ultimately have "py_split CHR ''/'' (role_path segs @ name) = [] # segs @ [name]" by simp
  moreover have "length account = 12" using assms by (simp add: role_arn_parts_def)
  ultimately show ?thesis
    using assms
    by (simp add: match_role_arn_def Let_def federation_role_arn_def role_arn_parts_def role_path_def
        py_startswith_def)
qed

lemma match_role_arn_sound:
  assumes "match_role_arn arn = Some (account, path, name)"
  shows "\<exists>segs. role_arn_parts account segs name \<and> path = role_path segs
    \<and> arn = federation_role_arn account segs name"
proof -
  define r q where "r = drop 12 (drop 13 arn)" and "q = drop 5 r"
  obtain ps where ps: "py_split CHR ''/'' q = [] # ps" "ps \<noteq> []"
    and ok: "list_all (\<lambda>p. p \<noteq> [] \<and> list_all iam_path_char p) (butlast ps)"
      "1 \<le> length name" "length name \<le> 64" "list_all iam_name_char name"
    and res: "account = take 12 (drop 13 arn)" "path = role_path (butlast ps)" "name = last ps"
    and pre: "py_startswith arn iam_prefix" "length account = 12" "list_all is_digit account"
      "py_startswith r '':role''"
    using assms unfolding match_role_arn_def Let_def role_path_def
    by (auto simp: r_def q_def split: if_splits list.splits)
  have "q = py_join ''/'' ([] # ps)" using py_join_split [of "CHR ''/''" q] ps(1) by simp
  then have q: "q = role_path (butlast ps) @ last ps"
    using ps(2) by (simp add: py_join_cons py_join_slash role_path_def)
  have "arn = iam_prefix @ drop 13 arn" using py_startswith_drop [OF pre(1)] by simp
  moreover have "drop 13 arn = account @ r"
    unfolding r_def res(1) by (metis append_take_drop_id)
  moreover have "r = '':role'' @ q"
    using py_startswith_drop [OF pre(4)] by (simp add: q_def eval_nat_numeral)
  ultimately have "arn = federation_role_arn account (butlast ps) name"
    using q res(3) by (metis append.assoc federation_role_arn_def)
  then show ?thesis using ok pre res by (auto simp: role_arn_parts_def)
qed

text \<open>
  C37: a federation role ARN is accepted exactly when it is an IAM role ARN in an allowed account
  under the configured path; every other ARN, and every ARN when no account is allowed, raises.
\<close>

theorem federation_role_accepted:
  "validate_federation_role_arn arn allowed role_prefix = Inr () \<longleftrightarrow>
     (\<exists>account segs name. role_arn_parts account segs name
        \<and> arn = federation_role_arn account segs name \<and> account \<in> set allowed
        \<and> py_startswith (role_path segs) role_prefix)"
proof
  assume "validate_federation_role_arn arn allowed role_prefix = Inr ()"
  then obtain account path name where "match_role_arn arn = Some (account, path, name)"
    "account \<in> set allowed" "py_startswith path role_prefix"
    by (auto simp: validate_federation_role_arn_def split: if_splits option.splits)
  with match_role_arn_sound show "\<exists>account segs name. role_arn_parts account segs name
        \<and> arn = federation_role_arn account segs name \<and> account \<in> set allowed
        \<and> py_startswith (role_path segs) role_prefix"
    by blast
next
  assume "\<exists>account segs name. role_arn_parts account segs name
        \<and> arn = federation_role_arn account segs name \<and> account \<in> set allowed
        \<and> py_startswith (role_path segs) role_prefix"
  then show "validate_federation_role_arn arn allowed role_prefix = Inr ()"
    by (auto simp: validate_federation_role_arn_def match_role_arn_complete)
qed

section \<open>The contract of an exchange adapter\<close>

text \<open>
  An adapter posts to the endpoints of its provider and nowhere else, and what it returns is a
  non-empty token.
\<close>

definition posts_to :: "string set \<Rightarrow> event \<Rightarrow> bool" where
  "posts_to urls ev \<longleftrightarrow> (\<exists>u b h. ev = EvHttpPost u b h \<and> u \<in> urls)"

locale token_exchange =
  fixes adapter :: "string \<Rightarrow> secret \<Rightarrow> ('x world, minted_token) eff"
    and urls :: "secret \<Rightarrow> string set"
  assumes posts: "calls (posts_to (urls s)) (adapter proof_jwt s)"
    and token: "adapter proof_jwt s w = (Inr m, w') \<Longrightarrow> mt_token m \<noteq> []"
begin

text \<open>No provider endpoint, no call: an adapter makes no STS, Redis or lock call.\<close>

lemma posts_trace:
  assumes "adapter proof_jwt s w = (r, w')"
  obtains evs where "trace w' = trace w @ evs" "list_all (posts_to (urls s)) evs"
  using callsD [OF posts assms] .

end

lemma calls_post_json [calls_rules]:
  "(\<And>b h. P (EvHttpPost url b h)) \<Longrightarrow> calls P (post_json svc adapter step url body headers)"
  unfolding post_json_def open_http_def
  by (auto intro!: calls_rules split: sum.split json.split)

lemma calls_oauth_exchange [calls_rules]:
  "(\<And>b h. P (EvHttpPost url b h)) \<Longrightarrow> calls P (oauth_exchange svc adapter step url body)"
  unfolding oauth_exchange_def by (intro calls_rules) auto

lemma oauth_exchange_token:
  "oauth_exchange svc adapter step url body w = (Inr m, w') \<Longrightarrow> mt_token m \<noteq> []"
  by (auto simp: oauth_exchange_def parse_oauth_def oauth_minted_token_def of_option_def Let_def
      field_defs dest!: bindE_InrD str_fieldD split: option.splits if_splits bind_splits)

interpretation anthropic: token_exchange "anthropic_exchange svc" "\<lambda>_. {ANTHROPIC_TOKEN_URL}"
  by unfold_locales
    (auto simp: anthropic_exchange_def posts_to_def intro!: calls_rules dest: oauth_exchange_token)

interpretation openai: token_exchange "openai_exchange svc" "\<lambda>_. {OPENAI_TOKEN_URL}"
  by unfold_locales
    (auto simp: openai_exchange_def posts_to_def intro!: calls_rules dest: oauth_exchange_token)

interpretation openrouter: token_exchange "openrouter_exchange svc" "\<lambda>_. {OPENROUTER_TOKEN_URL}"
  by unfold_locales
    (auto simp: openrouter_exchange_def posts_to_def intro!: calls_rules dest: oauth_exchange_token)

interpretation gcp: token_exchange "gcp_exchange svc"
  "\<lambda>s. {GOOGLE_STS_TOKEN_URL, google_iam_url (service_account s)}"
proof unfold_locales
  show "calls (posts_to {GOOGLE_STS_TOKEN_URL, google_iam_url (service_account s)})
      (gcp_exchange svc proof_jwt s)" for proof_jwt s
    unfolding gcp_exchange_def by (intro calls_rules) (simp_all add: posts_to_def)
  show "gcp_exchange svc proof_jwt s w = (Inr m, w') \<Longrightarrow> mt_token m \<noteq> []" for proof_jwt s w m w'
    by (auto simp: gcp_exchange_def parse_google_def of_option_def field_defs
        dest!: bindE_InrD str_fieldD split: option.splits bind_splits)
qed

section \<open>The calls of a mint\<close>

text \<open>The endpoints a secret's key may be requested from.\<close>

definition provider_urls :: "secret \<Rightarrow> string set" where
  "provider_urls s =
     (case s of
        AnthropicWifSecret _ _ _ _ _ _ _ \<Rightarrow> {ANTHROPIC_TOKEN_URL}
      | OpenAiWifSecret _ _ _ _ _ \<Rightarrow> {OPENAI_TOKEN_URL}
      | OpenRouterWifSecret _ _ _ _ \<Rightarrow> {OPENROUTER_TOKEN_URL}
      | GcpWifSecret _ _ _ _ _ _ \<Rightarrow> {GOOGLE_STS_TOKEN_URL, google_iam_url (service_account s)}
      | SecretsManagerAuthPayload _ _ \<Rightarrow> {})"

lemma calls_exchange: "calls (posts_to (provider_urls s)) (exchange svc proof_jwt s)"
proof (cases s)
  case (AnthropicWifSecret h r a b c d e)
  then show ?thesis
    using anthropic.posts [of svc _ s] by (simp add: exchange_def provider_urls_def)
next
  case (OpenAiWifSecret h r a b c)
  then show ?thesis using openai.posts [of svc _ s] by (simp add: exchange_def provider_urls_def)
next
  case (OpenRouterWifSecret h r a b)
  then show ?thesis
    using openrouter.posts [of svc _ s] by (simp add: exchange_def provider_urls_def)
next
  case (GcpWifSecret h r a b c d)
  then show ?thesis using gcp.posts [of s svc] by (simp add: exchange_def provider_urls_def)
qed (simp add: exchange_def calls_rules)

lemma exchange_token:
  assumes "exchange svc proof_jwt s w = (Inr m, w')" shows "mt_token m \<noteq> []"
  using assms
  by (cases s) (auto simp: exchange_def dest: anthropic.token openai.token openrouter.token gcp.token)

lemma calls_sts_endpoint [calls_rules]: "calls P (sts_endpoint svc cfg)"
  unfolding sts_endpoint_def by (auto intro!: calls_rules split: option.splits)

lemma trace_sts_endpoint: "sts_endpoint svc cfg w = (r, w') \<Longrightarrow> w' = w"
  by (auto simp: sts_endpoint_def bindE_get split: option.splits)

lemma trace_callE: "callE ev op w = (r, w') \<Longrightarrow> trace w' = trace w @ [ev]"
  by (auto simp: callE_def split: prod.splits)

lemma catchE_InrD: "catchE m h s = (Inr x, s') \<Longrightarrow>
    m s = (Inr x, s') \<or> (\<exists>e t. m s = (Inl e, t) \<and> h e t = (Inr x, s'))"
  by (auto simp: catchE_def split: prod.splits sum.splits)

definition issued_keys :: "role_response \<Rightarrow> client_keys" where
  "issued_keys r = \<lparr>ck_access = issued_access_key r, ck_secret = issued_secret_key r, ck_token = issued_token r\<rparr>"

lemma AwsCredentials_keys:
  "AwsCredentials a s t e = Inr c \<Longrightarrow> keys_of c = \<lparr>ck_access = a, ck_secret = s, ck_token = t\<rparr>"
  by (cases c) (auto simp: AwsCredentials_def keys_of_def split: if_splits)

lemma assume_federation_role_Inr:
  assumes "assume_federation_role svc cfg creds caller arn w = (Inr identity, w')"
  shows "\<exists>url role_name response. caller_role_name caller = Inr role_name
    \<and> assume_role svc (keys_of creds) url arn role_name 3600 (ext w) = (Inr response, ext w')
    \<and> trace w' = trace w @ [EvAssumeRole (keys_of creds) url arn role_name 3600]
    \<and> keys_of (fi_credentials identity) = issued_keys response
    \<and> fi_role_arn identity = arn \<and> fi_principal identity = role_name"
proof -
  obtain url role_name response wa where name: "caller_role_name caller = Inr role_name"
    and "sts_endpoint svc cfg w = (Inr url, wa)"
    and "callE (EvAssumeRole (keys_of creds) url arn role_name FEDERATION_SESSION_SECONDS)
          (assume_role svc (keys_of creds) url arn role_name FEDERATION_SESSION_SECONDS) wa = (Inr response, w')"
    and issued: "AwsCredentials (issued_access_key response) (issued_secret_key response)
              (issued_token response) (Some (issued_expiration response)) = Inr (fi_credentials identity)"
    and fields: "fi_role_arn identity = arn" "fi_principal identity = role_name"
    using assms unfolding assume_federation_role_def
    by (auto dest!: bindE_InrD catchE_InrD split: if_splits)
  moreover have "wa = w" using calculation(2) by (rule trace_sts_endpoint)
  moreover have "keys_of (fi_credentials identity) = issued_keys response"
    unfolding issued_keys_def by (rule AwsCredentials_keys [OF issued])
  ultimately show ?thesis
    by (auto simp: callE_def FEDERATION_SESSION_SECONDS_def split: prod.splits)
qed

lemma web_identity_token_Inr:
  assumes "web_identity_token svc cfg identity audience algorithm duration w = (Inr jwt, w')"
  shows "\<exists>url. get_web_identity_token svc (keys_of (fi_credentials identity)) url audience algorithm duration (ext w)
      = (Inr jwt, ext w')
    \<and> trace w' = trace w @ [EvWebIdentity (keys_of (fi_credentials identity)) url audience algorithm duration]"
  using assms unfolding web_identity_token_def
  by (auto simp: callE_def dest!: bindE_InrD catchE_InrD trace_sts_endpoint split: if_splits prod.splits)

lemma prove_Inr:
  assumes "prove svc cfg identity s w = (Inr jwt, w')"
  shows "\<exists>url alg dur. 60 \<le> dur \<and> dur \<le> 3600
    \<and> get_web_identity_token svc (keys_of (fi_credentials identity)) url (mint_audience s) alg dur (ext w)
      = (Inr jwt, ext w')
    \<and> trace w' = trace w @ [EvWebIdentity (keys_of (fi_credentials identity)) url (mint_audience s) alg dur]"
proof -
  obtain alg dur where "web_identity_token svc cfg identity (mint_audience s) alg dur w = (Inr jwt, w')"
    "60 \<le> dur" "dur \<le> 3600"
    using assms unfolding prove_def
    by (cases s) (auto simp: IDENTITY_TOKEN_SECONDS_def OPENAI_IDENTITY_TOKEN_SECONDS_def
        OPENROUTER_IDENTITY_TOKEN_SECONDS_def)
  then show ?thesis using web_identity_token_Inr by blast
qed

text \<open>
  \<open>answered svc u b h x x' d\<close>: the POST of \<open>b\<close> to \<open>u\<close> with headers \<open>h\<close> was answered with status 200 and the
  JSON object \<open>d\<close>.  \<open>oauth_reply svc d t m\<close>: \<open>m\<close> is the token of that object, with the lifetime it states,
  counted from the time \<open>t\<close>.
\<close>

definition answered ::
  "'x services \<Rightarrow> string \<Rightarrow> http_body \<Rightarrow> (string \<times> string) list \<Rightarrow> 'x \<Rightarrow> 'x \<Rightarrow> (string \<times> json) list \<Rightarrow> bool" where
  "answered svc u b h x x' d \<longleftrightarrow>
     (\<exists>resp. http_post svc u b h x = (Inr resp, x') \<and> status_code resp = 200 \<and> resp_json resp = Inr (JDict d))"

definition oauth_reply :: "'x services \<Rightarrow> (string \<times> json) list \<Rightarrow> int \<Rightarrow> minted_token \<Rightarrow> bool" where
  "oauth_reply svc d t m \<longleftrightarrow>
     map_of d ''access_token'' = Some (JStr (mt_token m))
     \<and> (\<exists>v n. map_of d ''expires_in'' = Some v \<and> lax_int svc v = Some n \<and> 0 < n
          \<and> mt_expires_at m = utc_datetime (t + n * us_per_s))"

definition google_reply :: "'x services \<Rightarrow> (string \<times> json) list \<Rightarrow> minted_token \<Rightarrow> bool" where
  "google_reply svc d m \<longleftrightarrow>
     map_of d ''accessToken'' = Some (JStr (mt_token m))
     \<and> (\<exists>v. map_of d ''expireTime'' = Some v \<and> aware_datetime svc v = Some (mt_expires_at m))"

definition carries_proof :: "string \<Rightarrow> http_body \<Rightarrow> bool" where
  "carries_proof jwt b \<longleftrightarrow>
     (case b of
        JsonBody (JDict d) \<Rightarrow> map_of d ''assertion'' = Some (JStr jwt) \<or> map_of d ''subject_token'' = Some (JStr jwt)
      | FormBody d \<Rightarrow> map_of d ''subject_token'' = Some jwt
      | _ \<Rightarrow> False)"

definition token_url :: "secret \<Rightarrow> string" where
  "token_url s =
     (case s of
        AnthropicWifSecret _ _ _ _ _ _ _ \<Rightarrow> ANTHROPIC_TOKEN_URL
      | OpenAiWifSecret _ _ _ _ _ \<Rightarrow> OPENAI_TOKEN_URL
      | OpenRouterWifSecret _ _ _ _ \<Rightarrow> OPENROUTER_TOKEN_URL
      | GcpWifSecret _ _ _ _ _ _ \<Rightarrow> GOOGLE_STS_TOKEN_URL
      | SecretsManagerAuthPayload _ _ \<Rightarrow> [])"

text \<open>
  What follows the first POST: for Google, the impersonation of the secret's service account with the
  federated token just obtained, whose answer is the key; for the others nothing, the first answer is it.
\<close>

definition rest_of_exchange ::
  "'x services \<Rightarrow> secret \<Rightarrow> int \<Rightarrow> (string \<times> json) list \<Rightarrow> 'x \<Rightarrow> 'x \<Rightarrow> minted_token \<Rightarrow> event list \<Rightarrow> bool" where
  "rest_of_exchange svc s t d x x' m evs \<longleftrightarrow>
     (case s of
        GcpWifSecret _ _ _ account _ _ \<Rightarrow>
          (\<exists>federated body d2. map_of d ''access_token'' = Some (JStr federated)
             \<and> evs = [EvHttpPost (google_iam_url account) body [(''Authorization'', ''Bearer '' @ federated)]]
             \<and> answered svc (google_iam_url account) body [(''Authorization'', ''Bearer '' @ federated)] x x' d2
             \<and> google_reply svc d2 m)
      | _ \<Rightarrow> evs = [] \<and> x' = x \<and> oauth_reply svc d t m)"

lemma post_json_Inr:
  assumes "post_json svc adapter step u b h w = (Inr d, w')"
  shows "answered svc u b h (ext w) (ext w') d \<and> trace w' = trace w @ [EvHttpPost u b h]"
proof -
  obtain w1 resp where "open_http adapter w = (Inr (), w1)"
    and call: "callE (EvHttpPost u b h) (http_post svc u b h) w1 = (Inr resp, w')"
    and "status_code resp = 200" "resp_json resp = Inr (JDict d)"
    using assms unfolding post_json_def
    by (auto dest!: bindE_InrD catchE_InrD split: if_splits sum.splits json.splits)
  moreover from this have "ext w1 = ext w" "trace w1 = trace w"
    by (auto simp: open_http_def split: if_splits)
  ultimately show ?thesis by (auto simp: answered_def callE_def split: prod.splits)
qed

lemma parse_oauth_Inr:
  assumes "parse_oauth svc d step = Inr r"
  shows "map_of d ''access_token'' = Some (JStr (access_token r))
    \<and> (\<exists>v. map_of d ''expires_in'' = Some v \<and> lax_int svc v = Some (expires_in r)) \<and> 0 < expires_in r"
  using assms by (auto simp: parse_oauth_def of_option_def str_field_def
      split: option.splits if_splits bind_splits json.splits)

lemma parse_google_Inr: "parse_google svc d step = Inr m \<Longrightarrow> google_reply svc d m"
  by (auto simp: parse_google_def google_reply_def of_option_def str_field_def
      split: option.splits if_splits bind_splits json.splits)

lemma oauth_exchange_Inr:
  assumes "oauth_exchange svc adapter step u b w = (Inr m, w')"
  shows "\<exists>d. answered svc u b [] (ext w) (ext w') d \<and> trace w' = trace w @ [EvHttpPost u b []]
    \<and> oauth_reply svc d (clock svc (ext w)) m"
proof -
  obtain d r where post: "post_json svc adapter step u b [] w = (Inr d, w')" and r: "parse_oauth svc d step = Inr r"
    and m: "oauth_minted_token r (clock svc (ext w)) = Inr m"
    using assms unfolding oauth_exchange_def now_us_def by (auto dest!: bindE_InrD)
  have "oauth_reply svc d (clock svc (ext w)) m"
    using parse_oauth_Inr [OF r] m by (auto simp: oauth_minted_token_def oauth_reply_def Let_def split: if_splits)
  then show ?thesis using post_json_Inr [OF post] by blast
qed

lemma oauth_route:
  assumes "oauth_exchange svc adapter step (token_url s) b w = (Inr m, w')" "carries_proof jwt b"
    and "\<And>t d x x' evs. rest_of_exchange svc s t d x x' m evs \<longleftrightarrow> evs = [] \<and> x' = x \<and> oauth_reply svc d t m"
  shows "\<exists>body d x evs. carries_proof jwt body
    \<and> answered svc (token_url s) body [] (ext w) x d
    \<and> rest_of_exchange svc s (clock svc (ext w)) d x (ext w') m evs
    \<and> trace w' = trace w @ EvHttpPost (token_url s) body [] # evs"
  using oauth_exchange_Inr [OF assms(1)] assms(2,3) by auto

lemma exchange_Inr:
  assumes "exchange svc jwt s w = (Inr m, w')"
  shows "\<exists>body d x evs. carries_proof jwt body
    \<and> answered svc (token_url s) body [] (ext w) x d
    \<and> rest_of_exchange svc s (clock svc (ext w)) d x (ext w') m evs
    \<and> trace w' = trace w @ EvHttpPost (token_url s) body [] # evs"
proof (cases s)
  case (AnthropicWifSecret h r a b c d e)
  have "oauth_exchange svc ''anthropic'' ''Anthropic token exchange'' (token_url s) (anthropic_body jwt s) w = (Inr m, w')"
    using assms AnthropicWifSecret by (simp add: exchange_def anthropic_exchange_def token_url_def)
  then show ?thesis
    by (rule oauth_route)
      (simp_all add: AnthropicWifSecret carries_proof_def anthropic_body_def rest_of_exchange_def)
next
  case (OpenAiWifSecret h r a b c)
  then show ?thesis using assms unfolding exchange_def openai_exchange_def
    by (intro oauth_route [of svc _ _ s _ w m w' jwt])
      (auto simp: token_url_def carries_proof_def rest_of_exchange_def)
next
  case (OpenRouterWifSecret h r a b)
  then show ?thesis using assms unfolding exchange_def openrouter_exchange_def
    by (intro oauth_route [of svc _ _ s _ w m w' jwt])
      (auto simp: token_url_def carries_proof_def rest_of_exchange_def)
next
  case (GcpWifSecret h r a b c e)
  define body where "body = FormBody [(''grant_type'', TOKEN_EXCHANGE_GRANT_TYPE), (''audience'', mint_audience s),
          (''scope'', GOOGLE_IAM_SCOPE), (''requested_token_type'', GOOGLE_ACCESS_TOKEN_TYPE),
          (''subject_token_type'', JWT_TOKEN_TYPE), (''subject_token'', jwt)]"
  define body2 where "body2 = JsonBody (JDict [(''scope'', JList (List.map JStr (scopes s))),
          (''lifetime'', JStr (int_str (token_lifetime_seconds s) @ ''s''))])"
  obtain d wa ft d2 where first: "post_json svc ''gcp'' ''Google STS exchange'' (token_url s) body [] w = (Inr d, wa)"
    and ft: "parse_oauth svc d ''Google STS exchange'' = Inr ft"
    and second: "post_json svc ''gcp'' ''Google service-account impersonation''
       (google_iam_url (service_account s)) body2 [(''Authorization'', ''Bearer '' @ access_token ft)] wa = (Inr d2, w')"
    and m: "parse_google svc d2 ''Google service-account impersonation'' = Inr m"
    using assms GcpWifSecret unfolding exchange_def gcp_exchange_def token_url_def
    by (auto simp: body_def body2_def simp del: append.simps dest!: bindE_InrD)
  have "carries_proof jwt body" by (simp add: carries_proof_def body_def)
  moreover have "rest_of_exchange svc s (clock svc (ext w)) d (ext wa) (ext w') m
      [EvHttpPost (google_iam_url (service_account s)) body2 [(''Authorization'', ''Bearer '' @ access_token ft)]]"
    using parse_oauth_Inr [OF ft] post_json_Inr [OF second] parse_google_Inr [OF m] GcpWifSecret
    by (simp add: rest_of_exchange_def) blast
  ultimately show ?thesis using post_json_Inr [OF first] post_json_Inr [OF second] by fastforce
qed (use assms in \<open>simp add: exchange_def\<close>)

text \<open>
  C8: a mint that returns made exactly these calls, in this order.  It assumed the secret's role with the
  caller's credentials under the caller's role name; with the credentials STS issued for the role, and no
  others, it had an identity token issued for the secret's audience; it posted a body that carries this
  token to the secret's provider, which answered 200 with a JSON object; for a Google secret, and only then,
  it posted once more, to impersonate the secret's service account with the federated token of that answer;
  and it logged the mint with the role and the caller's role name.  The key and its expiry are those of the
  last answer, the key is not empty, and the role passed validation.
\<close>

theorem mint_order:
  assumes "mint svc cfg creds caller s w = (Inr m, w')"
  shows "\<exists>url role_name response x1 url2 alg dur jwt x2 body d x3 evs fs.
    validate_federation_role_arn (mint_role_arn s) (allowed_account_ids (cfg_federation cfg))
      (role_path_prefix (cfg_federation cfg)) = Inr ()
    \<and> caller_role_name caller = Inr role_name
    \<and> assume_role svc (keys_of creds) url (mint_role_arn s) role_name 3600 (ext w) = (Inr response, x1)
    \<and> get_web_identity_token svc (issued_keys response) url2 (mint_audience s) alg dur x1 = (Inr jwt, x2)
    \<and> 60 \<le> dur \<and> dur \<le> 3600
    \<and> carries_proof jwt body \<and> answered svc (token_url s) body [] x2 x3 d
    \<and> rest_of_exchange svc s (clock svc x2) d x3 (ext w') m evs
    \<and> trace w' = trace w @ [EvAssumeRole (keys_of creds) url (mint_role_arn s) role_name 3600,
        EvWebIdentity (issued_keys response) url2 (mint_audience s) alg dur,
        EvHttpPost (token_url s) body []] @ evs @ [EvLog fs]
    \<and> list_all (posts_to (provider_urls s)) (EvHttpPost (token_url s) body [] # evs)
    \<and> map_of fs ''federation_role_arn'' = Some (JStr (mint_role_arn s))
    \<and> map_of fs ''principal'' = Some (JStr role_name)
    \<and> mt_token m \<noteq> []"
proof -
  obtain identity jwt wa wb wc where
    ok: "validate_federation_role_arn (mint_role_arn s) (allowed_account_ids (cfg_federation cfg))
      (role_path_prefix (cfg_federation cfg)) = Inr ()"
    and assumed: "assume_federation_role svc cfg creds caller (mint_role_arn s) w = (Inr identity, wa)"
    and proved: "prove svc cfg identity s wa = (Inr jwt, wb)"
    and exchanged: "exchange svc jwt s wb = (Inr m, wc)"
    and logged: "logE (mint_log s identity (identity_token_id jwt)) wc = (Inr (), w')"
    using assms unfolding mint_def timeoutE_def
    by (auto dest!: bindE_InrD catchE_InrD split: if_splits)
  obtain body d x evs where e: "carries_proof jwt body" "answered svc (token_url s) body [] (ext wb) x d"
    "rest_of_exchange svc s (clock svc (ext wb)) d x (ext wc) m evs"
    "trace wc = trace wb @ EvHttpPost (token_url s) body [] # evs"
    using exchange_Inr [OF exchanged] by blast
  have "list_all (posts_to (provider_urls s)) (EvHttpPost (token_url s) body [] # evs)"
    using callsD [OF calls_exchange exchanged] e(4) by auto
  moreover have "ext w' = ext wc" "trace w' = trace wc @ [EvLog (mint_log s identity (identity_token_id jwt))]"
    using logged by (auto simp: logE_def)
  moreover have "map_of (mint_log s i t) ''federation_role_arn'' = Some (JStr (fi_role_arn i))"
    "map_of (mint_log s i t) ''principal'' = Some (JStr (fi_principal i))" for i t
    by (simp_all add: mint_log_def)
  ultimately show ?thesis
    using ok assume_federation_role_Inr [OF assumed] prove_Inr [OF proved] e exchange_token [OF exchanged]
    by (smt (verit) append.assoc append_Cons append_Nil)
qed

section \<open>The errors of a mint\<close>

definition sts_error :: "exn \<Rightarrow> bool" where
  "sts_error e \<longleftrightarrow> isinstance e [ClientErrorC, BotoCoreErrorC] \<or> class_of e = CancelledErrorC"

definition http_error :: "exn \<Rightarrow> bool" where
  "http_error e \<longleftrightarrow> isinstance e [HTTPErrorC] \<or> class_of e = CancelledErrorC"

text \<open>What botocore and httpx document that their calls raise, and \<open>response.json()\<close>.\<close>

definition upstream_documented :: "'x services \<Rightarrow> bool" where
  "upstream_documented svc \<longleftrightarrow>
     (\<forall>ck url arn n d. raises sts_error (assume_role svc ck url arn n d))
     \<and> (\<forall>ck url aud g d. raises sts_error (get_web_identity_token svc ck url aud g d))
     \<and> (\<forall>url b h. raises http_error (http_post svc url b h))
     \<and> (\<forall>url b h x resp x' e. http_post svc url b h x = (Inr resp, x') \<longrightarrow> resp_json resp = Inl e
          \<longrightarrow> isinstance e [ValueErrorC])"

definition mint_error :: "exn \<Rightarrow> bool" where
  "mint_error e \<longleftrightarrow>
     isinstance e [AuthenticationErrorC, UpstreamServiceErrorC, ConfigurationErrorC, InputValidationErrorC]
     \<or> e = attribute_error \<or> e = overflow_error"

definition step_error :: "exn \<Rightarrow> bool" where
  "step_error e \<longleftrightarrow> mint_error e \<or> class_of e = CancelledErrorC"

lemma mint_error_classes [simp]:
  "mint_error (AuthenticationError m)" "mint_error (CredentialsError m)"
  "mint_error (UpstreamServiceError m)" "mint_error (ConfigurationError m)"
  "mint_error (InputValidationError f m)" "mint_error attribute_error" "mint_error overflow_error"
  by (simp_all add: mint_error_def)

lemma step_error_mint [simp]: "mint_error e \<Longrightarrow> step_error e"
  by (simp add: step_error_def)

lemma raises_sts_endpoint [raises_rules]: "raises step_error (sts_endpoint svc cfg)"
  unfolding sts_endpoint_def
  by (auto intro!: raises_rules split: option.split)


definition upstream_error :: "exn \<Rightarrow> bool" where
  "upstream_error e \<longleftrightarrow> step_error e \<or> sts_error e"

lemma raises_upstream:
  assumes "upstream_documented svc"
  shows "raises upstream_error (assume_role svc ck url arn n d)"
    "raises upstream_error (get_web_identity_token svc ck url aud g d)"
    "raises http_error (http_post svc url b h)"
    "http_post svc url b h x = (Inr resp, x') \<Longrightarrow> resp_json resp = Inl e \<Longrightarrow> isinstance e [ValueErrorC]"
  using assms by (simp_all add: upstream_documented_def raises_def upstream_error_def)
    (blast | metis)+

lemma raises_endpoint: "raises upstream_error (sts_endpoint svc cfg)"
  by (rule raises_weaken [OF raises_sts_endpoint]) (simp add: upstream_error_def)

lemma raises_assume:
  assumes "upstream_documented svc"
  shows "raises step_error (assume_federation_role svc cfg creds caller arn)"
  unfolding assume_federation_role_def
  by (intro raises_bind raises_catch [where Q = upstream_error] raises_call raises_endpoint
      raises_upstream [OF assms] raises_ret)
    (auto intro!: raises_rules simp: AwsCredentials_def mk_InputValidationError_def caller_role_name_def
      caller_session_def upstream_error_def sts_error_def step_error_def mint_error_def
      split: if_splits json.splits)

lemma raises_web_identity:
  assumes "upstream_documented svc" "60 \<le> dur" "dur \<le> 3600"
  shows "raises step_error (web_identity_token svc cfg identity aud g dur)"
  unfolding web_identity_token_def using assms(2,3)
  by (simp, intro raises_bind raises_catch [where Q = upstream_error] raises_call raises_endpoint
      raises_upstream [OF assms(1)] raises_ret)
    (auto intro!: raises_rules simp: upstream_error_def sts_error_def step_error_def
      mint_error_def)

lemma raises_prove:
  "upstream_documented svc \<Longrightarrow> raises step_error (prove svc cfg identity s)"
  unfolding prove_def
  by (cases s) (simp_all add: raises_web_identity IDENTITY_TOKEN_SECONDS_def
      OPENAI_IDENTITY_TOKEN_SECONDS_def OPENROUTER_IDENTITY_TOKEN_SECONDS_def)

lemma raises_post:
  assumes "upstream_documented svc"
  shows "raises step_error (post_json svc adapter step url body headers)"
  unfolding raises_def
proof (intro allI impI)
  fix w e w'
  assume run: "post_json svc adapter step url body headers w = (Inl e, w')"
  define c where "c = catchE (callE (EvHttpPost url body headers) (http_post svc url body headers))
          (\<lambda>e. if isinstance e [HTTPErrorC]
               then raiseE (UpstreamServiceError (step @ '' is unavailable'')) else raiseE e)"
  have c: "raises step_error c"
    unfolding c_def
    by (rule raises_catch [where Q = http_error])
      (auto intro!: raises_rules raises_upstream [OF assms] simp: http_error_def step_error_def mint_error_def)
  have resp: "isinstance e' [ValueErrorC]" if "c v = (Inr resp, v')" "resp_json resp = Inl e'" for v resp v' e'
    using that raises_upstream(4) [OF assms] unfolding c_def
    by (auto dest!: catchE_InrD simp: callE_def split: prod.splits if_splits)
  show "step_error e"
    using run c resp unfolding post_json_def c_def [symmetric] open_http_def raises_def
    by (auto dest!: bindE_InlD simp: http_status_error_def Let_def split: if_splits sum.splits json.splits)
qed

lemma raises_oauth:
  assumes "upstream_documented svc"
  shows "raises step_error (oauth_exchange svc adapter step url body)"
  unfolding oauth_exchange_def
  by (intro raises_bind raises_post [OF assms] raises_rules)
    (auto simp: parse_oauth_def oauth_minted_token_def malformed_def of_option_def Let_def
      split: option.splits if_splits)

lemma raises_exchange:
  assumes "upstream_documented svc" shows "raises step_error (exchange svc proof_jwt s)"
proof (cases s)
  case (GcpWifSecret h r a b c d)
  have "raises step_error (gcp_exchange svc proof_jwt s)"
    unfolding gcp_exchange_def
    by (intro raises_bind raises_post [OF assms] raises_rules)
      (auto simp: parse_oauth_def parse_google_def malformed_def of_option_def split: option.splits)
  then show ?thesis using GcpWifSecret by (simp add: exchange_def)
qed (simp_all add: exchange_def anthropic_exchange_def openai_exchange_def openrouter_exchange_def
    raises_oauth [OF assms] raises_raise)

text \<open>
  C27: a mint fails only with the program's authentication, upstream, configuration or input
  errors, with an \<open>AttributeError\<close> for a principal that is no string, or with the
  \<open>OverflowError\<close> of an expiry past the last date; its own time limit becomes an upstream
  error, and only a cancellation of the caller passes through it.
\<close>

theorem mint_errors:
  assumes "upstream_documented svc" "mint svc cfg creds caller s w = (Inl e, w')"
  shows "mint_error e \<or> (class_of e = CancelledErrorC \<and> e \<noteq> Cancelled ''mint'')"
proof -
  let ?passed = "\<lambda>e. step_error e \<and> e \<noteq> Cancelled ''mint'' \<or> e = PyTimeoutError []"
  have body: "raises ?passed (timeoutE ''mint'' (bindE (assume_federation_role svc cfg creds caller (mint_role_arn s))
      (\<lambda>identity. bindE (prove svc cfg identity s) (\<lambda>proof_jwt.
        bindE (exchange svc proof_jwt s) (\<lambda>minted. retE (identity, proof_jwt, minted))))))"
    unfolding timeoutE_def
    by (intro raises_catch [where Q = step_error] raises_bind raises_assume raises_prove raises_exchange
        assms(1) raises_ret) (auto intro!: raises_rules)
  have "raises (\<lambda>e. mint_error e \<or> (class_of e = CancelledErrorC \<and> e \<noteq> Cancelled ''mint''))
    (mint svc cfg creds caller s)"
    unfolding mint_def
    by (intro raises_bind raises_catch [OF _ body])
      (auto intro!: raises_rules simp: step_error_def validate_federation_role_arn_def split: option.splits if_splits)
  then show ?thesis using assms(2) by (rule raisesD)
qed

text \<open>
  C4: a mint whose secret names a role that validation refuses raises the authentication error of
  the validation and leaves the world as it was: no call is made and nothing is logged.
\<close>

theorem mint_refused:
  assumes "validate_federation_role_arn (mint_role_arn s) (allowed_account_ids (cfg_federation cfg))
    (role_path_prefix (cfg_federation cfg)) = Inl e"
  shows "mint svc cfg creds caller s w = (Inl e, w) \<and> class_of e = AuthenticationErrorC"
  using assms
  by (auto simp: mint_def bindE_def validate_federation_role_arn_def split: if_splits option.splits)

section \<open>The mint on concrete services\<close>

definition demo_account :: "config \<Rightarrow> config" where
  "demo_account cfg = cfg\<lparr>cfg_federation := (cfg_federation cfg)\<lparr>allowed_account_ids := [''123456789012''],
     role_path_prefix := ''/''\<rparr>\<rparr>"

definition demo_mint_secret :: secret where
  "demo_mint_secret = AnthropicWifSecret ''api.anthropic.com''
     (federation_role_arn ''123456789012'' [] ''r'') ''rule'' ''org'' ''account'' None ''aud''"

definition demo_caller :: principal_info where
  "demo_caller = PrincipalInfo_empty\<lparr>pi_principal := JStr ''assumed-role/dev'',
     pi_session_name := JStr ''session''\<rparr>"

definition demo_sim :: sim where
  "demo_sim = sim0\<lparr>sim_http := [\<lparr>status_code = 200,
     resp_json = Inr (JDict [(''access_token'', JStr ''key''), (''expires_in'', JInt 600)])\<rparr>]\<rparr>"

definition offline_svc :: "sim services" where
  "offline_svc = sim_svc\<lparr>http_post := \<lambda>_ _ _. raiseE (PyError HTTPErrorC ''ConnectError'' ''no route'')\<rparr>"

lemma demo_accepted:
  "validate_federation_role_arn (mint_role_arn demo_mint_secret)
     (allowed_account_ids (cfg_federation (demo_account cfg)))
     (role_path_prefix (cfg_federation (demo_account cfg))) = Inr ()"
proof -
  have "role_arn_parts ''123456789012'' [] ''r''" by code_simp
  then have "match_role_arn (mint_role_arn demo_mint_secret) = Some (''123456789012'', ''/'', ''r'')"
    using match_role_arn_complete [of "''123456789012''" "[]" "''r''"]
    by (simp add: demo_mint_secret_def role_path_def)
  then show ?thesis
    by (simp add: validate_federation_role_arn_def demo_account_def py_startswith_def)
qed

lemma demo_is_mint [simp]: "is_mint_secret demo_mint_secret"
  by (simp add: demo_mint_secret_def)

lemma demo_role_name: "caller_role_name demo_caller = Inr ''dev''"
  by code_simp


lemma demo_session: "caller_session demo_caller = Inr (JStr ''session'')"
  by code_simp

lemma offline_region: "aws_region offline_svc = aws_region sim_svc"
  by (simp add: offline_svc_def)

lemma demo_endpoint_offline: "sts_endpoint offline_svc cfg w = sts_endpoint sim_svc cfg w"
  unfolding sts_endpoint_def offline_region ..

lemma demo_proof:
  assumes "svc = sim_svc \<or> svc = offline_svc"
  shows "\<exists>identity evs. bindE (assume_federation_role svc cfg creds demo_caller arn) (\<lambda>identity.
     bindE (prove svc cfg identity demo_mint_secret) (\<lambda>jwt. retE (identity, jwt))) (sim_world x)
     = (Inr (identity, ''jwt''), (sim_world x)\<lparr>trace := evs\<rparr>)"
proof -
  obtain url where url: "\<And>w. sts_endpoint svc cfg w = (Inr url, w)"
  proof -
    obtain u where "\<And>w. sts_endpoint sim_svc cfg w = (Inr u, w)"
      by (cases "nonblank (sts_endpoint_url (cfg_federation cfg))"; cases "nonblank (endpoint_url (cfg_aws cfg))")
        (simp_all add: sts_endpoint_def bindE_def nonblank_def)
    with that show ?thesis using assms demo_endpoint_offline by metis
  qed
  have "assume_role svc = assume_role sim_svc" "get_web_identity_token svc = get_web_identity_token sim_svc"
    using assms by (auto simp: offline_svc_def)
  then show ?thesis
    by (auto simp: demo_mint_secret_def assume_federation_role_def demo_role_name demo_session bindE_def catchE_def url
        callE_def sim_role_def AwsCredentials_def prove_def web_identity_token_def
        IDENTITY_TOKEN_SECONDS_def fun_eq_iff)
qed

lemma mint_split:
  "bindE (assume_federation_role svc cfg creds caller arn) (\<lambda>identity.
     bindE (prove svc cfg identity s) (\<lambda>jwt. bindE (exchange svc jwt s) (\<lambda>minted. retE (identity, jwt, minted))))
   = bindE (bindE (assume_federation_role svc cfg creds caller arn) (\<lambda>identity.
     bindE (prove svc cfg identity s) (\<lambda>jwt. retE (identity, jwt)))) (\<lambda>(identity, jwt).
     bindE (exchange svc jwt s) (\<lambda>minted. retE (identity, jwt, minted)))"
  by (auto simp: bindE_def fun_eq_iff split: prod.split sum.split)

lemma demo_exchange:
  "\<exists>m w'. exchange sim_svc jwt demo_mint_secret ((sim_world demo_sim)\<lparr>trace := evs\<rparr>) = (Inr m, w')"
  "\<exists>w'. exchange offline_svc jwt demo_mint_secret ((sim_world x)\<lparr>trace := evs\<rparr>)
     = (Inl (UpstreamServiceError ''Anthropic token exchange is unavailable''), w')"
  by (auto simp: demo_mint_secret_def exchange_def anthropic_exchange_def oauth_exchange_def post_json_def open_http_def
      now_us_def callE_def bindE_def catchE_def sim_http_post_def demo_sim_def sim0_def offline_svc_def
      parse_oauth_def str_field_def nonempty_def oauth_minted_token_def utc_datetime_def
      epoch_wall_def us_per_s_def us_per_day_def max_days_def)


lemma demo_mint:
  assumes "svc = sim_svc \<or> svc = offline_svc"
    and "\<And>jwt evs. \<exists>w'. exchange svc jwt demo_mint_secret ((sim_world x)\<lparr>trace := evs\<rparr>) = (r, w')"
    and "\<And>e. r = Inl e \<Longrightarrow> is_Exception e \<and> \<not> isinstance e [TimeoutErrorC]"
  shows "\<exists>w'. mint svc (demo_account cfg) creds demo_caller demo_mint_secret (sim_world x) = (r, w')"
proof -
  define m where "m = bindE (assume_federation_role svc (demo_account cfg) creds demo_caller
      (mint_role_arn demo_mint_secret)) (\<lambda>identity.
     bindE (prove svc (demo_account cfg) identity demo_mint_secret) (\<lambda>jwt. retE (identity, jwt)))"
  obtain identity evs where p: "m (sim_world x) = (Inr (identity, ''jwt''), (sim_world x)\<lparr>trace := evs\<rparr>)"
    unfolding m_def using demo_proof [OF assms(1)] by blast
  obtain w' where e: "exchange svc ''jwt'' demo_mint_secret ((sim_world x)\<lparr>trace := evs\<rparr>) = (r, w')"
    using assms(2) by blast
  have "e \<noteq> Cancelled ''mint''" if "r = Inl e" for e
    using assms(3) [OF that] by (auto simp: is_Exception_iff)
  then show ?thesis
    using assms(3) p e unfolding mint_def demo_accepted mint_split m_def [symmetric]
    by (cases r) (simp_all add: bindE_def timeoutE_def catchE_def logE_def)
qed

lemma demo_minted:
  "\<exists>m w'. mint sim_svc (demo_account cfg) creds demo_caller demo_mint_secret (sim_world demo_sim) = (Inr m, w')"
proof -
  obtain m where m: "\<And>jwt evs. \<exists>w'. exchange sim_svc jwt demo_mint_secret ((sim_world demo_sim)\<lparr>trace := evs\<rparr>)
      = (Inr m, w')"
    by (auto simp: demo_mint_secret_def exchange_def anthropic_exchange_def oauth_exchange_def post_json_def
        open_http_def now_us_def callE_def bindE_def catchE_def sim_http_post_def demo_sim_def sim0_def
        parse_oauth_def str_field_def nonempty_def oauth_minted_token_def utc_datetime_def
        epoch_wall_def us_per_s_def us_per_day_def max_days_def)
  show ?thesis using demo_mint [where r = "Inr m", OF _ m] by blast
qed

lemma demo_offline:
  "\<exists>w'. mint offline_svc (demo_account cfg) creds demo_caller demo_mint_secret (sim_world x)
     = (Inl (UpstreamServiceError ''Anthropic token exchange is unavailable''), w')"
  by (rule demo_mint [OF _ demo_exchange(2)]) (auto simp: is_Exception_iff)

lemma offline_documented: "upstream_documented offline_svc"
  by (auto simp: upstream_documented_def offline_svc_def raises_def http_error_def)

theorem mint_order_witness:
  "\<forall>cfg creds. \<exists>m w' url role_name ck url2 alg dur body fs.
     mint sim_svc (demo_account cfg) creds demo_caller demo_mint_secret (sim_world demo_sim) = (Inr m, w')
     \<and> trace w' = [EvAssumeRole (keys_of creds) url (mint_role_arn demo_mint_secret) role_name 3600,
         EvWebIdentity ck url2 (mint_audience demo_mint_secret) alg dur,
         EvHttpPost ANTHROPIC_TOKEN_URL body [], EvLog fs]
     \<and> mt_token m \<noteq> []"
proof (intro allI)
  fix cfg creds
  obtain m w' where run: "mint sim_svc (demo_account cfg) creds demo_caller demo_mint_secret (sim_world demo_sim)
    = (Inr m, w')"
    using demo_minted by blast
  have "token_url demo_mint_secret = ANTHROPIC_TOKEN_URL"
    "rest_of_exchange sim_svc demo_mint_secret t d x x' m evs \<Longrightarrow> evs = []" for t d x x' m evs
    by (simp_all add: demo_mint_secret_def token_url_def rest_of_exchange_def)
  then show "\<exists>m w' url role_name ck url2 alg dur body fs.
     mint sim_svc (demo_account cfg) creds demo_caller demo_mint_secret (sim_world demo_sim) = (Inr m, w')
     \<and> trace w' = [EvAssumeRole (keys_of creds) url (mint_role_arn demo_mint_secret) role_name 3600,
         EvWebIdentity ck url2 (mint_audience demo_mint_secret) alg dur,
         EvHttpPost ANTHROPIC_TOKEN_URL body [], EvLog fs]
     \<and> mt_token m \<noteq> []"
    using run mint_order [OF run] by fastforce
qed

theorem mint_errors_witness:
  "\<forall>cfg creds. \<exists>w'. mint offline_svc (demo_account cfg) creds demo_caller demo_mint_secret (sim_world sim0)
     = (Inl (UpstreamServiceError ''Anthropic token exchange is unavailable''), w')
     \<and> mint_error (UpstreamServiceError ''Anthropic token exchange is unavailable'')"
  using demo_offline mint_errors [OF offline_documented] by fastforce

definition demo_disabled :: "config \<Rightarrow> config" where
  "demo_disabled cfg = cfg\<lparr>cfg_federation := (cfg_federation cfg)\<lparr>allowed_account_ids := []\<rparr>\<rparr>"

theorem mint_refused_witness:
  "\<forall>cfg creds. \<exists>e. mint sim_svc (demo_disabled cfg) creds demo_caller demo_mint_secret (sim_world sim0)
     = (Inl e, sim_world sim0) \<and> class_of e = AuthenticationErrorC"
proof (intro allI)
  fix cfg creds
  have "validate_federation_role_arn (mint_role_arn demo_mint_secret)
      (allowed_account_ids (cfg_federation (demo_disabled cfg)))
      (role_path_prefix (cfg_federation (demo_disabled cfg)))
    = Inl (AuthenticationError ''Token minting is disabled: FEDERATION_ALLOWED_ACCOUNT_IDS is not set'')"
    by (simp add: validate_federation_role_arn_def demo_disabled_def)
  from mint_refused [OF this]
  show "\<exists>e. mint sim_svc (demo_disabled cfg) creds demo_caller demo_mint_secret (sim_world sim0)
     = (Inl e, sim_world sim0) \<and> class_of e = AuthenticationErrorC" by blast
qed

end
