(* ===== verification/Auth.thy ===== *)
theory Auth
  imports Federation Arn
begin

text \<open>
  \<open>services/secrets_service.py\<close> and \<open>services/auth_service.py\<close>: the caller's identity from STS, the
  secret from Secrets Manager, and \<open>authenticate\<close>, which composes them with the cache and the mint.
\<close>

definition MINTED_TOKEN_HEADER :: string where "MINTED_TOKEN_HEADER = ''authorization''"
definition MINTED_TOKEN_PREFIX :: string where "MINTED_TOKEN_PREFIX = ''Bearer ''"

section \<open>The two AWS calls\<close>

definition get_aws_identity :: "'x services \<Rightarrow> config \<Rightarrow> aws_credentials \<Rightarrow> ('x world, principal_info) eff" where
  "get_aws_identity svc cfg creds =
     (if \<not> credentials_is_valid creds
      then raiseE (CredentialsError ''Valid AWS credentials are required for authentication'')
      else
        bindE
          (catchE
             (callE (EvCallerIdentity (keys_of creds))
                (get_caller_identity svc (keys_of creds) (endpoint_url (cfg_aws cfg))))
             (\<lambda>e. if isinstance e [ClientErrorC] then
                    (if client_error_code e = ''ExpiredToken''
                     then raiseE (CredentialsError ''AWS credentials have expired'')
                     else raiseE (CredentialsError ''Failed to get caller identity with provided credentials''))
                  else if is_Exception e
                  then raiseE (CredentialsError ''Failed to create STS client with provided credentials'')
                  else raiseE e))
          (\<lambda>arn. retE (parse_identity_from_arn (case arn of None \<Rightarrow> '''' | Some a \<Rightarrow> a))))"

definition fetch_secret :: "'x services \<Rightarrow> config \<Rightarrow> auth_payload \<Rightarrow> ('x world, string) eff" where
  "fetch_secret svc cfg p =
     catchE
       (bindE (callE (EvGetSecret (keys_of (credentials p)) (secret_arn p))
          (get_secret_value svc (keys_of (credentials p)) (endpoint_url (cfg_aws cfg)) (secret_arn p)))
          (\<lambda>v. liftE (of_option (key_error ''SecretString'') v)))
       (\<lambda>e. if is_Exception e
            then raiseE (FetchSecretError 403 (''Failed to get secret from Secrets Manager: '' @ exn_str e))
            else raiseE e)"

section \<open>The cache, best effort\<close>

definition cache_read_timeout :: exn where
  "cache_read_timeout = PyTimeoutError ''Cache read timed out during authentication''"

definition read_cache ::
  "'x services \<Rightarrow> config \<Rightarrow> auth_payload \<Rightarrow> string option \<Rightarrow> ('x world, auth_result option) eff" where
  "read_cache svc cfg p host =
     (if raw p = [] then retE None
      else
        catchE (timeoutE ''cache_read'' (get_cached_auth_result svc cfg (raw p) host))
          (\<lambda>e. if isinstance e [TimeoutErrorC, RedisTimeoutErrorC] then raiseE cache_read_timeout
               else if is_Exception e then retE None
               else raiseE e))"

definition write_ttl :: "config \<Rightarrow> auth_payload \<Rightarrow> auth_result \<Rightarrow> int \<Rightarrow> int option res" where
  "write_ttl cfg p r now =
     (case expires_at r of
        None \<Rightarrow> seconds_until_expiration now (credentials p)
      | Some e \<Rightarrow> map_sum id Some (effective_cache_ttl (cache_duration (cfg_redis cfg)) e now))"

definition write_cache ::
  "'x services \<Rightarrow> config \<Rightarrow> auth_payload \<Rightarrow> string option \<Rightarrow> auth_result \<Rightarrow> ('x world, unit) eff" where
  "write_cache svc cfg p host r =
     (if raw p = [] \<or> \<not> result_successful r then retE ()
      else
        catchE
          (timeoutE ''cache_write''
             (bindE (now_us svc) (\<lambda>now.
              bindE (liftE (write_ttl cfg p r now)) (\<lambda>ttl.
              bindE (cache_auth_result svc cfg (raw p) host r ttl) (\<lambda>_. retE ())))))
          (\<lambda>e. if is_Exception e then retE () else raiseE e))"

section \<open>Authentication\<close>

definition minted_result :: "principal_info \<Rightarrow> minted_token \<Rightarrow> auth_result" where
  "minted_result caller m =
     \<lparr>api_key = JStr (mt_token m), res_principal = caller, output_header = JStr MINTED_TOKEN_HEADER,
      output_prefix = JStr MINTED_TOKEN_PREFIX, expires_at = Some (mt_expires_at m)\<rparr>"

definition stored_result :: "principal_info \<Rightarrow> string \<Rightarrow> auth_result" where
  "stored_result caller key =
     \<lparr>api_key = JStr key, res_principal = caller, output_header = JNull, output_prefix = JNull,
      expires_at = None\<rparr>"

text \<open>One lock per cache key, held from the second lookup to the write.\<close>

definition authenticate_with_minted_token ::
  "'x services \<Rightarrow> config \<Rightarrow> auth_payload \<Rightarrow> string option \<Rightarrow> principal_info \<Rightarrow> secret
     \<Rightarrow> ('x world, auth_result) eff" where
  "authenticate_with_minted_token svc cfg p host caller s =
     bindE (liftE (generate_cache_key (raw p) host)) (\<lambda>key.
       with_lock svc key
         (bindE (read_cache svc cfg p host) (\<lambda>cached.
            case cached of
              Some r \<Rightarrow> retE r
            | None \<Rightarrow>
                bindE (mint svc cfg (credentials p) caller s) (\<lambda>m.
                bindE (write_cache svc cfg p host (minted_result caller m)) (\<lambda>_.
                  retE (minted_result caller m))))))"

definition full_authentication ::
  "'x services \<Rightarrow> config \<Rightarrow> auth_payload \<Rightarrow> string option \<Rightarrow> ('x world, auth_result) eff" where
  "full_authentication svc cfg p host =
     bindE (get_aws_identity svc cfg (credentials p)) (\<lambda>caller.
     bindE (fetch_secret svc cfg p) (\<lambda>raw_secret.
     bindE (liftE (validate_secret (lax_int svc) raw_secret host)) (\<lambda>s.
       case s of
         SecretsManagerAuthPayload key _ \<Rightarrow>
           bindE (write_cache svc cfg p host (stored_result caller key)) (\<lambda>_.
             retE (stored_result caller key))
       | _ \<Rightarrow> authenticate_with_minted_token svc cfg p host caller s)))"

definition authenticate ::
  "'x services \<Rightarrow> config \<Rightarrow> auth_payload \<Rightarrow> string option \<Rightarrow> ('x world, auth_result) eff" where
  "authenticate svc cfg p host =
     bindE (read_cache svc cfg p host) (\<lambda>cached.
       case cached of
         Some r \<Rightarrow> retE r
       | None \<Rightarrow>
           catchE (full_authentication svc cfg p host)
             (\<lambda>e. if isinstance e [PayloadErrorC, CredentialsErrorC, ServiceErrorC, TimeoutErrorC]
                  then raiseE e
                  else if is_Exception e
                  then raiseE (AuthenticationError (''Authentication failed: '' @ exn_str e))
                  else raiseE e))"

section \<open>The calls of an authentication\<close>

fun redis_event :: "event \<Rightarrow> bool" where
  "redis_event (EvSleep d) = True"
| "redis_event EvRedisNew = True"
| "redis_event EvRedisPing = True"
| "redis_event (EvRedisGet k) = True"
| "redis_event (EvRedisSet k t v) = True"
| "redis_event _ = False"

lemma calls_acquire [calls_rules]: "calls redis_event (acquire_redis_connection svc cfg)"
proof -
  have ping: "calls redis_event (ping svc)" by (simp add: ping_def calls_rules)
  have "calls redis_event (acquire_loop svc m n)" for m n
    by (induction n) (auto intro!: calls_rules ping split: if_split)
  with ping show ?thesis
    unfolding acquire_redis_connection_def get_redis_client_def
    by (auto intro!: calls_rules split: if_split)
qed

lemma calls_get_cached [calls_rules]: "calls redis_event (get_cached_auth_result svc cfg p h)"
  unfolding get_cached_auth_result_def
  by (auto intro!: calls_rules split: option.split list.split if_split)

lemma calls_cache_auth [calls_rules]: "calls redis_event (cache_auth_result svc cfg p h r ttl)"
  unfolding cache_auth_result_def cache_auth_response_def Let_def
  by (auto intro!: calls_rules split: if_split)

lemma calls_read_cache [calls_rules]: "calls redis_event (read_cache svc cfg p h)"
  unfolding read_cache_def by (auto intro!: calls_rules split: if_split)

lemma calls_write_cache [calls_rules]: "calls redis_event (write_cache svc cfg p h r)"
  unfolding write_cache_def by (auto intro!: calls_rules split: if_split)

text \<open>
  On a cache hit \<open>authenticate\<close> returns the cached result, and the only calls it made are those
  of the cache lookup: no STS, Secrets Manager, provider or lock call.
\<close>

theorem authenticate_hit:
  assumes "read_cache svc cfg p host w = (Inr (Some r), w')"
  shows "authenticate svc cfg p host w = (Inr r, w')
    \<and> (\<exists>evs. trace w' = trace w @ evs \<and> list_all redis_event evs)"
  using callsD [OF calls_read_cache assms] assms by (auto simp: authenticate_def bindE_Inr)

text \<open>
  When the cache lookup times out, in Redis or by its own deadline, the request is rejected
  with that timeout and nothing else is tried.
\<close>

theorem authenticate_cache_timeout:
  assumes "raw p \<noteq> []" "get_cached_auth_result svc cfg (raw p) host w = (Inl e, w')"
    and "isinstance e [RedisTimeoutErrorC, TimeoutErrorC] \<or> e = Cancelled ''cache_read''"
  shows "authenticate svc cfg p host w = (Inl cache_read_timeout, w')"
proof -
  have "read_cache svc cfg p host w = (Inl cache_read_timeout, w')"
    using assms by (auto simp: read_cache_def catchE_Inl timeoutE_def catchE_def)
  then show ?thesis by (simp add: authenticate_def bindE_Inl)
qed

lemma authenticate_raises:
  "raises (\<lambda>e. isinstance e [AuthenticationErrorC, ServiceErrorC, TimeoutErrorC] \<or> \<not> is_Exception e)
     (authenticate svc cfg p host)"
proof -
  let ?ok = "\<lambda>e. isinstance e [AuthenticationErrorC, ServiceErrorC, TimeoutErrorC] \<or> \<not> is_Exception e"
  have sub: "isinstance e [AuthenticationErrorC]" if "isinstance e [PayloadErrorC, CredentialsErrorC]" for e
    using that by (cases "class_of e") auto
  have "raises ?ok (read_cache svc cfg p host)"
    unfolding read_cache_def
    by (auto intro!: raises_ret raises_catch_any raises_raise simp: cache_read_timeout_def split: if_split)
  moreover have "raises ?ok (catchE (full_authentication svc cfg p host)
     (\<lambda>e. if isinstance e [PayloadErrorC, CredentialsErrorC, ServiceErrorC, TimeoutErrorC]
          then raiseE e
          else if is_Exception e
          then raiseE (AuthenticationError (''Authentication failed: '' @ exn_str e))
          else raiseE e))"
    using sub by (auto intro!: raises_catch_any raises_raise split: if_split)
  ultimately show ?thesis
    unfolding authenticate_def by (auto intro!: raises_bind raises_ret split: option.split)
qed

text \<open>
  C26: whatever the dependencies do, \<open>authenticate\<close> raises only authentication errors, service
  errors and timeouts, apart from a cancellation of the request.
\<close>

theorem authenticate_errors:
  assumes "authenticate svc cfg p host w = (Inl e, w')"
  shows "isinstance e [AuthenticationErrorC, ServiceErrorC, TimeoutErrorC] \<or> \<not> is_Exception e"
  using authenticate_raises assms by (rule raisesD)

text \<open>What an authentication of \<open>p\<close> may do with AWS keys and the outside world.\<close>

definition auth_event :: "auth_payload \<Rightarrow> event \<Rightarrow> bool" where
  "auth_event p ev \<longleftrightarrow>
     (case ev of
        EvCallerIdentity ck \<Rightarrow> ck = keys_of (credentials p)
      | EvGetSecret ck arn \<Rightarrow> ck = keys_of (credentials p) \<and> arn = secret_arn p
      | EvAssumeRole ck url arn n dur \<Rightarrow> ck = keys_of (credentials p)
      | EvRedisDelete k \<Rightarrow> False | EvRedisFlush \<Rightarrow> False | EvRedisClose \<Rightarrow> False
      | EvKinesisEnter \<Rightarrow> False | EvKinesisClose \<Rightarrow> False | EvPutRecord st dat pk \<Rightarrow> False
      | EvHttpClose a \<Rightarrow> False
      | EvWsAccept \<Rightarrow> False | EvWsClose c r \<Rightarrow> False | EvConnect u hs n \<Rightarrow> False | EvUpstreamClose \<Rightarrow> False
      | _ \<Rightarrow> True)"

lemma redis_event_auth: "redis_event ev \<Longrightarrow> auth_event p ev"
  by (cases ev) (simp_all add: auth_event_def)

lemma calls_sts_steps:
  assumes "creds = credentials p"
  shows "calls (auth_event p) (assume_federation_role svc cfg creds caller arn)"
    and "calls (auth_event p) (web_identity_token svc cfg identity audience g dur)"
  using assms unfolding assume_federation_role_def web_identity_token_def
  by (auto intro!: calls_rules simp: auth_event_def split: if_split)

lemma calls_mint [calls_rules]: "calls (auth_event p) (mint svc cfg (credentials p) caller s)"
proof -
  have "calls (auth_event p) (exchange svc jwt s)" for jwt
    by (rule calls_weaken [OF calls_exchange]) (auto simp: posts_to_def auth_event_def)
  then show ?thesis
    unfolding mint_def prove_def
    by (auto intro!: calls_rules calls_sts_steps simp: auth_event_def split: prod.split secret.split if_split)
qed

lemma calls_identity:
  "P (EvCallerIdentity (keys_of creds)) \<Longrightarrow> calls P (get_aws_identity svc cfg creds)"
  unfolding get_aws_identity_def by (auto intro!: calls_rules split: if_split)

lemma calls_fetch:
  "P (EvGetSecret (keys_of (credentials p)) (secret_arn p)) \<Longrightarrow> calls P (fetch_secret svc cfg p)"
  unfolding fetch_secret_def by (auto intro!: calls_rules split: if_split)

lemma calls_authenticate: "calls (auth_event p) (authenticate svc cfg p host)"
proof -
  have r: "calls (auth_event p) (read_cache svc cfg p host)" "calls (auth_event p) (write_cache svc cfg p host r)" for r
    by (auto intro: calls_weaken [OF calls_read_cache] calls_weaken [OF calls_write_cache] redis_event_auth)
  have m: "calls (auth_event p) (authenticate_with_minted_token svc cfg p host caller s)" for caller s
    unfolding authenticate_with_minted_token_def
    by (auto intro!: calls_rules r simp: auth_event_def split: option.split)
  have f: "calls (auth_event p) (full_authentication svc cfg p host)"
    unfolding full_authentication_def
    by (auto intro!: calls_rules calls_identity calls_fetch r m simp: auth_event_def split: secret.split)
  show ?thesis
    unfolding authenticate_def
    by (auto intro!: calls_rules r f split: option.split if_split)
qed

text \<open>
  C3: an authentication acts with the caller's own keys: every STS identity call, Secrets Manager
  read and role assumption it makes carries the payload's credentials, and the only secret it
  reads is the payload's; it deletes nothing from the cache and publishes nothing.
\<close>

theorem authenticate_own_credentials:
  "\<exists>evs. trace (snd (authenticate svc cfg p host w)) = trace w @ evs \<and> list_all (auth_event p) evs"
  using calls_authenticate [of p svc cfg host, unfolded calls_def] by blast

section \<open>What an authentication returns\<close>

text \<open>
  C9: a result that did not come from the cache means that STS named the caller, the secret was
  read with the caller's keys and is valid for the target host; it is the stored key, or a token
  minted for that caller and secret, or one cached under the lock meanwhile.
\<close>

theorem authenticate_fresh:
  assumes "read_cache svc cfg p host w = (Inr None, w1)" "authenticate svc cfg p host w = (Inr r, w')"
  shows "\<exists>caller w2 plain w3 s. get_aws_identity svc cfg (credentials p) w1 = (Inr caller, w2)
    \<and> fetch_secret svc cfg p w2 = (Inr plain, w3) \<and> validate_secret (lax_int svc) plain host = Inr s
    \<and> (\<forall>key h. s = SecretsManagerAuthPayload key h \<longrightarrow> r = stored_result caller key)
    \<and> (is_mint_secret s \<longrightarrow>
        (\<exists>wa wb. read_cache svc cfg p host wa = (Inr (Some r), wb))
        \<or> (\<exists>wa wb m. mint svc cfg (credentials p) caller s wa = (Inr m, wb) \<and> r = minted_result caller m))"
proof -
  have "full_authentication svc cfg p host w1 = (Inr r, w')"
    using assms by (auto simp: authenticate_def bindE_Inr catchE_def split: prod.splits sum.splits if_splits)
  then obtain caller w2 plain w3 s where 1: "get_aws_identity svc cfg (credentials p) w1 = (Inr caller, w2)"
    "fetch_secret svc cfg p w2 = (Inr plain, w3)" "validate_secret (lax_int svc) plain host = Inr s"
    and 2: "(case s of SecretsManagerAuthPayload key _ \<Rightarrow>
           bindE (write_cache svc cfg p host (stored_result caller key)) (\<lambda>_. retE (stored_result caller key))
       | _ \<Rightarrow> authenticate_with_minted_token svc cfg p host caller s) w3 = (Inr r, w')"
    unfolding full_authentication_def by (auto dest!: bindE_InrD)
  have m: "(\<exists>wa wb. read_cache svc cfg p host wa = (Inr (Some r), wb))
        \<or> (\<exists>wa wb m. mint svc cfg (credentials p) caller s wa = (Inr m, wb) \<and> r = minted_result caller m)"
    if "authenticate_with_minted_token svc cfg p host caller s w3 = (Inr r, w')"
    using that unfolding authenticate_with_minted_token_def with_lock_def finallyE_def
    by (auto dest!: bindE_InrD split: prod.splits sum.splits option.splits) blast+
  have "r = stored_result caller key" if "s = SecretsManagerAuthPayload key h" for key h
    using 2 that by (auto dest!: bindE_InrD)
  moreover have "is_mint_secret s \<Longrightarrow> authenticate_with_minted_token svc cfg p host caller s w3 = (Inr r, w')"
    using 2 by (cases s) simp_all
  ultimately show ?thesis using 1 m by blast
qed

text \<open>
  A caller STS does not vouch for goes no further: the error of \<open>get_aws_identity\<close>, a
  credentials error, is the outcome, in the state STS left, before any secret is read.
\<close>

theorem authenticate_identity_first:
  assumes "read_cache svc cfg p host w = (Inr None, w1)"
    and "get_aws_identity svc cfg (credentials p) w1 = (Inl e, w2)"
  shows "authenticate svc cfg p host w = (Inl e, w2) \<and> (class_of e = CredentialsErrorC \<or> \<not> is_Exception e)"
proof -
  have "raises (\<lambda>e. class_of e = CredentialsErrorC \<or> \<not> is_Exception e) (get_aws_identity svc cfg (credentials p))"
    unfolding get_aws_identity_def
    by (auto intro!: raises_bind raises_ret raises_catch_any raises_raise split: if_split)
  then have "class_of e = CredentialsErrorC \<or> \<not> is_Exception e" using assms(2) by (rule raisesD)
  then show ?thesis
    using assms
    by (auto simp: authenticate_def bindE_Inr catchE_def full_authentication_def bindE_def is_Exception_def)
qed

section \<open>What is written to the cache\<close>

fun set_event :: "(string \<Rightarrow> int \<Rightarrow> string \<Rightarrow> bool) \<Rightarrow> event \<Rightarrow> bool" where
  "set_event P (EvRedisSet k ttl v) = P k ttl v"
| "set_event P _ = True"

lemma set_event_mono: "set_event P ev \<Longrightarrow> (\<And>k ttl v. P k ttl v \<Longrightarrow> Q k ttl v) \<Longrightarrow> set_event Q ev"
  by (cases ev) simp_all

lemma calls_acquire_no_set: "calls (set_event P) (acquire_redis_connection svc cfg)"
proof -
  have ping: "calls (set_event P) (ping svc)" by (simp add: ping_def calls_rules)
  have "calls (set_event P) (acquire_loop svc m n)" for m n
    by (induction n) (auto intro!: calls_rules ping split: if_split)
  with ping show ?thesis
    unfolding acquire_redis_connection_def get_redis_client_def
    by (auto intro!: calls_rules split: if_split)
qed

lemma calls_bind_lift: "(\<And>x. m = Inr x \<Longrightarrow> calls P (f x)) \<Longrightarrow> calls P (bindE (liftE m) f)"
  by (cases m) (auto simp: calls_def bindE_def)

lemma calls_cache_auth_set:
  "calls (set_event (\<lambda>k t v. generate_cache_key pl host = Inr k \<and> v = json_dumps (AuthResult_to_dict r)
     \<and> t = ttl \<and> 0 < t)) (cache_auth_result svc cfg pl host r (Some ttl))"
  unfolding cache_auth_result_def cache_auth_response_def Let_def
  by (auto intro!: calls_bind calls_catch calls_pure calls_acquire_no_set calls_bind_lift calls_call
      split: if_split)

text \<open>
  C17: what is written for a minted token goes under the key of the request's payload and host, is
  the result itself, and lives for a positive time within the configured duration that ends
  more than 59 seconds before the token does.
\<close>

theorem write_cache_minted:
  assumes "expires_at r = Some e" "utc_off e \<noteq> None" "1 \<le> cache_duration (cfg_redis cfg)"
    and "write_cache svc cfg p host r w = (res, w')"
  shows "\<exists>evs. trace w' = trace w @ evs \<and> list_all (set_event (\<lambda>k ttl v.
    generate_cache_key (raw p) host = Inr k \<and> v = json_dumps (AuthResult_to_dict r)
    \<and> 0 < ttl \<and> ttl \<le> cache_duration (cfg_redis cfg)
    \<and> clock svc (ext w) + (ttl + 59) * us_per_s < timestamp_us e)) evs"
proof -
  let ?P = "\<lambda>k ttl v. generate_cache_key (raw p) host = Inr k \<and> v = json_dumps (AuthResult_to_dict r)
    \<and> 0 < ttl \<and> ttl \<le> cache_duration (cfg_redis cfg)
    \<and> clock svc (ext w) + (ttl + 59) * us_per_s < timestamp_us e"
  let ?now = "clock svc (ext w)"
  let ?m = "\<lambda>now. bindE (liftE (write_ttl cfg p r now)) (\<lambda>ttl.
              bindE (cache_auth_result svc cfg (raw p) host r ttl) (\<lambda>_. retE ()))"
  have "calls (set_event ?P) (?m ?now)"
  proof (intro calls_bind_lift calls_bind calls_pure)
    fix t assume "write_ttl cfg p r ?now = Inr t"
    then obtain ttl where t: "t = Some ttl"
      "effective_cache_ttl (cache_duration (cfg_redis cfg)) e ?now = Inr ttl"
      using assms(1) by (cases "effective_cache_ttl (cache_duration (cfg_redis cfg)) e ?now")
        (auto simp: write_ttl_def)
    note b = cache_ttl_bounds [OF assms(2) t(2) assms(3)]
    show "calls (set_event ?P) (cache_auth_result svc cfg (raw p) host r t)"
      unfolding t(1)
      by (rule calls_weaken [OF calls_cache_auth_set]) (erule set_event_mono, use b in blast)
  qed
  note run = this
  have handler: "calls (set_event ?P) (if is_Exception e then retE () else raiseE e)" for e
    by (cases "is_Exception e") (simp_all only: if_True if_False calls_pure)
  have body: "calls (set_event ?P) (catchE (timeoutE ''cache_write'' (?m ?now))
      (\<lambda>e. if is_Exception e then retE () else raiseE e))"
    by (rule calls_catch [OF calls_timeout [OF run] handler])
  have "write_cache svc cfg p host r w = (if raw p = [] \<or> \<not> result_successful r then retE ()
      else catchE (timeoutE ''cache_write'' (?m ?now)) (\<lambda>e. if is_Exception e then retE () else raiseE e)) w"
    by (simp add: write_cache_def catchE_def timeoutE_def bindE_get now_us_def)
  then have w: "(if raw p = [] \<or> \<not> result_successful r then retE ()
      else catchE (timeoutE ''cache_write'' (?m ?now)) (\<lambda>e. if is_Exception e then retE () else raiseE e)) w
    = (res, w')" using assms(4) by (rule trans [OF sym])
  show ?thesis
  proof (cases "raw p = [] \<or> \<not> result_successful r")
    case True
    then have "w' = w" using w by (simp only: if_True eff_simps prod.inject)
    then show ?thesis by simp
  next
    case False
    with w have "catchE (timeoutE ''cache_write'' (?m ?now)) (\<lambda>e. if is_Exception e then retE () else raiseE e) w
      = (res, w')" by (simp only: if_False)
    from callsD [OF body this] show ?thesis by blast
  qed
qed

section \<open>The mint lock\<close>

fun lock_event :: "event \<Rightarrow> bool" where
  "lock_event (EvLock n) = True"
| "lock_event (EvUnlock n) = True"
| "lock_event _ = False"

text \<open>
  C21: a minting request takes the lock of its payload and host once and releases it as its last call, on
  every path.  In between it looks the cache up a second time: what it finds is returned and nothing is
  minted; only when it finds nothing does it mint, and it writes what it minted to the cache before it lets
  go of the lock.
\<close>

theorem mint_under_lock:
  assumes "authenticate_with_minted_token svc cfg p host caller s w = (r, w')"
    and "generate_cache_key (raw p) host = Inr key"
    and "lock_acquire svc key (ext w) = (Inr (), x)"
  shows "\<exists>cached w1 out w2 evs released.
    read_cache svc cfg p host (w\<lparr>ext := x, trace := trace w @ [EvLock key]\<rparr>) = (cached, w1)
    \<and> (case cached of
         Inl e \<Rightarrow> out = Inl e \<and> w2 = w1
       | Inr (Some found) \<Rightarrow> out = Inr found \<and> w2 = w1
       | Inr None \<Rightarrow> (\<exists>minted w3. mint svc cfg (credentials p) caller s w1 = (minted, w3)
           \<and> (case minted of
                Inl e \<Rightarrow> out = Inl e \<and> w2 = w3
              | Inr m \<Rightarrow> (\<exists>written. write_cache svc cfg p host (minted_result caller m) w3 = (written, w2)
                  \<and> out = (case written of Inl e \<Rightarrow> Inl e | Inr _ \<Rightarrow> Inr (minted_result caller m))))))
    \<and> trace w2 = trace w @ EvLock key # evs \<and> \<not> list_ex lock_event evs
    \<and> lock_release svc key (ext w2) = (released, ext w') \<and> trace w' = trace w2 @ [EvUnlock key]
    \<and> r = (case released of Inl e \<Rightarrow> Inl e | Inr _ \<Rightarrow> out)"
proof -
  let ?P = "\<lambda>ev. \<not> lock_event ev"
  have cm: "calls ?P (mint svc cfg (credentials p) caller s)"
  proof -
    have "calls ?P (exchange svc jwt s)" for jwt
      by (rule calls_weaken [OF calls_exchange]) (auto simp: posts_to_def)
    then show ?thesis
      unfolding mint_def prove_def assume_federation_role_def web_identity_token_def
      by (auto intro!: calls_rules split: prod.split secret.split if_split)
  qed
  have cc: "calls ?P (read_cache svc cfg p host)" "calls ?P (write_cache svc cfg p host r')" for r'
    by (auto intro!: calls_weaken [OF calls_read_cache] calls_weaken [OF calls_write_cache]
        elim: redis_event.elims)
  define w0 where "w0 = w\<lparr>ext := x, trace := trace w @ [EvLock key]\<rparr>"
  define inner where "inner = bindE (read_cache svc cfg p host) (\<lambda>cached. case cached of Some r \<Rightarrow> retE r
      | None \<Rightarrow> bindE (mint svc cfg (credentials p) caller s) (\<lambda>m.
          bindE (write_cache svc cfg p host (minted_result caller m)) (\<lambda>_. retE (minted_result caller m))))"
  have run: "finallyE inner (callE (EvUnlock key) (lock_release svc key)) w0 = (r, w')"
    using assms by (simp add: authenticate_with_minted_token_def with_lock_def bindE_def callE_def w0_def inner_def)
  obtain out w2 where w2: "inner w0 = (out, w2)" by fastforce
  have "calls ?P inner" unfolding inner_def using cm cc by (auto intro!: calls_rules split: option.split)
  then obtain evs where evs: "trace w2 = trace w0 @ evs" "list_all ?P evs" using w2 by (rule callsD)
  obtain cached w1 where w1: "read_cache svc cfg p host w0 = (cached, w1)" by fastforce
  have steps: "case cached of
         Inl e \<Rightarrow> out = Inl e \<and> w2 = w1
       | Inr (Some found) \<Rightarrow> out = Inr found \<and> w2 = w1
       | Inr None \<Rightarrow> (\<exists>minted w3. mint svc cfg (credentials p) caller s w1 = (minted, w3)
           \<and> (case minted of
                Inl e \<Rightarrow> out = Inl e \<and> w2 = w3
              | Inr m \<Rightarrow> (\<exists>written. write_cache svc cfg p host (minted_result caller m) w3 = (written, w2)
                  \<and> out = (case written of Inl e \<Rightarrow> Inl e | Inr _ \<Rightarrow> Inr (minted_result caller m)))))"
  proof (cases "cached = Inr None")
    case False
    then show ?thesis using w1 w2 by (auto simp: inner_def bindE_def split: sum.splits option.splits)
  next
    case miss: True
    obtain minted w3 where m: "mint svc cfg (credentials p) caller s w1 = (minted, w3)" by fastforce
    show ?thesis
    proof (cases minted)
      case (Inl e)
      then show ?thesis using w1 w2 miss m by (simp add: inner_def bindE_def)
    next
      case (Inr t)
      obtain written w4 where "write_cache svc cfg p host (minted_result caller t) w3 = (written, w4)" by fastforce
      then show ?thesis using w1 w2 miss m Inr by (cases written) (simp_all add: inner_def bindE_def)
    qed
  qed
  obtain released x' where rel: "lock_release svc key (ext w2) = (released, x')" by fastforce
  have "ext w' = x'" "trace w' = trace w2 @ [EvUnlock key]" "r = (case released of Inl e \<Rightarrow> Inl e | Inr _ \<Rightarrow> out)"
    using run w2 rel by (auto simp: finallyE_def callE_def split: prod.splits sum.splits)
  then show ?thesis
    using w1 steps evs rel unfolding w0_def
    by (intro exI [of _ cached] exI [of _ w1] exI [of _ out] exI [of _ w2] exI [of _ evs] exI [of _ released])
      (simp add: list_all_iff list_ex_iff)
qed

section \<open>Authentication on concrete services\<close>

definition demo_payload :: auth_payload where
  "demo_payload = \<lparr>raw = ''p'', credentials = \<lparr>access_key_id = JStr ''AKIA'', secret_access_key = JStr ''s'',
     session_token = JNull, expiration = None\<rparr>, secret_arn = JStr ''arn'', target_host = None\<rparr>"

definition unsigned_payload :: auth_payload where
  "unsigned_payload = demo_payload\<lparr>credentials := (credentials demo_payload)\<lparr>access_key_id := JStr []\<rparr>\<rparr>"

theorem authenticate_hit_witness:
  "\<forall>cfg. \<exists>w r w' evs. read_cache sim_svc cfg demo_payload None w = (Inr (Some r), w')
     \<and> authenticate sim_svc cfg demo_payload None w = (Inr r, w')
     \<and> trace w' = trace w @ evs \<and> list_all redis_event evs"
proof
  fix cfg
  obtain w1 w2 r where "get_cached_auth_result sim_svc cfg ''p'' None w1 = (Inr (Some r), w2)"
    using demo_write_read by blast
  then have c: "read_cache sim_svc cfg demo_payload None w1 = (Inr (Some r), w2)"
    by (simp add: read_cache_def demo_payload_def timeoutE_def catchE_def)
  with authenticate_hit [OF c]
  show "\<exists>w r w' evs. read_cache sim_svc cfg demo_payload None w = (Inr (Some r), w')
     \<and> authenticate sim_svc cfg demo_payload None w = (Inr r, w')
     \<and> trace w' = trace w @ evs \<and> list_all redis_event evs" by blast
qed

lemma sim_acquire:
  "sim_busy x = 0 \<Longrightarrow> acquire_redis_connection sim_svc cfg (sim_world x) =
     (Inr True, (sim_world x)\<lparr>trace := [EvRedisPing]\<rparr>)"
  by (subst acquire_answering [where x = x]) (simp_all add: sim_defs sim_world_def)

definition ascii_host :: "string option \<Rightarrow> bool" where
  "ascii_host host \<longleftrightarrow> is_ascii (case host of None \<Rightarrow> [] | Some h \<Rightarrow> h)"

lemma ascii_host_simps [simp]: "ascii_host None" "ascii_host (Some h) = is_ascii h"
  by (simp_all add: ascii_host_def)

lemma ascii_key: "is_ascii pl \<Longrightarrow> ascii_host host \<Longrightarrow> \<exists>key. generate_cache_key pl host = Inr key"
  by (simp add: generate_cache_key_def cache_key_text_def encode_utf8_def str_ok_ascii ascii_host_def)

lemma sim_lookup:
  assumes "is_ascii pl" "ascii_host host" "sim_busy x = 0" "sim_store x = (\<lambda>_. None)"
    and "\<And>e. sim_fail x = Some e \<Longrightarrow> is_Exception e \<and> \<not> isinstance e [JSONDecodeErrorC]"
  shows "\<exists>evs. get_cached_auth_result sim_svc cfg pl host (sim_world x) =
     (case sim_fail x of
        Some e \<Rightarrow> (if isinstance e [RedisTimeoutErrorC] then Inl e
                  else Inl (CacheError (''Failed to retrieve from cache: '' @ exn_str e)))
      | None \<Rightarrow> Inr None, (sim_world x)\<lparr>trace := evs\<rparr>)"
proof -
  obtain key where "generate_cache_key pl host = Inr key" using ascii_key [OF assms(1,2)] by blast
  then show ?thesis
    using assms unfolding get_cached_auth_result_def
    by (cases "sim_fail x") (auto simp: sim_acquire [OF assms(3)] catchE_def bindE_def callE_def sim_get_def)
qed

lemma sim_miss:
  assumes "sim_busy x = 0" "sim_store x = (\<lambda>_. None)" "sim_fail x = None" "is_ascii (raw p)" "raw p \<noteq> []" "ascii_host host"
  shows "\<exists>evs. read_cache sim_svc cfg p host (sim_world x) = (Inr None, (sim_world x)\<lparr>trace := evs\<rparr>)"
  using sim_lookup [OF assms(4,6,1,2), of cfg] assms(3,5)
  by (auto simp: read_cache_def catchE_def timeoutE_def)

theorem authenticate_cache_timeout_witness:
  "\<forall>cfg. \<exists>x w'. authenticate sim_svc cfg demo_payload None (sim_world x) = (Inl cache_read_timeout, w')"
proof
  fix cfg
  define x where "x = sim0\<lparr>sim_fail := Some (RedisTimeoutError ''t'')\<rparr>"
  obtain evs where "get_cached_auth_result sim_svc cfg ''p'' None (sim_world x) =
      (Inl (RedisTimeoutError ''t''), (sim_world x)\<lparr>trace := evs\<rparr>)"
    using sim_lookup [of "''p''" None x cfg] by (auto simp: x_def sim0_def is_Exception_iff)
  then have g: "get_cached_auth_result sim_svc cfg (raw demo_payload) None (sim_world x) =
      (Inl (RedisTimeoutError ''t''), (sim_world x)\<lparr>trace := evs\<rparr>)"
    by (simp add: demo_payload_def)
  have "authenticate sim_svc cfg demo_payload None (sim_world x) = (Inl cache_read_timeout, (sim_world x)\<lparr>trace := evs\<rparr>)"
    by (rule authenticate_cache_timeout [OF _ g]) (simp_all add: demo_payload_def)
  then show "\<exists>x w'. authenticate sim_svc cfg demo_payload None (sim_world x) = (Inl cache_read_timeout, w')" by blast
qed

lemma unsigned_identity:
  "get_aws_identity svc cfg (credentials unsigned_payload) w
     = (Inl (CredentialsError ''Valid AWS credentials are required for authentication''), w)"
  by (simp add: get_aws_identity_def credentials_is_valid_def unsigned_payload_def)

lemma unsigned_miss:
  "\<exists>evs. read_cache sim_svc cfg unsigned_payload None (sim_world sim0) = (Inr None, (sim_world sim0)\<lparr>trace := evs\<rparr>)"
  by (rule sim_miss) (simp_all add: sim0_def unsigned_payload_def demo_payload_def)

theorem authenticate_identity_first_witness:
  "\<forall>cfg. \<exists>evs. authenticate sim_svc cfg unsigned_payload None (sim_world sim0)
     = (Inl (CredentialsError ''Valid AWS credentials are required for authentication''),
        (sim_world sim0)\<lparr>trace := evs\<rparr>)"
  using unsigned_miss authenticate_identity_first [OF _ unsigned_identity] by blast

lemma unsigned_refused:
  "\<exists>w'. authenticate sim_svc cfg unsigned_payload None (sim_world sim0)
     = (Inl (CredentialsError ''Valid AWS credentials are required for authentication''), w')"
  using unsigned_miss [of cfg]
  by (auto simp: authenticate_def bindE_def catchE_def full_authentication_def unsigned_identity)

theorem authenticate_errors_witness:
  "\<forall>cfg. \<exists>w' e. authenticate sim_svc cfg unsigned_payload None (sim_world sim0) = (Inl e, w')
     \<and> (isinstance e [AuthenticationErrorC, ServiceErrorC, TimeoutErrorC] \<or> \<not> is_Exception e)"
  using unsigned_refused authenticate_errors by blast

definition demo_ttl :: "config \<Rightarrow> config" where
  "demo_ttl cfg = cfg\<lparr>cfg_redis := (cfg_redis cfg)\<lparr>cache_duration := 3600\<rparr>\<rparr>"

theorem write_cache_minted_witness:
  "\<forall>cfg. \<exists>res w' evs. write_cache sim_svc (demo_ttl cfg) demo_payload None
      (demo_result\<lparr>expires_at := Some (utc_datetime 600000000)\<rparr>) (sim_world sim0) = (res, w')
    \<and> trace w' = evs \<and> list_all (set_event (\<lambda>k ttl v. 0 < ttl \<and> (ttl + 59) * us_per_s < 600000000)) evs"
proof
  fix cfg
  let ?r = "demo_result\<lparr>expires_at := Some (utc_datetime 600000000)\<rparr>"
  obtain res w' where run: "write_cache sim_svc (demo_ttl cfg) demo_payload None ?r (sim_world sim0) = (res, w')"
    by fastforce
  have c: "utc_off (utc_datetime 600000000) \<noteq> None" "1 \<le> cache_duration (cfg_redis (demo_ttl cfg))"
    by (simp_all add: demo_ttl_def)
  from write_cache_minted [where e = "utc_datetime 600000000" and r = ?r, OF _ c run]
  obtain evs where "trace w' = evs" "list_all (set_event (\<lambda>k ttl v.
    generate_cache_key (raw demo_payload) None = Inr k \<and> v = json_dumps (AuthResult_to_dict ?r)
    \<and> 0 < ttl \<and> ttl \<le> cache_duration (cfg_redis (demo_ttl cfg))
    \<and> clock sim_svc (ext (sim_world sim0)) + (ttl + 59) * us_per_s < timestamp_us (utc_datetime 600000000))) evs"
    by auto
  then have "list_all (set_event (\<lambda>k ttl v. 0 < ttl \<and> (ttl + 59) * us_per_s < 600000000)) (trace w')"
    by (auto simp: list_all_iff sim0_def elim!: set_event_mono)
  with run show "\<exists>res w' evs. write_cache sim_svc (demo_ttl cfg) demo_payload None ?r (sim_world sim0) = (res, w')
    \<and> trace w' = evs \<and> list_all (set_event (\<lambda>k ttl v. 0 < ttl \<and> (ttl + 59) * us_per_s < 600000000)) evs"
    by blast
qed

theorem mint_under_lock_witness:
  "\<forall>cfg caller s. \<exists>r w' key evs cached w1. authenticate_with_minted_token sim_svc cfg demo_payload None caller s (sim_world sim0) = (r, w')
     \<and> read_cache sim_svc cfg demo_payload None (sim_world sim0\<lparr>trace := [EvLock key]\<rparr>) = (cached, w1)
     \<and> trace w' = EvLock key # evs @ [EvUnlock key] \<and> \<not> list_ex lock_event evs"
proof (intro allI)
  fix cfg caller s
  obtain key where key: "generate_cache_key (raw demo_payload) None = Inr key"
    using demo_key by (auto simp: demo_payload_def)
  obtain r w' where run: "authenticate_with_minted_token sim_svc cfg demo_payload None caller s (sim_world sim0) = (r, w')"
    by fastforce
  have "lock_acquire sim_svc key (ext (sim_world sim0)) = (Inr (), sim0)" by simp
  from mint_under_lock [OF run key this] run
  show "\<exists>r w' key evs cached w1. authenticate_with_minted_token sim_svc cfg demo_payload None caller s (sim_world sim0) = (r, w')
     \<and> read_cache sim_svc cfg demo_payload None (sim_world sim0\<lparr>trace := [EvLock key]\<rparr>) = (cached, w1)
     \<and> trace w' = EvLock key # evs @ [EvUnlock key] \<and> \<not> list_ex lock_event evs"
    by (auto simp: sim_world_def)
qed

lemma sim_write:
  assumes "is_ascii (raw p)" "ascii_host host" "expires_at r = None" "expiration (credentials p) = None"
    and "redis_client w" "sim_busy (ext w) = 0"
  shows "\<exists>w'. write_cache sim_svc cfg p host r w = (Inr (), w')"
proof -
  obtain key where key: "generate_cache_key (raw p) host = Inr key" using ascii_key [OF assms(1,2)] by blast
  have a: "acquire_redis_connection sim_svc cfg w = (Inr True, w\<lparr>trace := trace w @ [EvRedisPing]\<rparr>)"
    using assms(5,6) by (subst acquire_answering [where x = "ext w"]) (simp_all add: sim_defs)
  have "\<exists>b w'. cache_auth_result sim_svc cfg (raw p) host r None w = (Inr b, w')"
    by (auto simp: cache_auth_result_def cache_auth_response_def a
        catchE_def bindE_def key callE_def sim_setex_def Let_def)
  then show ?thesis
    using assms by (auto simp: write_cache_def now_us_def bindE_def write_ttl_def seconds_until_expiration_def
        catchE_def timeoutE_def)
qed

definition stored_sim :: sim where
  "stored_sim = sim0\<lparr>sim_arn := Some (assumed_role_arn ''1'' ''r'' ''s''), sim_secret := Some ''sk-abc''\<rparr>"

definition demo_assumed :: principal_info where
  "demo_assumed = parse_identity_from_arn (assumed_role_arn ''1'' ''r'' ''s'')"

lemma stored_steps:
  assumes "is_ascii (raw p)" "raw p \<noteq> []" "credentials_is_valid (credentials p)" "ascii_host host"
  shows "\<exists>w1 w3. read_cache sim_svc cfg p host (sim_world stored_sim) = (Inr None, w1)
     \<and> redis_client w3 \<and> ext w3 = stored_sim
     \<and> (\<forall>w'. write_cache sim_svc cfg p host (stored_result demo_assumed ''sk-abc'') w3 = (Inr (), w')
          \<longrightarrow> authenticate sim_svc cfg p host (sim_world stored_sim)
              = (Inr (stored_result demo_assumed ''sk-abc''), w'))"
proof -
  obtain evs where miss: "read_cache sim_svc cfg p host (sim_world stored_sim)
      = (Inr None, (sim_world stored_sim)\<lparr>trace := evs\<rparr>)"
    using sim_miss [of stored_sim p host cfg] assms by (auto simp: stored_sim_def sim0_def)
  have "json_loads ''sk-abc'' = Inl json_decode_error" by code_simp
  then have v: "validate_secret li ''sk-abc'' host = Inr (SecretsManagerAuthPayload ''sk-abc'' None)" for li
    by (simp add: validate_secret_def parse_secret_def json_decode_error_def)
  define w3 where "w3 = (sim_world stored_sim)\<lparr>trace := evs @ [EvCallerIdentity (keys_of (credentials p)),
    EvGetSecret (keys_of (credentials p)) (secret_arn p)]\<rparr>"
  have "full_authentication sim_svc cfg p host ((sim_world stored_sim)\<lparr>trace := evs\<rparr>)
      = (Inr (stored_result demo_assumed ''sk-abc''), w')"
    if "write_cache sim_svc cfg p host (stored_result demo_assumed ''sk-abc'') w3 = (Inr (), w')" for w'
    using that assms(3) by (simp add: full_authentication_def bindE_def get_aws_identity_def fetch_secret_def
        catchE_def callE_def of_option_def v stored_sim_def w3_def demo_assumed_def)
  then show ?thesis
    using miss by (intro exI [of _ "(sim_world stored_sim)\<lparr>trace := evs\<rparr>"] exI [of _ w3])
      (auto simp: authenticate_def bindE_def catchE_def w3_def)
qed

lemma stored_run:
  assumes "is_ascii (raw p)" "raw p \<noteq> []" "credentials_is_valid (credentials p)" "expiration (credentials p) = None"
    "ascii_host host"
  shows "\<exists>w1 w' caller. read_cache sim_svc cfg p host (sim_world stored_sim) = (Inr None, w1)
     \<and> authenticate sim_svc cfg p host (sim_world stored_sim) = (Inr (stored_result caller ''sk-abc''), w')"
proof -
  obtain w1 w3 where miss: "read_cache sim_svc cfg p host (sim_world stored_sim) = (Inr None, w1)"
    and w3: "redis_client w3" "ext w3 = stored_sim"
    and run: "\<And>w'. write_cache sim_svc cfg p host (stored_result demo_assumed ''sk-abc'') w3 = (Inr (), w')
      \<Longrightarrow> authenticate sim_svc cfg p host (sim_world stored_sim) = (Inr (stored_result demo_assumed ''sk-abc''), w')"
    using stored_steps [OF assms(1,2,3,5)] by blast
  have "\<exists>w'. write_cache sim_svc cfg p host (stored_result demo_assumed ''sk-abc'') w3 = (Inr (), w')"
    using assms w3 by (intro sim_write) (simp_all add: stored_result_def stored_sim_def sim0_def)
  then show ?thesis using miss run by blast
qed

theorem authenticate_fresh_witness:
  "\<forall>cfg. \<exists>r w' caller w1 w2 w3. authenticate sim_svc cfg demo_payload None (sim_world stored_sim) = (Inr r, w')
     \<and> get_aws_identity sim_svc cfg (credentials demo_payload) w1 = (Inr caller, w2)
     \<and> fetch_secret sim_svc cfg demo_payload w2 = (Inr ''sk-abc'', w3)"
proof
  fix cfg
  obtain w1 w' r where miss: "read_cache sim_svc cfg demo_payload None (sim_world stored_sim) = (Inr None, w1)"
    and run: "authenticate sim_svc cfg demo_payload None (sim_world stored_sim) = (Inr r, w')"
    using stored_run [of demo_payload None cfg] by (auto simp: demo_payload_def credentials_is_valid_def)
  obtain caller w2 plain w3 where 1: "get_aws_identity sim_svc cfg (credentials demo_payload) w1 = (Inr caller, w2)"
    "fetch_secret sim_svc cfg demo_payload w2 = (Inr plain, w3)"
    using authenticate_fresh [OF miss run] by blast
  have "sim_secret (ext w2) = Some ''sk-abc''"
    using miss 1(1) sim_miss [of stored_sim demo_payload None cfg]
    by (auto simp: stored_sim_def sim0_def demo_payload_def get_aws_identity_def catchE_def callE_def bindE_def
        split: if_splits)
  then have "plain = ''sk-abc''"
    using 1(2) by (auto simp: fetch_secret_def catchE_def callE_def bindE_def of_option_def split: option.splits)
  with run 1 show "\<exists>r w' caller w1 w2 w3. authenticate sim_svc cfg demo_payload None (sim_world stored_sim) = (Inr r, w')
     \<and> get_aws_identity sim_svc cfg (credentials demo_payload) w1 = (Inr caller, w2)
     \<and> fetch_secret sim_svc cfg demo_payload w2 = (Inr ''sk-abc'', w3)" by blast
qed

end
