(* ===== verification/Decode.thy ===== *)
theory Decode
  imports Base64 JsonBytes
begin

text \<open>
  The decoding helpers of \<open>models.py\<close>: base64 headers, the AWS event stream as server-sent events,
  and compressed bodies.  botocore's \<open>EventStreamBuffer\<close> and the decompressors are outside the
  repository and are parameters: what a buffer yields for a body is a list of complete frames, each
  with its length on the wire and its payload, and whether iteration ended in a \<open>ParserError\<close>.
\<close>

type_synonym headers = "(string \<times> string) list"

section \<open>Headers\<close>

definition decode_base64 :: "string \<Rightarrow> bytes res" where
  "decode_base64 value = b64decode value"

definition decode_b64_header :: "headers \<Rightarrow> string \<Rightarrow> string option res" where
  "decode_b64_header raw_headers key =
     (case map_of raw_headers key of
        None \<Rightarrow> Inr None
      | Some v \<Rightarrow>
          (case map_sum id decode_utf8_replace (b64decode v) of
             Inr t \<Rightarrow> Inr (Some t)
           | Inl e \<Rightarrow> if isinstance e [BinasciiErrorC, UnicodeDecodeErrorC] then Inr None else Inl e))"

text \<open>The decoded headers in order, and how many failed.\<close>

fun decode_b64_headers :: "headers \<Rightarrow> ((string \<times> string option) list \<times> nat) res" where
  "decode_b64_headers [] = Inr ([], 0)"
| "decode_b64_headers ((key, v) # hs) =
     (case bind_r (b64decode v) decode_utf8 of
        Inr t \<Rightarrow> map_sum id (\<lambda>(ds, n). ((key, Some t) # ds, n)) (decode_b64_headers hs)
      | Inl e \<Rightarrow>
          if isinstance e [BinasciiErrorC, UnicodeDecodeErrorC]
          then map_sum id (\<lambda>(ds, n). ((key, None) # ds, Suc n)) (decode_b64_headers hs)
          else Inl e)"

section \<open>The event stream\<close>

definition EVENTSTREAM_CONTENT_TYPE :: string where
  "EVENTSTREAM_CONTENT_TYPE = ''application/vnd.amazon.eventstream''"

definition compact_json :: "json \<Rightarrow> string" where
  "compact_json v = json_dumps_with '','' '':'' v"

definition sse_line :: "json \<Rightarrow> string" where
  "sse_line v = ''data: '' @ compact_json v @ [newline]"

text \<open>A message that is no usable \<open>bytes\<close> envelope around a JSON object gives no line.\<close>

definition eventstream_payload_to_sse_line :: "bytes \<Rightarrow> string option" where
  "eventstream_payload_to_sse_line payload =
     (case json_loads_bytes payload of
        Inr (JDict envelope) \<Rightarrow>
          (case map_of envelope ''bytes'' of
             Some inner_b64 \<Rightarrow>
               if \<not> truthy inner_b64 then None
               else
                 (case inner_b64 of
                    JStr t \<Rightarrow>
                      (case bind_r (bind_r (b64decode t) decode_utf8) json_loads of
                         Inr (JDict d) \<Rightarrow> Some (sse_line (JDict d))
                       | _ \<Rightarrow> None)
                  | _ \<Rightarrow> None)
           | None \<Rightarrow> None)
      | _ \<Rightarrow> None)"

record frame =
  total_length :: nat
  payload :: bytes

type_synonym event_buffer = "bytes \<Rightarrow> frame list \<times> bool"

definition sse_lines :: "frame list \<Rightarrow> string" where
  "sse_lines fs = concat (List.map_filter (\<lambda>f. eventstream_payload_to_sse_line (payload f)) fs)"

definition parse_vnd_amazon_eventstream :: "event_buffer \<Rightarrow> bytes \<Rightarrow> string option" where
  "parse_vnd_amazon_eventstream buffer body =
     (case buffer body of
        (frames, parser_error) \<Rightarrow>
          if frames = [] then None
          else if parser_error then Some (sse_lines frames)
          else if sum_list (List.map total_length frames) < length body then None
          else Some (sse_lines frames))"

section \<open>Bodies\<close>

text \<open>A decompressor gives the content, or nothing when it raises what the code catches.\<close>

record decoders =
  event_stream :: event_buffer
  gunzip :: "bytes \<Rightarrow> bytes option"
  inflate :: "bytes \<Rightarrow> bytes option"
  unbrotli :: "bytes \<Rightarrow> bytes option"

definition decompress :: "decoders \<Rightarrow> string option \<Rightarrow> bytes \<Rightarrow> bytes option" where
  "decompress dc content_encoding b =
     (case content_encoding of
        None \<Rightarrow> Some b
      | Some enc \<Rightarrow>
          if py_contains ''gzip'' (py_lower enc) then gunzip dc b
          else if py_contains ''deflate'' (py_lower enc) then inflate dc b
          else if py_contains ''br'' (py_lower enc) then unbrotli dc b
          else Some b)"

definition decode_failed :: "string option \<times> bool" where
  "decode_failed = (None, True)"

definition body_text :: "string option \<Rightarrow> string option \<times> bool" where
  "body_text t = (case t of None \<Rightarrow> decode_failed | Some s \<Rightarrow> (Some s, False))"

definition decompress_b64_body ::
  "decoders \<Rightarrow> string \<Rightarrow> string option \<Rightarrow> string option \<Rightarrow> (string option \<times> bool) res" where
  "decompress_b64_body dc body_b64 content_encoding content_type =
     (case b64decode body_b64 of
        Inl e \<Rightarrow> if isinstance e [BinasciiErrorC, UnicodeDecodeErrorC] then Inr decode_failed else Inl e
      | Inr b0 \<Rightarrow> Inr
          (case decompress dc content_encoding b0 of
             None \<Rightarrow> decode_failed
           | Some b \<Rightarrow>
               (case content_type of
                  Some ct \<Rightarrow>
                    if py_contains EVENTSTREAM_CONTENT_TYPE (py_lower ct)
                    then body_text (parse_vnd_amazon_eventstream (event_stream dc) b)
                    else body_text (case decode_utf8 b of Inr s \<Rightarrow> Some s | Inl _ \<Rightarrow> None)
                | None \<Rightarrow> body_text (case decode_utf8 b of Inr s \<Rightarrow> Some s | Inl _ \<Rightarrow> None))))"

section \<open>The event stream carries no injected line\<close>

text \<open>A decoded value is written on one line: its floats are number lexemes.\<close>

fun one_line :: "json \<Rightarrow> bool" where
  "one_line (JFloat l) = (newline \<notin> set l)"
| "one_line (JList xs) = list_all one_line xs"
| "one_line (JDict d) = list_all one_line (List.map snd d)"
| "one_line _ = True"

lemma digits_no_newline: "newline \<notin> set (takeWhile is_digit s)"
  by (induction s) (auto simp: is_digit_def)

lemma signs_no_newline: "newline \<notin> set (takeWhile (\<lambda>x. x = CHR ''-'' \<or> x = CHR ''+'') s)"
  by (induction s) auto

lemma scan_parts_no_newline:
  "scan_int s = (i, r) \<Longrightarrow> newline \<notin> set i" "scan_frac s = (i, r) \<Longrightarrow> newline \<notin> set i"
  "scan_exp s = (i, r) \<Longrightarrow> newline \<notin> set i"
  by (auto simp: scan_int_def scan_frac_def scan_exp_def Let_def digits_no_newline signs_no_newline is_digit_def [of newline]
      split: list.splits if_splits)

lemma scan_number_one_line: "scan_number s = Some (v, r) \<Longrightarrow> one_line v"
  unfolding scan_number_def Let_def
  by (auto split: list.splits if_splits prod.splits dest: scan_parts_no_newline)

lemma scan_scalar_one_line: "scan_scalar s = Some (v, r) \<Longrightarrow> one_line v"
  by (auto simp: scan_scalar_def scan_word_def dest: scan_number_one_line split: list.splits if_splits)

lemma dict_set_one_line:
  "list_all one_line (List.map snd d) \<Longrightarrow> one_line v \<Longrightarrow> list_all one_line (List.map snd (dict_set k v d))"
  by (induction k v d rule: dict_set.induct) auto

lemma fold_dict_one_line:
  "list_all one_line (List.map snd kvs) \<Longrightarrow> list_all one_line (List.map snd d) \<Longrightarrow>
     list_all one_line (List.map snd (fold (\<lambda>(k, v). dict_set k v) kvs d))"
  by (induction kvs arbitrary: d) (auto simp: dict_set_one_line)

lemma scan_one_line:
  "(\<forall>s v r. scan_value n s = Some (v, r) \<longrightarrow> one_line v) \<and>
   (\<forall>s vs r. scan_elems n s = Some (vs, r) \<longrightarrow> list_all one_line vs) \<and>
   (\<forall>s kvs r. scan_pairs n s = Some (kvs, r) \<longrightarrow> list_all one_line (List.map snd kvs))"
proof (induction n)
  case (Suc n)
  then have V: "\<And>s v r. scan_value n s = Some (v, r) \<Longrightarrow> one_line v"
    and E: "\<And>s vs r. scan_elems n s = Some (vs, r) \<Longrightarrow> list_all one_line vs"
    and P: "\<And>s kvs r. scan_pairs n s = Some (kvs, r) \<Longrightarrow> list_all one_line (List.map snd kvs)"
    by blast+
  have "one_line v" if "scan_value (Suc n) s = Some (v, r)" for s v r
    using that by (cases s) (auto split: list.splits if_splits
        dest: V E scan_scalar_one_line intro!: fold_dict_one_line [OF P])
  moreover have "list_all one_line vs" if "scan_elems (Suc n) s = Some (vs, r)" for s vs r
    using that by (auto split: list.splits if_splits bind_splits dest!: V E)
  moreover have "list_all one_line (List.map snd kvs)" if "scan_pairs (Suc n) s = Some (kvs, r)" for s kvs r
    using that by (cases s) (auto split: list.splits if_splits bind_splits dest!: V P)
  ultimately show ?case by blast
qed simp

lemma json_loads_one_line: "json_loads s = Inr v \<Longrightarrow> one_line v"
  using conjunct1 [OF scan_one_line [of "2 * length s + 1"]]
  by (auto simp: json_loads_def simp del: scan_value.simps split: option.splits if_splits) blast

lemma hex_digit_no_newline: "d < 16 \<Longrightarrow> hex_digit d \<noteq> newline"
  by (auto simp: hex_digit_def char_of_lt_eq_iff)

lemma esc_cp_no_newline:
  assumes "cp_ok True cp" shows "newline \<notin> set (esc_cp cp)"
proof -
  have h: "newline \<noteq> hex_digit (n mod 16)" for n
    by (rule hex_digit_no_newline [symmetric]) simp
  have u: "newline \<notin> set (u_escape n)" if "n < 65536" for n
  proof -
    have "n div 4096 < 16" using that by simp
    then have "newline \<noteq> hex_digit (n div 4096)" by (rule hex_digit_no_newline [symmetric])
    with h show ?thesis by (simp add: u_escape_def hex4_str_def)
  qed
  have c: "newline \<noteq> char_of cp" if "32 \<le> cp" "cp < 127"
    using that by (auto simp: char_of_lt_eq_iff dest!: sym [of newline])
  have "(cp - 65536) div 1024 < 1024" using assms by (auto simp: cp_ok_def)
  with u c show ?thesis by (auto simp: esc_cp_def)
qed

lemma dumps_str_no_newline: "newline \<notin> set (dumps_str s)"
  by (auto simp: dumps_str_def dest: esc_cp_no_newline [OF cps_of_ok])

lemma set_py_join: "set (py_join sep xs) \<subseteq> set sep \<union> \<Union> (set ` set xs)"
  by (induction sep xs rule: py_join.induct) auto

lemma nat_str_no_newline: "newline \<notin> set (int_str i)"
  using nat_str_digits [of newline] by (auto simp: int_str_def is_digit_def)

lemma compact_json_no_newline: "one_line v \<Longrightarrow> newline \<notin> set (compact_json v)"
  unfolding compact_json_def
proof (induction "'',''" "'':''" v rule: json_dumps_with.induct)
  case (6 xs)
  then have "\<forall>x \<in> set (List.map (json_dumps_with '','' '':'') xs). newline \<notin> set x"
    by (auto simp: list_all_iff)
  then show ?case using set_py_join [of "'',''" "List.map (json_dumps_with '','' '':'') xs"] by auto
next
  case (7 d)
  let ?f = "\<lambda>p. dumps_str (fst p) @ '':'' @ json_dumps_with '','' '':'' (snd p)"
  have "\<forall>x \<in> set (List.map ?f d). newline \<notin> set x"
    using 7 dumps_str_no_newline by (auto simp: list_all_iff)
  then have "newline \<notin> set (py_join '','' (List.map ?f d))"
    using set_py_join [of "'',''" "List.map ?f d"] by fastforce
  then show ?case by simp
qed (simp_all add: dumps_str_no_newline nat_str_no_newline)

lemma sse_line_of_payload:
  "eventstream_payload_to_sse_line b = Some l \<Longrightarrow> \<exists>d. l = sse_line (JDict d) \<and> one_line (JDict d)"
  by (auto simp: eventstream_payload_to_sse_line_def bind_r_Inr_iff dest!: json_loads_one_line
      split: sum.splits json.splits option.splits if_splits)

lemma split_sse_lines:
  "\<forall>d \<in> set ds. one_line (JDict d) \<Longrightarrow>
     py_split newline (concat (List.map (\<lambda>d. sse_line (JDict d)) ds))
       = List.map (\<lambda>d. ''data: '' @ compact_json (JDict d)) ds @ [[]]"
proof (induction ds)
  case (Cons d ds)
  then have "newline \<notin> set (''data: '' @ compact_json (JDict d))"
    using compact_json_no_newline [of "JDict d"] by simp
  from py_split_append_sep [OF this] Cons show ?case by (simp add: sse_line_def)
qed simp

lemma sse_lines_dicts: "\<exists>ds. sse_lines fs = concat (List.map (\<lambda>d. sse_line (JDict d)) ds)
    \<and> length ds \<le> length fs \<and> (\<forall>d \<in> set ds. one_line (JDict d))"
proof (induction fs)
  case Nil
  then show ?case by (intro exI [of _ "[]"]) (simp add: sse_lines_def)
next
  case (Cons f fs)
  then obtain ds where ds: "sse_lines fs = concat (List.map (\<lambda>d. sse_line (JDict d)) ds)"
    "length ds \<le> length fs" "\<forall>d \<in> set ds. one_line (JDict d)"
    by blast
  show ?case
  proof (cases "eventstream_payload_to_sse_line (payload f)")
    case None
    then show ?thesis using ds by (intro exI [of _ ds]) (simp add: sse_lines_def)
  next
    case (Some l)
    then obtain d where "l = sse_line (JDict d)" "one_line (JDict d)" using sse_line_of_payload by blast
    then show ?thesis using ds Some by (intro exI [of _ "d # ds"]) (simp add: sse_lines_def)
  qed
qed

text \<open>
  What is returned for an event stream is, split into lines, one \<open>data:\<close> line holding one JSON
  object for each usable message, and nothing else: no message can inject a line.  It accounts for
  the whole body unless botocore reported a corrupt frame after at least one good one.
\<close>

theorem eventstream_lines:
  assumes "parse_vnd_amazon_eventstream buffer body = Some sse"
  shows "\<exists>frames err ds. buffer body = (frames, err) \<and> frames \<noteq> [] \<and> length ds \<le> length frames
    \<and> py_split newline sse = List.map (\<lambda>d. ''data: '' @ compact_json (JDict d)) ds @ [[]]
    \<and> (err \<or> length body \<le> sum_list (List.map total_length frames))"
proof -
  obtain frames err where b: "buffer body = (frames, err)" by fastforce
  then have "frames \<noteq> []" "sse = sse_lines frames" "err \<or> length body \<le> sum_list (List.map total_length frames)"
    using assms by (auto simp: parse_vnd_amazon_eventstream_def split: if_splits)
  moreover obtain ds where "sse_lines frames = concat (List.map (\<lambda>d. sse_line (JDict d)) ds)"
    "length ds \<le> length frames" "\<forall>d \<in> set ds. one_line (JDict d)"
    using sse_lines_dicts by blast
  ultimately show ?thesis using b split_sse_lines by auto
qed

section \<open>Headers survive the wire\<close>

text \<open>
  Headers whose values are base64 of UTF-8 text decode to those values, in order, with no
  failure counted.
\<close>

theorem decode_b64_headers_roundtrip:
  assumes "\<forall>h \<in> set hs. str_ok False (snd h)"
  shows "decode_b64_headers (List.map (\<lambda>h. (fst h, b64encode (snd h))) hs)
    = Inr (List.map (\<lambda>h. (fst h, Some (snd h))) hs, 0)"
  using assms
  by (induction hs) (auto simp: b64decode_def a2b_encode decode_utf8_def)

lemma map_sum_Inr_iff: "map_sum id f m = Inr y \<longleftrightarrow> (\<exists>x. m = Inr x \<and> f x = y)"
  by (cases m) auto

lemma decode_b64_headers_keys:
  "decode_b64_headers hs = Inr (ds, n) \<Longrightarrow>
     List.map fst ds = List.map fst hs \<and> n = length (filter (\<lambda>d. snd d = None) ds)"
  by (induction hs arbitrary: ds n)
    (auto simp: map_sum_Inr_iff split: sum.splits if_splits)

text \<open>
  A header value with a non-ASCII character does not decode to nothing, as the documentation
  of \<open>_decode_b64_header\<close> says of a failure: the \<open>ValueError\<close> of \<open>b64decode\<close> escapes.
\<close>

theorem decode_b64_header_escapes:
  assumes "map_of raw_headers key = Some v" "\<not> is_ascii v"
  shows "\<exists>e. decode_b64_header raw_headers key = Inl e \<and> class_of e = ValueErrorC"
  using assms by (simp add: decode_b64_header_def b64decode_def)
section \<open>On concrete bodies\<close>

definition demo_envelope :: bytes where
  "demo_envelope = ''{'' @ dquote # ''bytes'' @ [dquote, CHR '':'', dquote] @ ''e30='' @ [dquote, CHR ''}'']"

lemma demo_sse: "eventstream_payload_to_sse_line demo_envelope = Some (''data: {}'' @ [newline])"
  by code_simp

theorem eventstream_lines_witness:
  "\<exists>ds. parse_vnd_amazon_eventstream (\<lambda>_. ([\<lparr>total_length = 3, payload = demo_envelope\<rparr>], False)) ''abc''
       = Some (''data: {}'' @ [newline])
     \<and> py_split newline (''data: {}'' @ [newline]) = List.map (\<lambda>d. ''data: '' @ compact_json (JDict d)) ds @ [[]]"
proof -
  have p: "parse_vnd_amazon_eventstream (\<lambda>_. ([\<lparr>total_length = 3, payload = demo_envelope\<rparr>], False)) ''abc''
       = Some (''data: {}'' @ [newline])"
    using demo_sse by (simp add: parse_vnd_amazon_eventstream_def sse_lines_def)
  from eventstream_lines [OF p] p show ?thesis by blast
qed

theorem decode_b64_headers_roundtrip_witness:
  "decode_b64_headers [(''k'', b64encode ''v'')] = Inr ([(''k'', Some ''v'')], 0)"
  using decode_b64_headers_roundtrip [of "[(''k'', ''v'')]"] by (simp add: str_ok_ascii)

theorem decode_b64_header_escapes_witness:
  "\<exists>e. decode_b64_header [(''user-agent'', [CHR 0xE9])] ''user-agent'' = Inl e \<and> class_of e = ValueErrorC"
  by (rule decode_b64_header_escapes [where v = "[CHR 0xE9]"]) simp_all
end
