(* ===== verification/Records.thy ===== *)
theory Records
  imports Datetime Decode
begin

text \<open>
  The records of the Kinesis streams (\<open>models.py\<close>): what the proxy's log payloads become, the
  dictionary each record is published as, and the Glue schema that describes it to its readers.
  Trailers and raw headers are dictionaries of strings.
\<close>

section \<open>Log payloads of the proxy\<close>

text \<open>\<open>unix_timestamp_to_iso\<close>: outside the representable dates \<open>fromtimestamp\<close> raises.\<close>

definition unix_timestamp_to_iso :: "int \<Rightarrow> string res" where
  "unix_timestamp_to_iso ts =
     (let t = utc_datetime (ts * us_per_s)
      in if 0 \<le> wall t \<and> wall t div us_per_day \<le> max_days then Inr (iso_millis t)
         else Inl (PyError ValueErrorC ''ValueError'' ''year is out of range''))"

record headers_payload =
  hp_headers :: headers
  hp_timestamp :: int

record trailers_payload =
  tp_trailers :: headers
  tp_timestamp :: int

definition headers_iso_timestamp :: "headers_payload \<Rightarrow> string res" where
  "headers_iso_timestamp p = unix_timestamp_to_iso (hp_timestamp p)"

definition trailers_iso_timestamp :: "trailers_payload \<Rightarrow> string res" where
  "trailers_iso_timestamp p = unix_timestamp_to_iso (tp_timestamp p)"

section \<open>Records\<close>

record metadata_record =
  mr_request_id :: string
  mr_timestamp :: string
  mr_published_at :: string
  mr_account_id :: json
  mr_principal :: json
  mr_principal_arn :: json
  mr_project :: json
  mr_session_name :: json
  mr_secret_arn :: json

record request_headers_record =
  qh_request_id :: string
  qh_raw_headers :: headers
  qh_timestamp :: string
  qh_published_at :: string
  qh_content_type :: "string option"
  qh_method :: "string option"
  qh_path :: "string option"
  qh_authority :: "string option"
  qh_user_agent :: "string option"
  qh_content_encoding :: "string option"

record body_record =
  br_request_id :: string
  br_body :: string
  br_body_size :: int
  br_timestamp :: string
  br_chunk_id :: int
  br_num_chunks :: int
  br_published_at :: string

record trailers_record =
  tr_request_id :: string
  tr_trailers :: headers
  tr_timestamp :: string
  tr_published_at :: string

record response_headers_record =
  sh_request_id :: string
  sh_raw_headers :: headers
  sh_timestamp :: string
  sh_published_at :: string
  sh_server :: "string option"
  sh_status :: "string option"
  sh_content_length :: "string option"
  sh_content_type :: "string option"
  sh_content_encoding :: "string option"

text \<open>\<open>__post_init__\<close> decodes the fields it names from the raw headers.\<close>

definition RequestHeadersRecord ::
  "string \<Rightarrow> headers \<Rightarrow> string \<Rightarrow> string \<Rightarrow> request_headers_record res" where
  "RequestHeadersRecord rid hs ts pub =
     bind_r (decode_b64_header hs ''content-type'') (\<lambda>ct.
     bind_r (decode_b64_header hs '':method'') (\<lambda>m.
     bind_r (decode_b64_header hs '':path'') (\<lambda>pa.
     bind_r (decode_b64_header hs '':authority'') (\<lambda>au.
     bind_r (decode_b64_header hs ''user-agent'') (\<lambda>ua.
     bind_r (decode_b64_header hs ''content-encoding'') (\<lambda>ce.
       Inr \<lparr>qh_request_id = rid, qh_raw_headers = hs, qh_timestamp = ts, qh_published_at = pub,
            qh_content_type = ct, qh_method = m, qh_path = pa, qh_authority = au,
            qh_user_agent = ua, qh_content_encoding = ce\<rparr>))))))"

definition ResponseHeadersRecord ::
  "string \<Rightarrow> headers \<Rightarrow> string \<Rightarrow> string \<Rightarrow> response_headers_record res" where
  "ResponseHeadersRecord rid hs ts pub =
     bind_r (decode_b64_header hs ''server'') (\<lambda>sv.
     bind_r (decode_b64_header hs '':status'') (\<lambda>st.
     bind_r (decode_b64_header hs ''content-length'') (\<lambda>cl.
     bind_r (decode_b64_header hs ''content-type'') (\<lambda>ct.
     bind_r (decode_b64_header hs ''content-encoding'') (\<lambda>ce.
       Inr \<lparr>sh_request_id = rid, sh_raw_headers = hs, sh_timestamp = ts, sh_published_at = pub,
            sh_server = sv, sh_status = st, sh_content_length = cl, sh_content_type = ct,
            sh_content_encoding = ce\<rparr>)))))"

section \<open>Dictionaries and schemas\<close>

type_synonym json_dict = "(string \<times> json) list"

definition headers_json :: "headers \<Rightarrow> json" where
  "headers_json hs = JDict (List.map (\<lambda>(k, v). (k, JStr v)) hs)"

definition metadata_to_dict :: "metadata_record \<Rightarrow> json_dict" where
  "metadata_to_dict r =
     [(''record_type'', JStr ''metadata''), (''request_id'', JStr (mr_request_id r)),
      (''timestamp'', JStr (mr_timestamp r)), (''published_at'', JStr (mr_published_at r)),
      (''account_id'', mr_account_id r), (''principal'', mr_principal r),
      (''principal_arn'', mr_principal_arn r), (''project'', mr_project r),
      (''session_name'', mr_session_name r), (''secret_arn'', mr_secret_arn r)]"

definition metadata_schema :: headers where
  "metadata_schema =
     [(''record_type'', ''string''), (''request_id'', ''string''), (''timestamp'', ''string''),
      (''published_at'', ''string''), (''account_id'', ''string''), (''principal'', ''string''),
      (''principal_arn'', ''string''), (''project'', ''string''), (''session_name'', ''string''),
      (''secret_arn'', ''string'')]"

definition request_headers_to_dict :: "request_headers_record \<Rightarrow> json_dict" where
  "request_headers_to_dict r =
     [(''record_type'', JStr ''request_headers''), (''request_id'', JStr (qh_request_id r)),
      (''raw_headers'', headers_json (qh_raw_headers r)), (''timestamp'', JStr (qh_timestamp r)),
      (''published_at'', JStr (qh_published_at r)), (''content_type'', json_opt (qh_content_type r)),
      (''method'', json_opt (qh_method r)), (''path'', json_opt (qh_path r)),
      (''authority'', json_opt (qh_authority r)), (''user_agent'', json_opt (qh_user_agent r)),
      (''content_encoding'', json_opt (qh_content_encoding r))]"

definition request_headers_schema :: headers where
  "request_headers_schema =
     [(''record_type'', ''string''), (''request_id'', ''string''),
      (''raw_headers'', ''map<string,string>''), (''timestamp'', ''string''),
      (''published_at'', ''string''), (''content_type'', ''string''), (''method'', ''string''),
      (''path'', ''string''), (''authority'', ''string''), (''user_agent'', ''string''),
      (''content_encoding'', ''string'')]"

definition body_to_dict :: "string \<Rightarrow> body_record \<Rightarrow> json_dict" where
  "body_to_dict record_type r =
     [(''record_type'', JStr record_type), (''request_id'', JStr (br_request_id r)),
      (''body'', JStr (br_body r)), (''body_size'', JInt (br_body_size r)),
      (''chunk_id'', JInt (br_chunk_id r)), (''num_chunks'', JInt (br_num_chunks r)),
      (''timestamp'', JStr (br_timestamp r)), (''published_at'', JStr (br_published_at r))]"

definition request_body_to_dict :: "body_record \<Rightarrow> json_dict" where
  "request_body_to_dict = body_to_dict ''request_body''"

definition response_body_to_dict :: "body_record \<Rightarrow> json_dict" where
  "response_body_to_dict = body_to_dict ''response_body''"

definition body_schema :: headers where
  "body_schema =
     [(''record_type'', ''string''), (''request_id'', ''string''), (''body'', ''string''),
      (''body_size'', ''bigint''), (''chunk_id'', ''bigint''), (''num_chunks'', ''bigint''),
      (''timestamp'', ''string''), (''published_at'', ''string'')]"

definition trailers_to_dict :: "string \<Rightarrow> trailers_record \<Rightarrow> json_dict" where
  "trailers_to_dict record_type r =
     [(''record_type'', JStr record_type), (''request_id'', JStr (tr_request_id r)),
      (''trailers'', headers_json (tr_trailers r)), (''timestamp'', JStr (tr_timestamp r)),
      (''published_at'', JStr (tr_published_at r))]"

definition request_trailers_to_dict :: "trailers_record \<Rightarrow> json_dict" where
  "request_trailers_to_dict = trailers_to_dict ''request_trailers''"

definition response_trailers_to_dict :: "trailers_record \<Rightarrow> json_dict" where
  "response_trailers_to_dict = trailers_to_dict ''response_trailers''"

definition trailers_schema :: headers where
  "trailers_schema =
     [(''record_type'', ''string''), (''request_id'', ''string''),
      (''trailers'', ''map<string,string>''), (''timestamp'', ''string''), (''published_at'', ''string'')]"

definition response_headers_to_dict :: "response_headers_record \<Rightarrow> json_dict" where
  "response_headers_to_dict r =
     [(''record_type'', JStr ''response_headers''), (''request_id'', JStr (sh_request_id r)),
      (''raw_headers'', headers_json (sh_raw_headers r)), (''timestamp'', JStr (sh_timestamp r)),
      (''published_at'', JStr (sh_published_at r)), (''server'', json_opt (sh_server r)),
      (''status'', json_opt (sh_status r)), (''content_length'', json_opt (sh_content_length r)),
      (''content_type'', json_opt (sh_content_type r)),
      (''content_encoding'', json_opt (sh_content_encoding r))]"

definition response_headers_schema :: headers where
  "response_headers_schema =
     [(''record_type'', ''string''), (''request_id'', ''string''),
      (''raw_headers'', ''map<string,string>''), (''timestamp'', ''string''),
      (''published_at'', ''string''), (''server'', ''string''), (''status'', ''string''),
      (''content_length'', ''string''), (''content_type'', ''string''), (''content_encoding'', ''string'')]"

section \<open>The contract of a record type\<close>

text \<open>
  A reader parses the stream with the Glue schema: the dictionary a record is published as has
  the schema's columns, in its order, each with a value of the column's type, and comes back from
  its JSON text.
\<close>

fun is_string_map :: "json \<Rightarrow> bool" where
  "is_string_map (JDict d) = list_all (\<lambda>p. \<exists>s. snd p = JStr s) d"
| "is_string_map _ = False"

definition glue_value :: "string \<Rightarrow> json \<Rightarrow> bool" where
  "glue_value ty v \<longleftrightarrow>
     (if ty = ''string'' then v = JNull \<or> (\<exists>s. v = JStr s)
      else if ty = ''bigint'' then (\<exists>n. v = JInt n)
      else ty = ''map<string,string>'' \<and> is_string_map v)"

definition conforms :: "json_dict \<Rightarrow> headers \<Rightarrow> bool" where
  "conforms d schema \<longleftrightarrow> list_all2 (\<lambda>(k, v) (n, ty). k = n \<and> glue_value ty v) d schema"

definition str_value :: "json \<Rightarrow> bool" where
  "str_value v \<longleftrightarrow> v = JNull \<or> (\<exists>s. v = JStr s \<and> str_ok False s)"

definition headers_ok :: "headers \<Rightarrow> bool" where
  "headers_ok hs \<longleftrightarrow> distinct (List.map fst hs)
     \<and> (\<forall>h \<in> set hs. str_ok False (fst h) \<and> str_ok False (snd h))"

definition opt_ok :: "string option \<Rightarrow> bool" where
  "opt_ok s \<longleftrightarrow> (case s of None \<Rightarrow> True | Some t \<Rightarrow> str_ok False t)"

lemma conforms_names: "conforms d schema \<Longrightarrow> List.map fst d = List.map fst schema"
  unfolding conforms_def by (induction rule: list_all2_induct) auto

locale kinesis_record =
  fixes rec_dict :: "'r \<Rightarrow> json_dict" and schema :: headers and ok :: "'r \<Rightarrow> bool"
  assumes columns: "ok r \<Longrightarrow> conforms (rec_dict r) schema"
    and encodable: "ok r \<Longrightarrow> json_ok (JDict (rec_dict r))"
begin

lemma column_names: "ok r \<Longrightarrow> List.map fst (rec_dict r) = List.map fst schema"
  using columns by (rule conforms_names)

lemma read_back: "ok r \<Longrightarrow> json_loads (json_dumps (JDict (rec_dict r))) = Inr (JDict (rec_dict r))"
  using encodable by (rule json_loads_dumps)

end

text \<open>When a record's strings are text a reader can be sent.\<close>

definition metadata_ok :: "metadata_record \<Rightarrow> bool" where
  "metadata_ok r \<longleftrightarrow> list_all (str_ok False) [mr_request_id r, mr_timestamp r, mr_published_at r]
     \<and> list_all str_value [mr_account_id r, mr_principal r, mr_principal_arn r, mr_project r,
         mr_session_name r, mr_secret_arn r]"

definition request_headers_ok :: "request_headers_record \<Rightarrow> bool" where
  "request_headers_ok r \<longleftrightarrow> list_all (str_ok False) [qh_request_id r, qh_timestamp r, qh_published_at r]
     \<and> headers_ok (qh_raw_headers r)
     \<and> list_all opt_ok [qh_content_type r, qh_method r, qh_path r, qh_authority r, qh_user_agent r,
         qh_content_encoding r]"

definition body_ok :: "body_record \<Rightarrow> bool" where
  "body_ok r \<longleftrightarrow> list_all (str_ok False) [br_request_id r, br_body r, br_timestamp r, br_published_at r]"

definition trailers_ok :: "trailers_record \<Rightarrow> bool" where
  "trailers_ok r \<longleftrightarrow> list_all (str_ok False) [tr_request_id r, tr_timestamp r, tr_published_at r]
     \<and> headers_ok (tr_trailers r)"

definition response_headers_ok :: "response_headers_record \<Rightarrow> bool" where
  "response_headers_ok r \<longleftrightarrow> list_all (str_ok False) [sh_request_id r, sh_timestamp r, sh_published_at r]
     \<and> headers_ok (sh_raw_headers r)
     \<and> list_all opt_ok [sh_server r, sh_status r, sh_content_length r, sh_content_type r,
         sh_content_encoding r]"

lemma headers_json_ok: "headers_ok hs \<Longrightarrow> json_ok (headers_json hs)"
  by (auto simp: headers_ok_def headers_json_def list_all_iff comp_def case_prod_beta)

lemma headers_json_map: "is_string_map (headers_json hs)"
  by (auto simp: headers_json_def list_all_iff)

lemma json_opt_ok: "opt_ok s \<Longrightarrow> json_ok (json_opt s)" "json_opt s = JNull \<or> (\<exists>t. json_opt s = JStr t)"
  by (auto simp: opt_ok_def json_opt_def split: option.splits)

lemma str_value_ok: "str_value v \<Longrightarrow> json_ok v" "str_value v \<Longrightarrow> v = JNull \<or> (\<exists>t. v = JStr t)"
  by (auto simp: str_value_def)

lemmas record_rules = conforms_def glue_value_def headers_json_ok headers_json_map json_opt_ok str_value_ok

lemmas schema_defs = metadata_schema_def request_headers_schema_def body_schema_def trailers_schema_def
  response_headers_schema_def

lemmas dict_defs = metadata_to_dict_def request_headers_to_dict_def request_body_to_dict_def
  response_body_to_dict_def body_to_dict_def request_trailers_to_dict_def response_trailers_to_dict_def
  trailers_to_dict_def response_headers_to_dict_def

lemma ascii_names: "is_ascii s \<Longrightarrow> str_ok False s"
  by (rule str_ok_ascii)

interpretation metadata: kinesis_record metadata_to_dict metadata_schema metadata_ok
  by unfold_locales (auto simp: metadata_ok_def dict_defs schema_defs record_rules str_ok_ascii)

interpretation request_headers: kinesis_record request_headers_to_dict request_headers_schema request_headers_ok
  by unfold_locales (auto simp: request_headers_ok_def dict_defs schema_defs record_rules str_ok_ascii)

interpretation request_body: kinesis_record request_body_to_dict body_schema body_ok
  by unfold_locales (auto simp: body_ok_def dict_defs schema_defs record_rules str_ok_ascii)

interpretation response_body: kinesis_record response_body_to_dict body_schema body_ok
  by unfold_locales (auto simp: body_ok_def dict_defs schema_defs record_rules str_ok_ascii)

interpretation request_trailers: kinesis_record request_trailers_to_dict trailers_schema trailers_ok
  by unfold_locales (auto simp: trailers_ok_def dict_defs schema_defs record_rules str_ok_ascii)

interpretation response_trailers: kinesis_record response_trailers_to_dict trailers_schema trailers_ok
  by unfold_locales (auto simp: trailers_ok_def dict_defs schema_defs record_rules str_ok_ascii)

interpretation response_headers: kinesis_record response_headers_to_dict response_headers_schema response_headers_ok
  by unfold_locales (auto simp: response_headers_ok_def dict_defs schema_defs record_rules str_ok_ascii)

text \<open>Constructing a headers record from text gives one that can be sent.\<close>

lemma replace_cps_ok: "c \<in> set (utf8_replace_cps s) \<Longrightarrow> cp_ok False c"
proof (induction s rule: utf8_replace_cps.induct)
  case (1 s)
  show ?case
  proof (cases "s = []")
    case False
    obtain r k where step: "utf8_step False s = (r, k)" by fastforce
    have "c = (case r of None \<Rightarrow> 65533 | Some cp \<Rightarrow> cp) \<or> c \<in> set (utf8_replace_cps (drop k s))"
      using "1.prems" False step by (simp add: utf8_replace_cps.simps [of s] Let_def)
    moreover have "cp_ok False (case r of None \<Rightarrow> 65533 | Some cp \<Rightarrow> cp)"
      using utf8_step_sound [of False s] step
      by (cases r) (auto simp: cp_ok_def is_surrogate_def)
    ultimately show ?thesis using "1.IH" [OF False refl] step by auto
  qed (use "1.prems" in \<open>simp add: utf8_replace_cps.simps\<close>)
qed

lemma decode_replace_ok: "str_ok False (decode_utf8_replace b)"
  by (simp add: str_ok_def decode_utf8_replace_def utf8_decode_enc replace_cps_ok)

lemma decode_b64_header_ok: "decode_b64_header hs k = Inr v \<Longrightarrow> opt_ok v"
  by (auto simp: decode_b64_header_def opt_ok_def decode_replace_ok map_sum_Inr_iff
      split: option.splits sum.splits if_splits)

lemma request_headers_record_ok:
  assumes "RequestHeadersRecord rid hs ts pub = Inr r" "headers_ok hs" "list_all (str_ok False) [rid, ts, pub]"
  shows "request_headers_ok r"
  using assms by (auto simp: RequestHeadersRecord_def request_headers_ok_def bind_r_Inr_iff dest: decode_b64_header_ok)

lemma response_headers_record_ok:
  assumes "ResponseHeadersRecord rid hs ts pub = Inr r" "headers_ok hs" "list_all (str_ok False) [rid, ts, pub]"
  shows "response_headers_ok r"
  using assms by (auto simp: ResponseHeadersRecord_def response_headers_ok_def bind_r_Inr_iff dest: decode_b64_header_ok)

text \<open>
  A reader of the request-header stream gets back from the JSON text of a record exactly the
  dictionary that was published, and it has the columns of the Glue schema, in order, each with a
  value of the column's type.
\<close>

theorem request_headers_stream:
  assumes "RequestHeadersRecord rid hs ts pub = Inr r" "headers_ok hs" "list_all (str_ok False) [rid, ts, pub]"
  shows "json_loads (json_dumps (JDict (request_headers_to_dict r))) = Inr (JDict (request_headers_to_dict r))
    \<and> conforms (request_headers_to_dict r) request_headers_schema"
  using request_headers.read_back request_headers.columns request_headers_record_ok [OF assms] by blast

definition stream_ok :: "json_dict \<Rightarrow> headers \<Rightarrow> bool" where
  "stream_ok d schema \<longleftrightarrow> json_loads (json_dumps (JDict d)) = Inr (JDict d) \<and> conforms d schema"

text \<open>
  C36: the same holds of the metadata, body, trailers and response-header streams: what is read back
  from a record's JSON text is the record's dictionary, with the columns of its Glue schema.
\<close>

theorem record_streams:
  assumes "metadata_ok m" "body_ok b" "trailers_ok t" "response_headers_ok h"
  shows "stream_ok (metadata_to_dict m) metadata_schema
    \<and> stream_ok (request_body_to_dict b) body_schema \<and> stream_ok (response_body_to_dict b) body_schema
    \<and> stream_ok (request_trailers_to_dict t) trailers_schema
    \<and> stream_ok (response_trailers_to_dict t) trailers_schema
    \<and> stream_ok (response_headers_to_dict h) response_headers_schema"
  using assms metadata.read_back metadata.columns request_body.read_back request_body.columns
    response_body.read_back response_body.columns request_trailers.read_back request_trailers.columns
    response_trailers.read_back response_trailers.columns response_headers.read_back
    response_headers.columns
  unfolding stream_ok_def by blast

definition demo_metadata :: metadata_record where
  "demo_metadata = \<lparr>mr_request_id = ''r'', mr_timestamp = ''t'', mr_published_at = ''p'',
     mr_account_id = JStr ''1'', mr_principal = JNull, mr_principal_arn = JNull, mr_project = JNull,
     mr_session_name = JNull, mr_secret_arn = JStr ''a''\<rparr>"

definition demo_body :: body_record where
  "demo_body = \<lparr>br_request_id = ''r'', br_body = ''YQ=='', br_body_size = 1, br_timestamp = ''t'',
     br_chunk_id = 0, br_num_chunks = 1, br_published_at = ''p''\<rparr>"

definition demo_trailers :: trailers_record where
  "demo_trailers = \<lparr>tr_request_id = ''r'', tr_trailers = [(''k'', ''v'')], tr_timestamp = ''t'',
     tr_published_at = ''p''\<rparr>"

definition demo_response :: response_headers_record where
  "demo_response = \<lparr>sh_request_id = ''r'', sh_raw_headers = [(''server'', ''eA=='')], sh_timestamp = ''t'',
     sh_published_at = ''p'', sh_server = Some ''x'', sh_status = None, sh_content_length = None,
     sh_content_type = None, sh_content_encoding = None\<rparr>"

theorem record_streams_witness:
  "stream_ok (metadata_to_dict demo_metadata) metadata_schema
    \<and> stream_ok (request_trailers_to_dict demo_trailers) trailers_schema
    \<and> stream_ok (response_headers_to_dict demo_response) response_headers_schema"
proof -
  have "metadata_ok demo_metadata" "body_ok demo_body" "trailers_ok demo_trailers" "response_headers_ok demo_response"
    by (simp_all add: metadata_ok_def demo_metadata_def body_ok_def demo_body_def trailers_ok_def
        demo_trailers_def response_headers_ok_def demo_response_def str_value_def headers_ok_def
        opt_ok_def str_ok_ascii)
  from record_streams [OF this] show ?thesis by blast
qed

theorem request_headers_stream_witness:
  "\<exists>r. RequestHeadersRecord ''r'' [('':method'', b64encode ''GET'')] ''t'' ''p'' = Inr r
     \<and> conforms (request_headers_to_dict r) request_headers_schema"
proof -
  obtain r where r: "RequestHeadersRecord ''r'' [('':method'', b64encode ''GET'')] ''t'' ''p'' = Inr r"
  proof -
    have "b64decode (b64encode ''GET'') = Inr ''GET''"
      by (simp add: b64decode_def a2b_encode del: b64encode.simps)
    with that show thesis by (simp add: RequestHeadersRecord_def decode_b64_header_def del: b64encode.simps)
  qed
  have "headers_ok [('':method'', b64encode ''GET'')]" "list_all (str_ok False) [''r'', ''t'', ''p'']"
    by (simp_all add: headers_ok_def str_ok_ascii del: b64encode.simps)
  from request_headers_stream [OF r this] r show ?thesis by blast
qed

end
