(* ===== verification/Publish.thy ===== *)
theory Publish
  imports StateService Federation Records
begin

text \<open>
  \<open>publish_service.py\<close> and the chunking of \<open>util.py\<close>: a record is put on the Kinesis stream
  configured for its kind, as the JSON text of its dictionary, partitioned by the request id.  A
  stream that is not configured is skipped.  The client and its answer are the \<open>put_record\<close>
  parameter.
\<close>

section \<open>Chunks\<close>

text \<open>\<open>body_bytes[i : i + step]\<close> for each \<open>i\<close> of \<open>range(0, len(body_bytes), step)\<close>, with a positive step.\<close>

fun slices :: "nat \<Rightarrow> bytes \<Rightarrow> bytes list" where
  "slices step b = (if step = 0 \<or> b = [] then [] else take step b # slices step (drop step b))"

declare slices.simps [simp del]

definition safe_raw_chunk_size :: "int \<Rightarrow> int" where
  "safe_raw_chunk_size max_size = (max_size - 100) div 4 * 3"

definition chunk_body_data :: "config \<Rightarrow> bytes \<Rightarrow> int option \<Rightarrow> bytes list res" where
  "chunk_body_data cfg body_bytes max_size =
     (let step = safe_raw_chunk_size
                   (case max_size of None \<Rightarrow> max_record_size (cfg_kinesis cfg) | Some n \<Rightarrow> n)
      in if step = 0 then Inl (PyError ValueErrorC ''ValueError'' ''range() arg 3 must not be zero'')
         else if step < 0 then Inr []
         else Inr (slices (nat step) body_bytes))"

section \<open>One record\<close>

definition generate_iso_timestamp :: "'x services \<Rightarrow> ('x world, string) eff" where
  "generate_iso_timestamp svc = mapE (\<lambda>us. iso_millis (utc_datetime us)) (now_us svc)"

text \<open>
  \<open>sequence_number[:8]\<close> of \<open>response.get("SequenceNumber")\<close>: only a string or a list has a slice.
\<close>

definition slice_error :: "json res" where
  "slice_error = Inl (PyError TypeErrorC ''TypeError'' ''object is not subscriptable'')"

definition sequence_number :: "json \<Rightarrow> json res" where
  "sequence_number response =
     bind_r (py_get response ''SequenceNumber'' JNull) (\<lambda>v.
       case v of
         JStr s \<Rightarrow> Inr v
       | JList xs \<Rightarrow> Inr v
       | JDict d \<Rightarrow> Inl (PyError KeyErrorC ''KeyError'' ''slice(None, 8, None)'')
       | _ \<Rightarrow> slice_error)"

definition publish_failed :: "exn \<Rightarrow> ('x world, bool) eff" where
  "publish_failed e =
     (if isinstance e [TimeoutErrorC] then raiseE e
      else if is_Exception e
      then raiseE (ServiceError (''Failed to publish to Kinesis Data Stream: '' @ exn_str e))
      else raiseE e)"

definition put_and_check ::
  "'x services \<Rightarrow> string \<Rightarrow> string \<Rightarrow> string \<Rightarrow> ('x world, bool) eff" where
  "put_and_check svc stream_name data partition_key =
     bindE (get_kinesis_client svc) (\<lambda>_.
     bindE (callE (EvPutRecord (Some stream_name) data partition_key)
              (put_record svc (Some stream_name) data partition_key)) (\<lambda>response.
     bindE (liftE (sequence_number response)) (\<lambda>_. retE True)))"

definition publish_to_kinesis_data_stream ::
  "'x services \<Rightarrow> config \<Rightarrow> string \<Rightarrow> json_dict \<Rightarrow> string \<Rightarrow> ('x world, bool) eff" where
  "publish_to_kinesis_data_stream svc cfg stream_name record_data partition_key =
     (if stream_name = [] then retE False
      else
        bindE (case nonblank (endpoint_url (cfg_aws cfg)) of
                 Some _ \<Rightarrow> callE (EvSleep 1) (sleep svc 1) | None \<Rightarrow> retE ()) (\<lambda>_.
          catchE (put_and_check svc stream_name (json_dumps (JDict record_data)) partition_key)
            publish_failed))"

section \<open>The seven kinds of record\<close>

text \<open>
  What the seven methods share: nothing is published without a stream, and the record is built with
  the time of publication.
\<close>

definition publish_record ::
  "'x services \<Rightarrow> config \<Rightarrow> string option \<Rightarrow> string \<Rightarrow> (string \<Rightarrow> json_dict res) \<Rightarrow> ('x world, bool) eff" where
  "publish_record svc cfg stream request_id record =
     (case nonblank stream of
        None \<Rightarrow> retE False
      | Some s \<Rightarrow>
          bindE (generate_iso_timestamp svc) (\<lambda>published_at.
          bindE (liftE (record published_at)) (\<lambda>d.
            publish_to_kinesis_data_stream svc cfg s d request_id)))"

definition publish_metadata ::
  "'x services \<Rightarrow> config \<Rightarrow> string \<Rightarrow> string \<Rightarrow> json \<Rightarrow> json \<Rightarrow> ('x world, bool) eff" where
  "publish_metadata svc cfg request_id timestamp principal_dict arn =
     publish_record svc cfg (metadata_stream_name (cfg_kinesis cfg)) request_id (\<lambda>pub.
       bind_r (py_get principal_dict ''account_id'' JNull) (\<lambda>acc.
       bind_r (py_get principal_dict ''principal'' JNull) (\<lambda>pr.
       bind_r (py_get principal_dict ''arn'' JNull) (\<lambda>ar.
       bind_r (py_get principal_dict ''project'' JNull) (\<lambda>proj.
       bind_r (py_get principal_dict ''session_name'' JNull) (\<lambda>sess.
         Inr (metadata_to_dict
           \<lparr>mr_request_id = request_id, mr_timestamp = timestamp, mr_published_at = pub,
            mr_account_id = acc, mr_principal = pr, mr_principal_arn = ar, mr_project = proj,
            mr_session_name = sess, mr_secret_arn = arn\<rparr>)))))))"

definition publish_request_headers ::
  "'x services \<Rightarrow> config \<Rightarrow> string \<Rightarrow> headers \<Rightarrow> string \<Rightarrow> ('x world, bool) eff" where
  "publish_request_headers svc cfg request_id hs timestamp =
     publish_record svc cfg (request_headers_stream_name (cfg_kinesis cfg)) request_id (\<lambda>pub.
       map_sum id request_headers_to_dict (RequestHeadersRecord request_id hs timestamp pub))"

definition publish_response_headers ::
  "'x services \<Rightarrow> config \<Rightarrow> string \<Rightarrow> headers \<Rightarrow> string \<Rightarrow> ('x world, bool) eff" where
  "publish_response_headers svc cfg request_id hs timestamp =
     publish_record svc cfg (response_headers_stream_name (cfg_kinesis cfg)) request_id (\<lambda>pub.
       map_sum id response_headers_to_dict (ResponseHeadersRecord request_id hs timestamp pub))"

definition chunk_record :: "string \<Rightarrow> bytes \<Rightarrow> string \<Rightarrow> nat \<Rightarrow> nat \<Rightarrow> string \<Rightarrow> body_record" where
  "chunk_record request_id body_bytes timestamp chunk_id num_chunks pub =
     \<lparr>br_request_id = request_id, br_body = b64encode body_bytes, br_body_size = int (length body_bytes),
      br_timestamp = timestamp, br_chunk_id = int chunk_id, br_num_chunks = int num_chunks,
      br_published_at = pub\<rparr>"

definition publish_request_body ::
  "'x services \<Rightarrow> config \<Rightarrow> string \<Rightarrow> bytes \<Rightarrow> string \<Rightarrow> nat \<Rightarrow> nat \<Rightarrow> ('x world, bool) eff" where
  "publish_request_body svc cfg request_id body_bytes timestamp chunk_id num_chunks =
     publish_record svc cfg (request_body_stream_name (cfg_kinesis cfg)) request_id (\<lambda>pub.
       Inr (request_body_to_dict (chunk_record request_id body_bytes timestamp chunk_id num_chunks pub)))"

definition publish_response_body ::
  "'x services \<Rightarrow> config \<Rightarrow> string \<Rightarrow> bytes \<Rightarrow> string \<Rightarrow> nat \<Rightarrow> nat \<Rightarrow> ('x world, bool) eff" where
  "publish_response_body svc cfg request_id body_bytes timestamp chunk_id num_chunks =
     publish_record svc cfg (response_body_stream_name (cfg_kinesis cfg)) request_id (\<lambda>pub.
       Inr (response_body_to_dict (chunk_record request_id body_bytes timestamp chunk_id num_chunks pub)))"

definition publish_request_trailers ::
  "'x services \<Rightarrow> config \<Rightarrow> string \<Rightarrow> headers \<Rightarrow> string \<Rightarrow> ('x world, bool) eff" where
  "publish_request_trailers svc cfg request_id trailers timestamp =
     publish_record svc cfg (request_trailers_stream_name (cfg_kinesis cfg)) request_id (\<lambda>pub.
       Inr (request_trailers_to_dict
         \<lparr>tr_request_id = request_id, tr_trailers = trailers, tr_timestamp = timestamp, tr_published_at = pub\<rparr>))"

definition publish_response_trailers ::
  "'x services \<Rightarrow> config \<Rightarrow> string \<Rightarrow> headers \<Rightarrow> string \<Rightarrow> ('x world, bool) eff" where
  "publish_response_trailers svc cfg request_id trailers timestamp =
     publish_record svc cfg (response_trailers_stream_name (cfg_kinesis cfg)) request_id (\<lambda>pub.
       Inr (response_trailers_to_dict
         \<lparr>tr_request_id = request_id, tr_trailers = trailers, tr_timestamp = timestamp, tr_published_at = pub\<rparr>))"

section \<open>Chunking loses nothing and fits\<close>

lemma slices_Nil [simp]: "slices n [] = []"
  by (subst slices.simps) simp

lemma slices_step: "0 < n \<Longrightarrow> b \<noteq> [] \<Longrightarrow> slices n b = take n b # slices n (drop n b)"
  by (subst slices.simps) simp

lemma concat_slices: "0 < n \<Longrightarrow> concat (slices n b) = b"
proof (induction n b rule: slices.induct)
  case (1 n b)
  then show ?case by (cases "b = []") (simp_all add: slices_step)
qed

lemma slices_sizes: "c \<in> set (slices n b) \<Longrightarrow> c \<noteq> [] \<and> length c \<le> n"
proof (induction n b rule: slices.induct)
  case (1 n b)
  then show ?case by (subst (asm) (2) slices.simps) (auto split: if_splits)
qed

lemma length_slices: "0 < n \<Longrightarrow> length (slices n b) = (length b + n - 1) div n"
proof (induction n b rule: slices.induct)
  case (1 n b)
  show ?case
  proof (cases "b = []")
    case True
    then show ?thesis using "1.prems" by simp
  next
    case False
    have "length b + n - 1 = length b - 1 + n" using False by (simp add: Suc_le_eq)
    then have "(length b + n - 1) div n = (length b - 1) div n + 1"
      using "1.prems" by (simp only: div_add_self2)
    moreover have "(length b - n + n - 1) div n = (length b - 1) div n"
      using False "1.prems" by (cases "n < length b") (simp_all add: Suc_le_eq less_imp_diff_less)
    ultimately have "(length b - n + n - 1) div n + 1 = (length b + n - 1) div n" by simp
    then show ?thesis using "1.IH" False "1.prems" by (simp add: slices_step)
  qed
qed

lemma safe_chunk_encodes:
  assumes "length c \<le> nat (safe_raw_chunk_size mx)" "0 < safe_raw_chunk_size mx"
  shows "int (length (b64encode c)) \<le> mx - 100"
proof -
  define k where "k = nat ((mx - 100) div 4)"
  have k: "int k = (mx - 100) div 4" "nat (safe_raw_chunk_size mx) = 3 * k"
    using assms(2) by (simp_all add: k_def safe_raw_chunk_size_def nat_mult_distrib)
  have "(length c + 2) div 3 \<le> (3 * k + 2) div 3"
    using assms(1) k(2) by (intro div_le_mono) simp
  then have "(length c + 2) div 3 \<le> k" by simp
  then have "length (b64encode c) \<le> 4 * k" by (simp add: length_b64encode)
  moreover have "4 * int k \<le> mx - 100" unfolding k(1) by presburger
  ultimately show ?thesis by linarith
qed

text \<open>
  C28: with the sizes the configuration admits, chunking always succeeds, the chunks concatenate to
  the body, none is empty, each base64 text stays 100 bytes below the record limit, and their number
  is the least one for that chunk size.
\<close>

theorem chunk_body_data_sound:
  assumes "104 \<le> max_record_size (cfg_kinesis cfg)"
  shows "\<exists>chunks. chunk_body_data cfg b None = Inr chunks \<and> concat chunks = b
    \<and> (\<forall>c \<in> set chunks. c \<noteq> []
        \<and> int (length (b64encode c)) \<le> max_record_size (cfg_kinesis cfg) - 100)
    \<and> int (length chunks)
       = (int (length b) + safe_raw_chunk_size (max_record_size (cfg_kinesis cfg)) - 1)
         div safe_raw_chunk_size (max_record_size (cfg_kinesis cfg))"
proof -
  let ?mx = "max_record_size (cfg_kinesis cfg)"
  define n where "n = nat (safe_raw_chunk_size ?mx)"
  have pos: "0 < safe_raw_chunk_size ?mx" using assms unfolding safe_raw_chunk_size_def by presburger
  then have n: "0 < n" "int n = safe_raw_chunk_size ?mx" by (simp_all add: n_def)
  have "chunk_body_data cfg b None = Inr (slices n b)"
    using pos by (simp add: chunk_body_data_def n_def)
  moreover have "c \<noteq> [] \<and> int (length (b64encode c)) \<le> ?mx - 100" if "c \<in> set (slices n b)" for c
    using slices_sizes [OF that] safe_chunk_encodes [OF _ pos] by (simp add: n_def)
  moreover have "int (length (slices n b)) = (int (length b) + int n - 1) div int n"
    using n(1) by (simp add: length_slices zdiv_int of_nat_diff)
  ultimately show ?thesis using concat_slices [OF n(1)] n(2) by auto
qed

definition small_records :: "config \<Rightarrow> config" where
  "small_records cfg = cfg\<lparr>cfg_kinesis := (cfg_kinesis cfg)\<lparr>max_record_size := 108\<rparr>\<rparr>"

theorem chunk_body_data_sound_witness:
  "\<forall>cfg. chunk_body_data (small_records cfg) ''abcdefghijklm'' None = Inr [''abcdef'', ''ghijkl'', ''m'']
    \<and> (\<exists>chunks. chunk_body_data (small_records cfg) ''abcdefghijklm'' None = Inr chunks
        \<and> concat chunks = ''abcdefghijklm'' \<and> int (length chunks) = 3)"
proof
  fix cfg
  have m: "max_record_size (cfg_kinesis (small_records cfg)) = 108" by (simp add: small_records_def)
  have "chunk_body_data (small_records cfg) ''abcdefghijklm'' None = Inr [''abcdef'', ''ghijkl'', ''m'']"
    by (simp add: chunk_body_data_def m safe_raw_chunk_size_def slices.simps)
  moreover have "\<exists>chunks. chunk_body_data (small_records cfg) ''abcdefghijklm'' None = Inr chunks
      \<and> concat chunks = ''abcdefghijklm'' \<and> int (length chunks) = 3"
    using chunk_body_data_sound [of "small_records cfg" "''abcdefghijklm''"]
    unfolding m safe_raw_chunk_size_def by auto
  ultimately show "chunk_body_data (small_records cfg) ''abcdefghijklm'' None = Inr [''abcdef'', ''ghijkl'', ''m'']
    \<and> (\<exists>chunks. chunk_body_data (small_records cfg) ''abcdefghijklm'' None = Inr chunks
        \<and> concat chunks = ''abcdefghijklm'' \<and> int (length chunks) = 3)" ..
qed

section \<open>What reaches a stream\<close>

text \<open>The data of the records put on a stream, in order.\<close>

fun put_data :: "string \<Rightarrow> event \<Rightarrow> string option" where
  "put_data s (EvPutRecord (Some t) d k) = (if t = s then Some d else None)"
| "put_data _ _ = None"

definition puts :: "string \<Rightarrow> event list \<Rightarrow> string list" where
  "puts s evs = List.map_filter (put_data s) evs"

fun is_put :: "event \<Rightarrow> bool" where
  "is_put (EvPutRecord _ _ _) = True"
| "is_put _ = False"

lemma puts_append [simp]: "puts s (a @ b) = puts s a @ puts s b"
  by (simp add: puts_def map_filter_def)

lemma puts_Nil [simp]: "puts s [] = []"
  by (simp add: puts_def map_filter_def)

lemma put_data_is_put: "\<not> is_put ev \<Longrightarrow> put_data s ev = None"
  by (cases ev) auto

lemma puts_none: "list_all (\<lambda>ev. \<not> is_put ev) evs \<Longrightarrow> puts s evs = []"
  by (auto simp: puts_def map_filter_def list_all_iff put_data_is_put filter_empty_conv)

lemma puts_one [simp]: "puts s [EvPutRecord (Some s) d k] = [d]"
  by (simp add: puts_def map_filter_def)

lemma calls_get_kinesis [calls_rules]: "calls (\<lambda>ev. \<not> is_put ev) (get_kinesis_client svc)"
  unfolding get_kinesis_client_def
  by (auto intro!: calls_rules split: if_split)

lemma put_and_check_puts:
  assumes "put_and_check svc s d k w = (Inr r, w')"
  shows "r \<and> (\<exists>evs. trace w' = trace w @ evs \<and> puts s evs = [d])"
proof -
  obtain w1 resp w2 where w1: "get_kinesis_client svc w = (Inr (), w1)"
    and w2: "callE (EvPutRecord (Some s) d k) (put_record svc (Some s) d k) w1 = (Inr resp, w2)"
    and w': "r" "w' = w2"
    using assms unfolding put_and_check_def by (auto dest!: bindE_InrD)
  obtain e1 where "trace w1 = trace w @ e1" "list_all (\<lambda>ev. \<not> is_put ev) e1"
    using callsD [OF calls_get_kinesis w1] .
  moreover have "trace w2 = trace w1 @ [EvPutRecord (Some s) d k]"
    using w2 by (auto simp: callE_def split: prod.splits)
  ultimately show ?thesis using w' by (auto simp: puts_none)
qed

lemma publish_stream_puts:
  assumes "publish_to_kinesis_data_stream svc cfg s d rid w = (Inr r, w')" "s \<noteq> []"
  shows "r \<and> (\<exists>evs. trace w' = trace w @ evs \<and> puts s evs = [json_dumps (JDict d)])"
proof -
  let ?m = "catchE (put_and_check svc s (json_dumps (JDict d)) rid) publish_failed"
  obtain u w1 where w1: "(case nonblank (endpoint_url (cfg_aws cfg)) of
        Some _ \<Rightarrow> callE (EvSleep 1) (sleep svc 1) | None \<Rightarrow> retE ()) w = (Inr u, w1)"
    and m: "?m w1 = (Inr r, w')"
    using assms unfolding publish_to_kinesis_data_stream_def by (auto dest!: bindE_InrD)
  have pause: "calls (\<lambda>ev. \<not> is_put ev) (case nonblank (endpoint_url (cfg_aws cfg)) of
        Some _ \<Rightarrow> callE (EvSleep 1) (sleep svc 1) | None \<Rightarrow> retE ())"
    by (auto intro!: calls_rules split: option.split)
  obtain e1 where e1: "trace w1 = trace w @ e1" "list_all (\<lambda>ev. \<not> is_put ev) e1"
    by (rule callsD [OF pause w1])
  have "put_and_check svc s (json_dumps (JDict d)) rid w1 = (Inr r, w')"
    using m by (auto simp: catchE_def publish_failed_def split: prod.splits sum.splits if_splits)
  from put_and_check_puts [OF this] e1 show ?thesis by (auto simp: puts_none)
qed

lemma publish_record_puts:
  assumes "publish_record svc cfg stream rid record w = (Inr r, w')" "nonblank stream = Some s"
  shows "r \<and> (\<exists>pub d evs. record pub = Inr d \<and> trace w' = trace w @ evs
    \<and> puts s evs = [json_dumps (JDict d)])"
proof -
  have s: "s \<noteq> []" using assms(2) by (auto simp: nonblank_def split: option.splits list.splits)
  obtain pub d w1 where w1: "generate_iso_timestamp svc w = (Inr pub, w1)" "record pub = Inr d"
    and p: "publish_to_kinesis_data_stream svc cfg s d rid w1 = (Inr r, w')"
    using assms unfolding publish_record_def by (auto dest!: bindE_InrD)
  have "w1 = w" using w1(1) by (simp add: generate_iso_timestamp_def mapE_def now_us_def bindE_get)
  with publish_stream_puts [OF p s] w1(2) show ?thesis by blast
qed

section \<open>A reader of a body stream\<close>

text \<open>What a record of a body stream says: its place, the number of chunks and the bytes.\<close>

definition body_chunk :: "string \<Rightarrow> (int \<times> int \<times> bytes) option" where
  "body_chunk data =
     (case json_loads data of
        Inr (JDict d) \<Rightarrow>
          (case (map_of d ''chunk_id'', map_of d ''num_chunks'', map_of d ''body'') of
             (Some (JInt i), Some (JInt n), Some (JStr t)) \<Rightarrow>
               (case b64decode t of Inr b \<Rightarrow> Some (i, n, b) | Inl _ \<Rightarrow> None)
           | _ \<Rightarrow> None)
      | _ \<Rightarrow> None)"

text \<open>The body, when the records are its chunks in order and none is missing.\<close>

definition reassemble :: "string list \<Rightarrow> bytes option" where
  "reassemble records =
     (let cs = List.map_filter body_chunk records
      in if length cs = length records
           \<and> List.map (\<lambda>c. nat (fst c)) cs = [0..<length cs]
           \<and> list_all (\<lambda>c. fst (snd c) = int (length cs)) cs
         then Some (concat (List.map (\<lambda>c. snd (snd c)) cs)) else None)"

lemma is_ascii_zero_pad: "is_ascii (zero_pad k n)"
  using zero_pad_not_mark [of k n] by (auto simp: is_ascii_def list_all_iff)

lemma is_ascii_take: "is_ascii s \<Longrightarrow> is_ascii (take n s)"
  by (auto simp: is_ascii_def dest: in_set_takeD)

lemma is_ascii_iso_millis: "is_ascii (iso_millis t)"
  by (simp add: iso_millis_def Let_def is_ascii_take is_ascii_zero_pad ymd_str_def hms_str_def
      clock_parts_def split: prod.split)

lemma generate_iso_timestamp_ascii:
  "generate_iso_timestamp svc w = (Inr ts, w') \<Longrightarrow> is_ascii ts \<and> w' = w"
  by (auto simp: generate_iso_timestamp_def mapE_def now_us_def bindE_get is_ascii_iso_millis)

lemma body_chunk_record:
  assumes "str_ok False rid" "is_ascii ts" "is_ascii pub"
    "to_dict = request_body_to_dict \<or> to_dict = response_body_to_dict"
  shows "body_chunk (json_dumps (JDict (to_dict (chunk_record rid c ts i n pub))))
    = Some (int i, int n, c)"
proof -
  have ok: "body_ok (chunk_record rid c ts i n pub)"
    using assms(1-3) by (simp add: body_ok_def chunk_record_def str_ok_ascii)
  have "json_loads (json_dumps (JDict (to_dict (chunk_record rid c ts i n pub))))
      = Inr (JDict (to_dict (chunk_record rid c ts i n pub)))"
    using assms(4) request_body.read_back [OF ok] response_body.read_back [OF ok] by auto
  then show ?thesis
    using assms(4) by (auto simp: body_chunk_def chunk_record_def request_body_to_dict_def
        response_body_to_dict_def body_to_dict_def b64.dec_enc)
qed

lemma publish_body_chunk:
  assumes "publish_record svc cfg stream rid
      (\<lambda>pub. Inr (to_dict (chunk_record rid c ts i n pub))) w = (Inr r, w')"
    "nonblank stream = Some s" "str_ok False rid" "is_ascii ts"
    "to_dict = request_body_to_dict \<or> to_dict = response_body_to_dict"
  shows "\<exists>evs d. trace w' = trace w @ evs \<and> puts s evs = [d] \<and> body_chunk d = Some (int i, int n, c)"
proof -
  obtain pub w1 where pub: "generate_iso_timestamp svc w = (Inr pub, w1)"
    using assms(1,2) unfolding publish_record_def by (auto dest!: bindE_InrD)
  have "publish_to_kinesis_data_stream svc cfg s (to_dict (chunk_record rid c ts i n pub)) rid w1 = (Inr r, w')"
    using assms(1,2) pub by (auto simp: publish_record_def bindE_def)
  moreover have "s \<noteq> []" using assms(2) by (auto simp: nonblank_def split: option.splits list.splits)
  ultimately have "\<exists>evs. trace w' = trace w1 @ evs
      \<and> puts s evs = [json_dumps (JDict (to_dict (chunk_record rid c ts i n pub)))]"
    using publish_stream_puts by blast
  then show ?thesis
    using generate_iso_timestamp_ascii [OF pub] body_chunk_record [OF assms(3,4) _ assms(5)] by blast
qed

end
