(* ===== verification/App.thy ===== *)
theory App
  imports Auth Publish
begin

text \<open>
  The endpoints of \<open>app.py\<close>.  A handler returns a reply, or raises what the framework answers with a
  bare 500.  \<open>segment\<close> is the trace id of the current X-Ray segment, when there is one: recording an
  exception on no segment is an \<open>AttributeError\<close>.  The body of a request is what the framework read,
  or what reading and parsing it raised; the target host is a string or null, as the proxies send it.
\<close>

section \<open>Replies\<close>

datatype content =
    AuthorizationContent json string json json
  | ErrorContent string string
  | FlushContent string bool
  | NoContent

type_synonym reply = "int \<times> content"

definition ErrorResponse :: "int \<Rightarrow> string \<Rightarrow> string \<Rightarrow> reply" where
  "ErrorResponse status message debug_id = (status, ErrorContent message debug_id)"

definition trace_id_of :: "string option \<Rightarrow> string" where
  "trace_id_of segment = (case segment of Some t \<Rightarrow> t | None \<Rightarrow> ''No-Trace-Id'')"

definition add_exception :: "string option \<Rightarrow> ('s, unit) eff" where
  "add_exception segment =
     (if segment = None
      then raiseE (PyError AttributeErrorC ''AttributeError'' ''NoneType object has no attribute add_exception'')
      else retE ())"

text \<open>The model is validated when it is built: the key is a string and a header name is not empty.\<close>

definition AuthorizationResponse :: "json \<Rightarrow> string \<Rightarrow> json \<Rightarrow> json \<Rightarrow> content res" where
  "AuthorizationResponse key request_id header pre =
     (if (\<exists>k. key = JStr k) \<and> (header = JNull \<or> (\<exists>h. header = JStr h \<and> h \<noteq> []))
         \<and> (pre = JNull \<or> (\<exists>p. pre = JStr p))
      then Inr (AuthorizationContent key request_id header pre)
      else Inl (PyError PydanticValidationErrorC ''ValidationError'' ''AuthorizationResponse''))"

section \<open>Authorisation\<close>

record authorise_request =
  request_payload :: string
  request_host :: "string option"

text \<open>
  The request of a parsed body: \<open>body.get\<close> raises on what is no object, and the log line takes a slice of
  the payload.  \<open>None\<close> is outside the model: a list as payload, whose slice succeeds, and a target host that is neither null nor a string.
\<close>

definition authorise_request_of :: "json res \<Rightarrow> authorise_request res option" where
  "authorise_request_of body =
     (case bind_r body (\<lambda>b. bind_r (py_get b ''payload'' (JStr [])) (\<lambda>raw_payload.
              bind_r (py_get b ''target_host'' JNull) (\<lambda>host. Inr (raw_payload, host)))) of
        Inl e \<Rightarrow> Some (Inl e)
      | Inr (JStr p, JNull) \<Rightarrow> Some (Inr \<lparr>request_payload = p, request_host = None\<rparr>)
      | Inr (JStr p, JStr h) \<Rightarrow> Some (Inr \<lparr>request_payload = p, request_host = Some h\<rparr>)
      | Inr (JStr _, _) \<Rightarrow> None
      | Inr (JList _, _) \<Rightarrow> None
      | Inr (JDict _, _) \<Rightarrow> Some (Inl (PyError KeyErrorC ''KeyError'' ''slice''))
      | Inr (_, _) \<Rightarrow> Some (Inl (PyError TypeErrorC ''TypeError'' ''object is not subscriptable'')))"

text \<open>What a proxy sends is read back: an object with the payload and, when there is one, the target host.\<close>

lemma authorise_request_of_sent:
  "authorise_request_of (Inr (JDict [(''payload'', JStr p), (''target_host'', case h of None \<Rightarrow> JNull | Some t \<Rightarrow> JStr t)]))
     = Some (Inr \<lparr>request_payload = p, request_host = h\<rparr>)"
  "authorise_request_of (Inr (JDict [(''payload'', JStr p)])) = Some (Inr \<lparr>request_payload = p, request_host = None\<rparr>)"
  by (simp_all add: authorise_request_of_def split: option.split)

text \<open>The metadata record: its failure is noted and does not fail the request.\<close>

definition publish_principal ::
  "'x services \<Rightarrow> config \<Rightarrow> string option \<Rightarrow> json \<Rightarrow> auth_result \<Rightarrow> ('x world, unit) eff" where
  "publish_principal svc cfg segment arn r =
     bindE (generate_iso_timestamp svc) (\<lambda>timestamp.
       catchE
         (bindE (timeoutE ''publish''
              (publish_metadata svc cfg (trace_id_of segment) timestamp
                 (PrincipalInfo_to_dict (res_principal r)) arn))
            (\<lambda>_. retE ()))
         (\<lambda>e. if is_Exception e then add_exception segment else raiseE e))"

definition authorise_body ::
  "'x services \<Rightarrow> config \<Rightarrow> string option \<Rightarrow> authorise_request res \<Rightarrow> ('x world, reply) eff" where
  "authorise_body svc cfg segment request =
     bindE (liftE request) (\<lambda>q.
     bindE (liftE (from_contents (request_payload q) None)) (\<lambda>p.
     bindE (authenticate svc cfg p (request_host q)) (\<lambda>r.
     bindE (publish_principal svc cfg segment (secret_arn p) r) (\<lambda>_.
     bindE (liftE (AuthorizationResponse (api_key r) (trace_id_of segment) (output_header r) (output_prefix r)))
       (\<lambda>c. retE (200, c))))))"

fun http_status_code :: "exn \<Rightarrow> int" where
  "http_status_code (FetchSecretError code _) = code"
| "http_status_code _ = 0"

definition authorise_failure :: "string option \<Rightarrow> exn \<Rightarrow> ('x world, reply) eff" where
  "authorise_failure segment e =
     (let reply = (\<lambda>status. ErrorResponse status (exn_message e) (trace_id_of segment))
      in if isinstance e [PayloadErrorC] then retE (reply 401)
         else if isinstance e [CredentialsErrorC] then retE (reply 401)
         else if isinstance e [AuthenticationErrorC] then retE (reply 403)
         else if isinstance e [FetchSecretErrorC] then retE (reply (http_status_code e))
         else if isinstance e [UpstreamServiceErrorC] then retE (reply 503)
         else if isinstance e [TimeoutErrorC] then
           bindE (add_exception segment) (\<lambda>_.
             retE (ErrorResponse 503 ''Authorization timed out. Proxy overloaded.'' (trace_id_of segment)))
         else if is_Exception e then
           bindE (add_exception segment) (\<lambda>_.
             retE (ErrorResponse 500 ''Internal server error'' (trace_id_of segment)))
         else raiseE e)"

definition authorise ::
  "'x services \<Rightarrow> config \<Rightarrow> string option \<Rightarrow> authorise_request res \<Rightarrow> ('x world, reply) eff" where
  "authorise svc cfg segment request =
     catchE (timeoutE ''authorise'' (authorise_body svc cfg segment request)) (authorise_failure segment)"

section \<open>Logging endpoints\<close>

text \<open>What the six handlers share: any exception of the publication is noted and answered with 500.\<close>

definition log_reply :: "string option \<Rightarrow> string \<Rightarrow> ('x world, unit) eff \<Rightarrow> ('x world, reply) eff" where
  "log_reply segment what publication =
     catchE (bindE publication (\<lambda>_. retE (200, NoContent)))
       (\<lambda>e. if is_Exception e
            then bindE (add_exception segment) (\<lambda>_.
                   retE (ErrorResponse 500 (what @ '' storage error'') (trace_id_of segment)))
            else raiseE e)"

definition log_payload ::
  "string option \<Rightarrow> string \<Rightarrow> string res \<Rightarrow> (string \<Rightarrow> ('x world, bool) eff) \<Rightarrow> ('x world, reply) eff" where
  "log_payload segment what timestamp publish =
     log_reply segment what (bindE (liftE timestamp) (\<lambda>ts. bindE (publish ts) (\<lambda>_. retE ())))"

definition log_request_headers where
  "log_request_headers svc cfg segment request_id p =
     log_payload segment ''Request headers'' (headers_iso_timestamp p)
       (publish_request_headers svc cfg request_id (hp_headers p))"

definition log_response_headers where
  "log_response_headers svc cfg segment request_id p =
     log_payload segment ''Response headers'' (headers_iso_timestamp p)
       (publish_response_headers svc cfg request_id (hp_headers p))"

definition log_request_trailers where
  "log_request_trailers svc cfg segment request_id p =
     log_payload segment ''Request trailers'' (trailers_iso_timestamp p)
       (publish_request_trailers svc cfg request_id (tp_trailers p))"

definition log_response_trailers where
  "log_response_trailers svc cfg segment request_id p =
     log_payload segment ''Response trailers'' (trailers_iso_timestamp p)
       (publish_response_trailers svc cfg request_id (tp_trailers p))"

text \<open>\<open>publish\<close> takes a chunk, its index and the number of chunks.\<close>

fun publish_chunks ::
  "(bytes \<Rightarrow> nat \<Rightarrow> nat \<Rightarrow> ('x world, bool) eff) \<Rightarrow> nat \<Rightarrow> nat \<Rightarrow> bytes list \<Rightarrow> ('x world, unit) eff" where
  "publish_chunks publish num_chunks chunk_id [] = retE ()"
| "publish_chunks publish num_chunks chunk_id (c # cs) =
     bindE (publish c chunk_id num_chunks) (\<lambda>_. publish_chunks publish num_chunks (Suc chunk_id) cs)"

definition log_body ::
  "'x services \<Rightarrow> config \<Rightarrow> string option \<Rightarrow> string
     \<Rightarrow> (bytes \<Rightarrow> string \<Rightarrow> nat \<Rightarrow> nat \<Rightarrow> ('x world, bool) eff) \<Rightarrow> bytes res \<Rightarrow> ('x world, reply) eff" where
  "log_body svc cfg segment what publish body =
     bindE (liftE body) (\<lambda>body_bytes.
     bindE (generate_iso_timestamp svc) (\<lambda>timestamp.
       log_reply segment what
         (bindE (liftE (chunk_body_data cfg body_bytes None)) (\<lambda>chunks.
            if chunks \<noteq> []
            then publish_chunks (\<lambda>c. publish c timestamp) (length chunks) 0 chunks
            else bindE (publish [] timestamp 0 1) (\<lambda>_. retE ())))))"

definition log_request_body ::
  "'x services \<Rightarrow> config \<Rightarrow> string option \<Rightarrow> string \<Rightarrow> bytes res \<Rightarrow> ('x world, reply) eff" where
  "log_request_body svc cfg segment request_id body =
     log_body svc cfg segment ''Request body'' (publish_request_body svc cfg request_id) body"

definition log_response_body ::
  "'x services \<Rightarrow> config \<Rightarrow> string option \<Rightarrow> string \<Rightarrow> bytes res \<Rightarrow> ('x world, reply) eff" where
  "log_response_body svc cfg segment request_id body =
     log_body svc cfg segment ''Response body'' (publish_response_body svc cfg request_id) body"

section \<open>Maintenance\<close>

definition flush_cache :: "'x services \<Rightarrow> config \<Rightarrow> string option \<Rightarrow> ('x world, reply) eff" where
  "flush_cache svc cfg segment =
     catchE
       (bindE (flush_all svc cfg) (\<lambda>success.
          retE (if success then (200, FlushContent ''Auth cache flushed successfully'' True)
                else ErrorResponse 503 ''Redis unavailable for cache flush'' (trace_id_of segment))))
       (\<lambda>e. if is_Exception e
            then retE (ErrorResponse 500 ''Failed to flush cache'' (trace_id_of segment))
            else raiseE e)"

definition ping_reply :: "'x services \<Rightarrow> config \<Rightarrow> ('x world, json) eff" where
  "ping_reply svc cfg =
     bindE (state_health_check svc cfg) (\<lambda>ok.
     bindE (generate_iso_timestamp svc) (\<lambda>ts.
       retE (JDict [(''status'', JStr ''healthy''), (''redis'', JStr (if ok then ''OK'' else ''FAIL'')),
                    (''timestamp'', JStr ts)])))"

section \<open>A key is given to whom authentication gave it\<close>

lemma AuthorizationResponse_Inr:
  "AuthorizationResponse k rid h p = Inr c \<Longrightarrow> c = AuthorizationContent k rid h p \<and> (\<exists>s. k = JStr s)"
  by (auto simp: AuthorizationResponse_def split: if_splits)

lemma authorise_failure_content:
  "authorise_failure segment e w = (Inr (st, c), w') \<Longrightarrow> \<exists>m. c = ErrorContent m (trace_id_of segment)"
  by (auto simp: authorise_failure_def Let_def ErrorResponse_def add_exception_def split: if_splits)

lemma authorise_Inr:
  assumes "authorise svc cfg segment request w = (Inr (st, AuthorizationContent k rid h p), w')"
  shows "authorise_body svc cfg segment request w = (Inr (st, AuthorizationContent k rid h p), w')"
proof (cases "timeoutE ''authorise'' (authorise_body svc cfg segment request) w")
  case (Pair r w1)
  show ?thesis
  proof (cases r)
    case (Inl e)
    then have "authorise_failure segment e w1 = (Inr (st, AuthorizationContent k rid h p), w')"
      using assms Pair by (simp add: authorise_def catchE_Inl)
    from authorise_failure_content [OF this] show ?thesis by simp
  next
    case (Inr x)
    then have "timeoutE ''authorise'' (authorise_body svc cfg segment request) w
        = (Inr (st, AuthorizationContent k rid h p), w')"
      using assms Pair by (simp add: authorise_def catchE_Inr)
    then show ?thesis
      by (auto simp: timeoutE_def catchE_def split: prod.splits sum.splits if_splits)
  qed
qed

text \<open>
  C1: a reply that carries an API key has status 200, and the key, the header and the prefix are those
  of a result that \<open>authenticate\<close> returned for the payload of this request, decoded, and for its
  target host.  No other branch of the endpoint answers with a key.
\<close>

theorem authorise_grant:
  assumes "authorise svc cfg segment request w = (Inr (st, AuthorizationContent k rid h pre), w')"
  shows "\<exists>q p r w1. request = Inr q \<and> from_contents (request_payload q) None = Inr p
    \<and> authenticate svc cfg p (request_host q) w = (Inr r, w1)
    \<and> st = 200 \<and> rid = trace_id_of segment
    \<and> k = api_key r \<and> h = output_header r \<and> pre = output_prefix r \<and> (\<exists>s. k = JStr s)"
  using authorise_Inr [OF assms] unfolding authorise_body_def
  by (auto dest!: bindE_InrD AuthorizationResponse_Inr)

text \<open>
  C38: publishing the metadata record cannot fail an authorised request: whatever exception Kinesis
  raises, and when its three seconds run out, a traced request is still answered with 200 and the key.
\<close>

theorem authorise_despite_kinesis:
  assumes "from_contents (request_payload q) None = Inr p"
    and "authenticate svc cfg p (request_host q) w = (Inr r, w1)"
    and "AuthorizationResponse (api_key r) t (output_header r) (output_prefix r) = Inr c"
    and "publish_metadata svc cfg t (iso_millis (utc_datetime (clock svc (ext w1))))
           (PrincipalInfo_to_dict (res_principal r)) (secret_arn p) w1 = (res, w2)"
    and "\<And>e. res = Inl e \<Longrightarrow> is_Exception e \<or> e = Cancelled ''publish''"
  shows "authorise svc cfg (Some t) (Inr q) w = (Inr (200, c), w2)"
proof -
  have "publish_principal svc cfg (Some t) (secret_arn p) r w1 = (Inr (), w2)"
  proof (cases res)
    case (Inl e)
    then show ?thesis using assms(4) assms(5) [OF Inl]
      by (auto simp: publish_principal_def trace_id_of_def generate_iso_timestamp_def mapE_def now_us_def
          bindE_get bindE_def catchE_def timeoutE_def add_exception_def is_Exception_iff)
  next
    case (Inr x)
    then show ?thesis using assms(4)
      by (simp add: publish_principal_def trace_id_of_def generate_iso_timestamp_def mapE_def now_us_def
          bindE_get bindE_def catchE_def timeoutE_def)
  qed
  then have "authorise_body svc cfg (Some t) (Inr q) w = (Inr (200, c), w2)"
    using assms(1-3) by (simp add: authorise_body_def bindE_def trace_id_of_def)
  then show ?thesis by (simp add: authorise_def timeoutE_def catchE_Inr)
qed

text \<open>
  C25: when authentication of a traced request fails, the endpoint answers with the status of the
  error's class, and 500 is left for the service errors that are neither a refused secret nor an
  unavailable dependency.
\<close>

theorem authorise_refused:
  assumes "from_contents (request_payload q) None = Inr p"
    and "authenticate svc cfg p (request_host q) w = (Inl e, w')" "is_Exception e"
  shows "\<exists>st m. authorise svc cfg (Some t) (Inr q) w = (Inr (st, ErrorContent m t), w')
    \<and> st = (if isinstance e [PayloadErrorC, CredentialsErrorC] then 401
            else if isinstance e [AuthenticationErrorC] then 403
            else if isinstance e [FetchSecretErrorC] then http_status_code e
            else if isinstance e [UpstreamServiceErrorC, TimeoutErrorC] then 503 else 500)
    \<and> (st = 500 \<longrightarrow> isinstance e [ServiceErrorC])"
proof -
  have not_cancelled: "e \<noteq> Cancelled ''authorise''" using assms(3) by (auto simp: is_Exception_iff)
  have "authorise_body svc cfg (Some t) (Inr q) w = (Inl e, w')"
    using assms(1,2) by (simp add: authorise_body_def bindE_def)
  then have "authorise svc cfg (Some t) (Inr q) w = authorise_failure (Some t) e w'"
    using not_cancelled by (simp add: authorise_def timeoutE_def catchE_def)
  moreover have "isinstance e [AuthenticationErrorC, ServiceErrorC, TimeoutErrorC]"
    using raisesD [OF authenticate_raises assms(2)] assms(3) by simp
  ultimately show ?thesis using assms(3)
    by (cases "class_of e")
      (simp_all add: authorise_failure_def Let_def ErrorResponse_def add_exception_def trace_id_of_def is_Exception_iff)
qed

section \<open>A logged body comes back whole\<close>

lemma chunks_reach_stream:
  assumes "\<And>c i w r w'. pub c i n w = (Inr r, w') \<Longrightarrow>
      \<exists>evs d. trace w' = trace w @ evs \<and> puts s evs = [d] \<and> body_chunk d = Some (int i, int n, c)"
    and "publish_chunks pub n i cs w = (Inr (), w')"
  shows "\<exists>evs. trace w' = trace w @ evs
    \<and> List.map body_chunk (puts s evs) = List.map (\<lambda>(j, c). Some (int j, int n, c)) (List.enumerate i cs)"
  using assms(2)
proof (induction cs arbitrary: i w)
  case Nil
  then show ?case by (intro exI [of _ "[]"]) simp
next
  case (Cons c cs)
  obtain r w1 where c: "pub c i n w = (Inr r, w1)" and cs: "publish_chunks pub n (Suc i) cs w1 = (Inr (), w')"
    using Cons.prems by (auto dest!: bindE_InrD)
  obtain e1 d where e1: "trace w1 = trace w @ e1" "puts s e1 = [d]" "body_chunk d = Some (int i, int n, c)"
    using assms(1) [OF c] by blast
  obtain e2 where "trace w' = trace w1 @ e2"
    "List.map body_chunk (puts s e2) = List.map (\<lambda>(j, c). Some (int j, int n, c)) (List.enumerate (Suc i) cs)"
    using Cons.IH [OF cs] by blast
  with e1 show ?case by (intro exI [of _ "e1 @ e2"]) simp
qed

lemma map_filter_Some: "List.map f xs = List.map (\<lambda>y. Some (g y)) ys \<Longrightarrow> List.map_filter f xs = List.map g ys"
  by (induction xs arbitrary: ys) (auto simp: List.map_filter_simps)

lemma reassemble_chunks:
  assumes "List.map body_chunk ds
    = List.map (\<lambda>(j, c). Some (int j, int (length cs), c)) (List.enumerate 0 cs)"
  shows "reassemble ds = Some (concat cs)"
proof -
  let ?g = "\<lambda>(j, c). (int j, int (length cs), c)"
  have "List.map body_chunk ds = List.map (\<lambda>p. Some (?g p)) (List.enumerate 0 cs)"
    using assms by (simp add: case_prod_unfold)
  then have f: "List.map_filter body_chunk ds = List.map ?g (List.enumerate 0 cs)"
    by (rule map_filter_Some)
  have "length ds = length cs" using arg_cong [OF assms, of length] by simp
  moreover have "List.map (\<lambda>c. nat (fst c)) (List.map ?g (List.enumerate 0 cs)) = [0..<length cs]"
    by (simp add: comp_def case_prod_unfold enumerate_eq_zip)
  moreover have "List.map (\<lambda>c. snd (snd c)) (List.map ?g (List.enumerate 0 cs)) = cs"
    by (simp add: comp_def case_prod_unfold enumerate_eq_zip)
  ultimately show ?thesis unfolding reassemble_def Let_def f by (auto simp: list_all_iff)
qed

lemma log_reply_200:
  "log_reply segment what m w = (Inr (200, c), w') \<Longrightarrow> m w = (Inr (), w')"
  by (auto simp: log_reply_def catchE_def bindE_def add_exception_def ErrorResponse_def
      split: prod.splits sum.splits if_splits)

lemma log_body_reassembled:
  assumes "log_body svc cfg segment what pub (Inr b) w = (Inr (200, c), w')"
    and "104 \<le> max_record_size (cfg_kinesis cfg)"
    and step: "\<And>ts c i n w r w'. is_ascii ts \<Longrightarrow> pub c ts i n w = (Inr r, w') \<Longrightarrow>
      \<exists>evs d. trace w' = trace w @ evs \<and> puts s evs = [d] \<and> body_chunk d = Some (int i, int n, c)"
  shows "\<exists>evs. trace w' = trace w @ evs \<and> reassemble (puts s evs) = Some b"
proof -
  obtain ts w1 where ts: "generate_iso_timestamp svc w = (Inr ts, w1)"
    and reply: "log_reply segment what
         (bindE (liftE (chunk_body_data cfg b None)) (\<lambda>chunks.
            if chunks \<noteq> [] then publish_chunks (\<lambda>c. pub c ts) (length chunks) 0 chunks
            else bindE (pub [] ts 0 1) (\<lambda>_. retE ()))) w1 = (Inr (200, c), w')"
    using assms(1) unfolding log_body_def by (auto dest!: bindE_InrD)
  have ascii: "is_ascii ts" and w1: "w1 = w" using generate_iso_timestamp_ascii [OF ts] by simp_all
  define chunks where "chunks = slices (nat (safe_raw_chunk_size (max_record_size (cfg_kinesis cfg)))) b"
  have pos: "0 < safe_raw_chunk_size (max_record_size (cfg_kinesis cfg))"
    using assms(2) unfolding safe_raw_chunk_size_def by presburger
  then have chunked: "chunk_body_data cfg b None = Inr chunks" "concat chunks = b"
    by (simp_all add: chunk_body_data_def chunks_def concat_slices)
  have run: "(if chunks \<noteq> [] then publish_chunks (\<lambda>c. pub c ts) (length chunks) 0 chunks
      else bindE (pub [] ts 0 1) (\<lambda>_. retE ())) w = (Inr (), w')"
    using log_reply_200 [OF reply] chunked w1 by (simp add: bindE_def)
  show ?thesis
  proof (cases "chunks = []")
    case True
    then obtain r where "pub [] ts 0 1 w = (Inr r, w')" using run by (auto dest!: bindE_InrD)
    from step [OF ascii this] obtain evs d where
      "trace w' = trace w @ evs" "puts s evs = [d]" "body_chunk d = Some (0, 1, [])" by auto
    moreover from this have "reassemble (puts s evs) = Some (concat [[]])"
      by (intro reassemble_chunks) simp
    ultimately show ?thesis using True chunked(2) by auto
  next
    case False
    then have "publish_chunks (\<lambda>c. pub c ts) (length chunks) 0 chunks w = (Inr (), w')" using run by simp
    from chunks_reach_stream [OF _ this, of s] step [OF ascii] obtain evs where
      "trace w' = trace w @ evs" "List.map body_chunk (puts s evs)
        = List.map (\<lambda>(j, c). Some (int j, int (length chunks), c)) (List.enumerate 0 chunks)" by blast
    then show ?thesis using reassemble_chunks chunked(2) by blast
  qed
qed

lemma request_body_step:
  assumes "publish_request_body svc cfg rid c ts i n w = (Inr r, w')"
    "nonblank (request_body_stream_name (cfg_kinesis cfg)) = Some s" "str_ok False rid" "is_ascii ts"
  shows "\<exists>evs d. trace w' = trace w @ evs \<and> puts s evs = [d] \<and> body_chunk d = Some (int i, int n, c)"
  using assms(1) unfolding publish_request_body_def
  by (rule publish_body_chunk) (simp_all add: assms)

lemma response_body_step:
  assumes "publish_response_body svc cfg rid c ts i n w = (Inr r, w')"
    "nonblank (response_body_stream_name (cfg_kinesis cfg)) = Some s" "str_ok False rid" "is_ascii ts"
  shows "\<exists>evs d. trace w' = trace w @ evs \<and> puts s evs = [d] \<and> body_chunk d = Some (int i, int n, c)"
  using assms(1) unfolding publish_response_body_def
  by (rule publish_body_chunk) (simp_all add: assms)

text \<open>
  C10: when the body endpoints answer 200, the records they put on their stream, whatever the clock
  and Kinesis did meanwhile, are the chunks of the body in order: a reader who parses them, checks the
  chunk numbers and decodes the base64 texts gets exactly the body that was sent.
\<close>

theorem logged_body_reassembles:
  assumes "104 \<le> max_record_size (cfg_kinesis cfg)" "str_ok False rid" "nonblank stream = Some s"
    and "stream = request_body_stream_name (cfg_kinesis cfg)
           \<and> log_request_body svc cfg segment rid (Inr b) w = (Inr (200, c), w')
       \<or> stream = response_body_stream_name (cfg_kinesis cfg)
           \<and> log_response_body svc cfg segment rid (Inr b) w = (Inr (200, c), w')"
  shows "\<exists>evs. trace w' = trace w @ evs \<and> reassemble (puts s evs) = Some b"
  using assms(4)
proof (elim disjE conjE)
  assume "stream = request_body_stream_name (cfg_kinesis cfg)"
    "log_request_body svc cfg segment rid (Inr b) w = (Inr (200, c), w')"
  then show ?thesis
    using assms(2,3) unfolding log_request_body_def
    by (intro log_body_reassembled [OF _ assms(1) request_body_step]) simp_all
next
  assume "stream = response_body_stream_name (cfg_kinesis cfg)"
    "log_response_body svc cfg segment rid (Inr b) w = (Inr (200, c), w')"
  then show ?thesis
    using assms(2,3) unfolding log_response_body_def
    by (intro log_body_reassembled [OF _ assms(1) response_body_step]) simp_all
qed

section \<open>Examples\<close>

definition kinesis_svc :: "sim services" where
  "kinesis_svc = sim_svc\<lparr>put_record :=
     (\<lambda>_ _ _. retE (JDict [(''SequenceNumber'', JStr ''4960000000'')]))\<rparr>"

definition logging_cfg :: "config \<Rightarrow> config" where
  "logging_cfg cfg = cfg\<lparr>cfg_kinesis := (cfg_kinesis cfg)\<lparr>max_record_size := 108,
     request_body_stream_name := Some ''bodies''\<rparr>\<rparr>"

lemma generate_iso_timestamp_run:
  "generate_iso_timestamp svc w = (Inr (iso_millis (utc_datetime (clock svc (ext w)))), w)"
  by (simp add: generate_iso_timestamp_def mapE_def now_us_def bindE_get)

lemma kinesis_put: "\<exists>w'. put_and_check kinesis_svc s d k w = (Inr True, w')"
  by (simp add: put_and_check_def get_kinesis_client_def with_lock_def finallyE_def bindE_def callE_def
      kinesis_svc_def sequence_number_def sim_svc_def)

lemma kinesis_stream: "s \<noteq> [] \<Longrightarrow> \<exists>w'. publish_to_kinesis_data_stream kinesis_svc cfg s d k w = (Inr True, w')"
proof -
  assume s: "s \<noteq> []"
  have "\<exists>w1. (case nonblank (endpoint_url (cfg_aws cfg)) of
      Some _ \<Rightarrow> callE (EvSleep 1) (sleep kinesis_svc 1) | None \<Rightarrow> retE ()) w = (Inr (), w1)"
    by (simp add: callE_def kinesis_svc_def sim_svc_def split: option.split)
  then obtain w1 where w1: "(case nonblank (endpoint_url (cfg_aws cfg)) of
      Some _ \<Rightarrow> callE (EvSleep 1) (sleep kinesis_svc 1) | None \<Rightarrow> retE ()) w = (Inr (), w1)" ..
  obtain w2 where "put_and_check kinesis_svc s (json_dumps (JDict d)) k w1 = (Inr True, w2)"
    using kinesis_put by blast
  with w1 s show ?thesis
    unfolding publish_to_kinesis_data_stream_def by (simp add: bindE_Inr catchE_Inr)
qed

lemma kinesis_body:
  "\<exists>w'. publish_request_body kinesis_svc (logging_cfg cfg) rid b ts i n w = (Inr True, w')"
proof -
  have "nonblank (request_body_stream_name (cfg_kinesis (logging_cfg cfg))) = Some ''bodies''"
    by (simp add: logging_cfg_def nonblank_def)
  then show ?thesis
    using kinesis_stream [of "''bodies''"]
    by (simp add: publish_request_body_def publish_record_def bindE_Inr [OF generate_iso_timestamp_run]
        bindE_def [of "liftE r" for r])
qed

lemma kinesis_chunks:
  "\<exists>w'. publish_chunks (\<lambda>c. publish_request_body kinesis_svc (logging_cfg cfg) rid c ts) n i cs w = (Inr (), w')"
proof (induction cs arbitrary: i w)
  case (Cons c cs)
  obtain w1 where "publish_request_body kinesis_svc (logging_cfg cfg) rid c ts i n w = (Inr True, w1)"
    using kinesis_body by blast
  then show ?case using Cons.IH by (simp add: bindE_Inr)
qed simp

theorem logged_body_reassembles_witness:
  "\<forall>cfg. \<exists>w'. log_request_body kinesis_svc (logging_cfg cfg) None ''r1'' (Inr ''abcdefghijklm'') (sim_world sim0)
      = (Inr (200, NoContent), w')
    \<and> reassemble (puts ''bodies'' (trace w')) = Some ''abcdefghijklm''"
proof
  fix cfg
  let ?cfg = "logging_cfg cfg"
  have m: "max_record_size (cfg_kinesis ?cfg) = 108"
    and s: "request_body_stream_name (cfg_kinesis ?cfg) = Some ''bodies''" by (simp_all add: logging_cfg_def)
  have chunks: "chunk_body_data ?cfg ''abcdefghijklm'' None = Inr [''abcdef'', ''ghijkl'', ''m'']"
    by (simp add: chunk_body_data_def m safe_raw_chunk_size_def slices.simps)
  have ts: "generate_iso_timestamp kinesis_svc (sim_world sim0)
      = (Inr (iso_millis (utc_datetime 0)), sim_world sim0)"
    by (simp add: generate_iso_timestamp_def mapE_def now_us_def bindE_get kinesis_svc_def sim_svc_def sim0_def)
  obtain w' where "publish_chunks (\<lambda>c. publish_request_body kinesis_svc ?cfg ''r1'' c (iso_millis (utc_datetime 0)))
      (Suc (Suc (Suc 0))) 0 [''abcdef'', ''ghijkl'', ''m''] (sim_world sim0) = (Inr (), w')"
    using kinesis_chunks by blast
  then have run: "log_request_body kinesis_svc ?cfg None ''r1'' (Inr ''abcdefghijklm'') (sim_world sim0)
      = (Inr (200, NoContent), w')"
    by (simp add: log_request_body_def log_body_def bindE_def ts chunks log_reply_def catchE_def
        del: publish_chunks.simps)
  have "\<exists>evs. trace w' = trace (sim_world sim0) @ evs
      \<and> reassemble (puts ''bodies'' evs) = Some ''abcdefghijklm''"
    by (rule logged_body_reassembles [of ?cfg "''r1''" "Some ''bodies''", OF _ _ _ disjI1 [OF conjI [OF _ run]]])
      (simp_all add: m s str_ok_ascii nonblank_def)
  with run show "\<exists>w'. log_request_body kinesis_svc ?cfg None ''r1'' (Inr ''abcdefghijklm'') (sim_world sim0)
      = (Inr (200, NoContent), w') \<and> reassemble (puts ''bodies'' (trace w')) = Some ''abcdefghijklm''" by auto
qed

definition demo_request :: authorise_request where
  "demo_request =
     \<lparr>request_payload = payload_wire (payload_dict (JStr ''AKIA'') (JStr ''S'') (JStr ''T'') JNull ''arn:x''),
      request_host = None\<rparr>"

lemma demo_wire:
  "\<exists>p. from_contents (request_payload demo_request) host = Inr p \<and> is_ascii (raw p) \<and> raw p \<noteq> []
     \<and> credentials_is_valid (credentials p) \<and> expiration (credentials p) = None"
proof -
  let ?d = "payload_dict (JStr ''AKIA'') (JStr ''S'') (JStr ''T'') JNull ''arn:x''"
  have "json_dumps ?d \<noteq> []" by (simp add: payload_dict_def json_dumps_def)
  then have "payload_wire ?d \<noteq> []"
    using length_b64encode [of "json_dumps ?d"] unfolding payload_wire_def by (cases "json_dumps ?d") auto
  moreover have "is_ascii (payload_wire ?d)" by (simp add: payload_wire_def)
  ultimately show ?thesis
    using from_contents_wire [of "JStr ''AKIA''" "JStr ''S''" "JStr ''T''" JNull "''arn:x''" host]
    by (simp add: demo_request_def payload_dict_def str_ok_ascii credentials_is_valid_def)
qed

lemma sim_stream: "raises is_Exception (publish_to_kinesis_data_stream sim_svc cfg s d k)"
proof -
  have g: "raises is_Exception (get_kinesis_client sim_svc)"
    by (auto simp: raises_def get_kinesis_client_def with_lock_def finallyE_def bindE_def callE_def)
  have n: "is_Exception e" if "sequence_number v = Inl e" for v e
    using that by (cases v) (auto simp: sequence_number_def slice_error_def attribute_error_def is_Exception_iff
        split: option.splits json.splits)
  have p: "raises is_Exception (put_and_check sim_svc s (json_dumps (JDict d)) k)"
    unfolding put_and_check_def
    by (intro raises_bind g raises_call raises_lift) (auto simp: raises_def dest: n)
  have f: "raises is_Exception (publish_failed e)" if "is_Exception e" for e :: exn
    using that by (simp add: publish_failed_def raises_raise is_Exception_iff)
  show ?thesis
    unfolding publish_to_kinesis_data_stream_def
    by (auto intro!: raises_bind raises_ret raises_call raises_catch [OF f p] split: option.split)
qed

lemma sim_metadata: "raises is_Exception (publish_metadata sim_svc cfg rid ts (PrincipalInfo_to_dict i) a)"
  unfolding publish_metadata_def publish_record_def generate_iso_timestamp_def mapE_def PrincipalInfo_to_dict_def
  by (auto intro!: raises_bind raises_ret raises_clock raises_lift sim_stream split: option.split)

lemma sim_principal:
  "\<exists>w'. publish_principal sim_svc cfg (Some t) a r w = (Inr (), w')"
proof -
  obtain res w2 where m: "publish_metadata sim_svc cfg t (iso_millis (utc_datetime (clock sim_svc (ext w))))
      (PrincipalInfo_to_dict (res_principal r)) a w = (res, w2)"
    by (metis surj_pair)
  have "is_Exception e" if "res = Inl e" for e
    using raisesD [OF sim_metadata m [unfolded that]] .
  then show ?thesis
    using m by (cases res) (auto simp: publish_principal_def generate_iso_timestamp_run trace_id_of_def
        catchE_def timeoutE_def bindE_def add_exception_def is_Exception_iff)
qed

theorem authorise_despite_kinesis_witness:
  "\<forall>cfg. \<exists>c w'. authorise sim_svc cfg (Some ''t'') (Inr demo_request) (sim_world stored_sim) = (Inr (200, c), w')"
proof
  fix cfg
  obtain p where p: "from_contents (request_payload demo_request) None = Inr p" "is_ascii (raw p)" "raw p \<noteq> []"
    "credentials_is_valid (credentials p)" "expiration (credentials p) = None"
    using demo_wire [of None] by blast
  obtain w1 caller where a: "authenticate sim_svc cfg p None (sim_world stored_sim)
      = (Inr (stored_result caller ''sk-abc''), w1)"
    using stored_run [OF p(2-5) ascii_host_simps(1)] by blast
  let ?r = "stored_result caller ''sk-abc''"
  obtain res w2 where m: "publish_metadata sim_svc cfg ''t'' (iso_millis (utc_datetime (clock sim_svc (ext w1))))
      (PrincipalInfo_to_dict (res_principal ?r)) (secret_arn p) w1 = (res, w2)"
    by (metis surj_pair)
  have "is_Exception e \<or> e = Cancelled ''publish''" if "res = Inl e" for e
    using raisesD [OF sim_metadata m [unfolded that]] by simp
  moreover have "AuthorizationResponse (api_key ?r) ''t'' (output_header ?r) (output_prefix ?r)
      = Inr (AuthorizationContent (JStr ''sk-abc'') ''t'' JNull JNull)"
    by (simp add: AuthorizationResponse_def stored_result_def)
  moreover have "request_host demo_request = None" by (simp add: demo_request_def)
  ultimately show "\<exists>c w'. authorise sim_svc cfg (Some ''t'') (Inr demo_request) (sim_world stored_sim) = (Inr (200, c), w')"
    using authorise_despite_kinesis [OF p(1) _ _ m] a by metis
qed

theorem authorise_grant_witness:
  "\<forall>cfg. \<exists>w' p r w1. authorise sim_svc cfg (Some ''t'') (Inr demo_request) (sim_world stored_sim)
      = (Inr (200, AuthorizationContent (JStr ''sk-abc'') ''t'' JNull JNull), w')
    \<and> authenticate sim_svc cfg p None (sim_world stored_sim) = (Inr r, w1) \<and> api_key r = JStr ''sk-abc''"
proof
  fix cfg
  obtain p where p: "from_contents (request_payload demo_request) None = Inr p" "is_ascii (raw p)" "raw p \<noteq> []"
    "credentials_is_valid (credentials p)" "expiration (credentials p) = None"
    using demo_wire [of None] by blast
  obtain w1 caller where a: "authenticate sim_svc cfg p None (sim_world stored_sim)
      = (Inr (stored_result caller ''sk-abc''), w1)"
    using stored_run [OF p(2-5) ascii_host_simps(1)] by blast
  obtain w2 where m: "publish_principal sim_svc cfg (Some ''t'') (secret_arn p) (stored_result caller ''sk-abc'') w1 = (Inr (), w2)"
    using sim_principal by blast
  have run: "authorise sim_svc cfg (Some ''t'') (Inr demo_request) (sim_world stored_sim)
      = (Inr (200, AuthorizationContent (JStr ''sk-abc'') ''t'' JNull JNull), w2)"
    using p(1) a m
    by (simp add: authorise_def authorise_body_def bindE_def timeoutE_def catchE_def demo_request_def
        trace_id_of_def AuthorizationResponse_def stored_result_def)
  moreover have "request_host demo_request = None" by (simp add: demo_request_def)
  ultimately show "\<exists>w' p r w1. authorise sim_svc cfg (Some ''t'') (Inr demo_request) (sim_world stored_sim)
      = (Inr (200, AuthorizationContent (JStr ''sk-abc'') ''t'' JNull JNull), w')
    \<and> authenticate sim_svc cfg p None (sim_world stored_sim) = (Inr r, w1) \<and> api_key r = JStr ''sk-abc''"
    using authorise_grant [OF run] by (metis sum.inject(2))
qed

theorem authorise_refused_witness:
  "\<forall>cfg. \<exists>m w'. authorise sim_svc cfg (Some ''t'') (Inr demo_request) (sim_world sim0) = (Inr (403, ErrorContent m ''t''), w')"
proof
  fix cfg
  obtain p where p: "from_contents (request_payload demo_request) None = Inr p" "is_ascii (raw p)" "raw p \<noteq> []"
    "credentials_is_valid (credentials p)"
    using demo_wire [of None] by blast
  obtain evs where miss: "read_cache sim_svc cfg p None (sim_world sim0) = (Inr None, (sim_world sim0)\<lparr>trace := evs\<rparr>)"
    using sim_miss [OF _ _ _ p(2,3) ascii_host_simps(1), of sim0 cfg] by (auto simp: sim0_def)
  have "\<exists>m w'. full_authentication sim_svc cfg p None ((sim_world sim0)\<lparr>trace := evs\<rparr>)
      = (Inl (FetchSecretError 403 m), w')"
    using p(4) by (simp add: full_authentication_def fetch_secret_def get_aws_identity_def callE_def bindE_def
        catchE_def of_option_def sim0_def key_error_def is_Exception_iff)
  then obtain m w' where "full_authentication sim_svc cfg p None ((sim_world sim0)\<lparr>trace := evs\<rparr>)
      = (Inl (FetchSecretError 403 m), w')"
    by blast
  then have a: "authenticate sim_svc cfg p (request_host demo_request) (sim_world sim0) = (Inl (FetchSecretError 403 m), w')"
    using miss by (simp add: authenticate_def bindE_def catchE_def demo_request_def)
  have "is_Exception (FetchSecretError 403 m)" by (simp add: is_Exception_iff)
  from authorise_refused [OF p(1) a this, of "''t''"]
  show "\<exists>m w'. authorise sim_svc cfg (Some ''t'') (Inr demo_request) (sim_world sim0) = (Inr (403, ErrorContent m ''t''), w')"
    by auto
qed

text \<open>
  Without an X-Ray segment the handlers' own error handling fails: a publication that raises is not
  answered with the endpoint's 500 but leaves the handler as an \<open>AttributeError\<close>.
\<close>

theorem log_reply_untraced:
  assumes "publication w = (Inl e, w')" "is_Exception e"
  shows "\<exists>m. log_reply None what publication w = (Inl (PyError AttributeErrorC ''AttributeError'' m), w')"
  using assms by (simp add: log_reply_def catchE_def bindE_def add_exception_def)

end
