(* ===== verification/Provenance.thy ===== *)
theory Provenance
  imports App
begin

text \<open>
  Where a credential comes from: the authentications of all coroutines and processes that share one Redis,
  in whatever interleaving.  A call's effect on the outside state includes all that the rest of the world
  does while the caller awaits it, other authentications among them; the contract of Redis (the locale
  \<open>shared_cache\<close>) says only that what it holds was put there by one of them.
\<close>

section \<open>A grant\<close>

text \<open>
  \<open>granted svc cfg p host w r\<close>: an authentication of \<open>p\<close> for \<open>host\<close> that begins in \<open>w\<close> misses the cache;
  then STS names the caller, the secret is read with the keys of \<open>p\<close> and is valid for \<open>host\<close>; and \<open>r\<close> is its
  stored key, or a token minted for that caller and secret.
\<close>

definition granted ::
  "'x services \<Rightarrow> config \<Rightarrow> auth_payload \<Rightarrow> string option \<Rightarrow> 'x world \<Rightarrow> auth_result \<Rightarrow> bool" where
  "granted svc cfg p host w r \<longleftrightarrow>
     (\<exists>w1 caller w2 plain w3 s. read_cache svc cfg p host w = (Inr None, w1)
        \<and> get_aws_identity svc cfg (credentials p) w1 = (Inr caller, w2)
        \<and> fetch_secret svc cfg p w2 = (Inr plain, w3)
        \<and> validate_secret (lax_int svc) plain host = Inr s
        \<and> (\<forall>key h. s = SecretsManagerAuthPayload key h \<longrightarrow> r = stored_result caller key)
        \<and> (is_mint_secret s \<longrightarrow>
             (\<exists>wa wb m. mint svc cfg (credentials p) caller s wa = (Inr m, wb) \<and> r = minted_result caller m)))"

section \<open>The writes of a request\<close>

text \<open>A request: who asks for which host, and the states its authentication began and ended in.\<close>

type_synonym 'x run = "auth_payload \<times> string option \<times> 'x world \<times> 'x world"

text \<open>
  The payload was decoded from the text it carries, and a host, which is a header's value, has no newline.
\<close>

fun request :: "'x services \<Rightarrow> config \<Rightarrow> 'x run \<Rightarrow> bool" where
  "request svc cfg (p, host, w, w') \<longleftrightarrow>
     (\<exists>res. authenticate svc cfg p host w = (res, w')) \<and> (\<exists>h. from_contents (raw p) h = Inr p)
     \<and> newline \<notin> set (host_text host)"

text \<open>The entries that requests wrote, as the \<open>SETEX\<close> calls in their traces give them.\<close>

definition entries_of :: "'x run set \<Rightarrow> (string \<times> string) set" where
  "entries_of runs = {(k, v). \<exists>(p, host, w, w') \<in> runs. \<exists>evs ttl.
     trace w' = trace w @ evs \<and> EvRedisSet k ttl v \<in> set evs}"

text \<open>\<open>sets_in G ev\<close>: if the call writes to the cache, it writes an entry of \<open>G\<close>.\<close>

definition sets_in :: "(string \<times> string) set \<Rightarrow> event \<Rightarrow> bool" where
  "sets_in G = set_event (\<lambda>k ttl v. (k, v) \<in> G)"

lemma sets_in_iff: "sets_in G ev \<longleftrightarrow> (\<forall>k ttl v. ev = EvRedisSet k ttl v \<longrightarrow> (k, v) \<in> G)"
  unfolding sets_in_def by (cases ev) simp_all

text \<open>A step whose calls depend on the state it starts in.\<close>

definition makes :: "(event \<Rightarrow> bool) \<Rightarrow> ('x world, 'a) eff \<Rightarrow> 'x world \<Rightarrow> bool" where
  "makes P m w \<longleftrightarrow> (\<exists>evs. trace (snd (m w)) = trace w @ evs \<and> list_all P evs)"

lemma makes_calls: "calls P m \<Longrightarrow> makes P m w"
  by (simp add: calls_def makes_def)

lemma calls_makes: "(\<And>w. makes P m w) \<Longrightarrow> calls P m"
  by (simp add: calls_def makes_def)

lemma makes_bind:
  assumes "calls P m" "\<And>x w1. m w = (Inr x, w1) \<Longrightarrow> makes P (f x) w1"
  shows "makes P (bindE m f) w"
proof -
  obtain r s e1 where m: "m w = (r, s)" "trace s = trace w @ e1" "list_all P e1"
    using assms(1) by (rule calls_step)
  show ?thesis
  proof (cases r)
    case (Inr x)
    then obtain e2 where "trace (snd (f x s)) = trace s @ e2" "list_all P e2"
      using assms(2) m(1) unfolding makes_def by blast
    then show ?thesis using m Inr unfolding makes_def
      by (intro exI [of _ "e1 @ e2"]) (simp add: bindE_def)
  qed (use m in \<open>auto simp: makes_def bindE_def\<close>)
qed

lemma makes_catch:
  assumes "makes P m w" "\<And>e. calls P (h e)"
  shows "makes P (catchE m h) w"
proof -
  obtain r s where m: "m w = (r, s)" by fastforce
  obtain e1 where e1: "trace s = trace w @ e1" "list_all P e1"
    using assms(1) m by (auto simp: makes_def)
  show ?thesis
  proof (cases r)
    case (Inl e)
    then show ?thesis using calls_after [OF assms(2) e1] m by (simp add: makes_def catchE_def)
  qed (use m e1 in \<open>simp add: makes_def catchE_def\<close>)
qed

lemma calls_read_cache_no_set: "calls (set_event P) (read_cache svc cfg p h)"
  unfolding read_cache_def get_cached_auth_result_def
  by (auto intro!: calls_rules calls_acquire_no_set split: option.split list.split if_split)

lemma calls_mint_no_set: "calls (set_event P) (mint svc cfg creds caller s)"
proof -
  have "calls (set_event P) (exchange svc jwt s)" for jwt
    by (rule calls_weaken [OF calls_exchange]) (auto simp: posts_to_def)
  then show ?thesis
    unfolding mint_def prove_def assume_federation_role_def web_identity_token_def
    by (auto intro!: calls_rules split: prod.split secret.split if_split)
qed

lemmas calls_no_set = calls_read_cache_no_set calls_mint_no_set
  calls_identity [of "set_event P" for P, simplified] calls_fetch [of "set_event P" for P, simplified]

lemma calls_write_own:
  assumes "\<And>k. generate_cache_key (raw p) host = Inr k \<Longrightarrow> (k, json_dumps (AuthResult_to_dict r)) \<in> G"
  shows "calls (sets_in G) (write_cache svc cfg p host r)"
proof -
  have "calls (sets_in G) (cache_auth_result svc cfg (raw p) host r ttl)" for ttl
    unfolding cache_auth_result_def cache_auth_response_def Let_def sets_in_def
    using assms by (auto intro!: calls_bind calls_catch calls_pure calls_acquire_no_set calls_bind_lift calls_call
        split: if_split)
  then show ?thesis
    unfolding write_cache_def by (auto intro!: calls_rules split: if_split)
qed

text \<open>What a request may write: results it was granted, under its own key.\<close>

definition own_entries :: "'x services \<Rightarrow> config \<Rightarrow> auth_payload \<Rightarrow> string option \<Rightarrow> 'x world \<Rightarrow> (string \<times> string) set" where
  "own_entries svc cfg p host w =
     {(k, v). generate_cache_key (raw p) host = Inr k
        \<and> (\<exists>r. v = json_dumps (AuthResult_to_dict r) \<and> granted svc cfg p host w r)}"

lemma minted_makes:
  assumes "\<And>m wa wb k. mint svc cfg (credentials p) caller s wa = (Inr m, wb) \<Longrightarrow>
      generate_cache_key (raw p) host = Inr k \<Longrightarrow> (k, json_dumps (AuthResult_to_dict (minted_result caller m))) \<in> G"
  shows "calls (sets_in G) (authenticate_with_minted_token svc cfg p host caller s)"
proof -
  have "makes (sets_in G) (bindE (mint svc cfg (credentials p) caller s) (\<lambda>m.
      bindE (write_cache svc cfg p host (minted_result caller m)) (\<lambda>_. retE (minted_result caller m)))) wa" for wa
    by (intro makes_bind makes_calls calls_bind calls_write_own)
      (auto intro: assms calls_rules calls_no_set simp: sets_in_def)
  then have "calls (sets_in G) (bindE (mint svc cfg (credentials p) caller s) (\<lambda>m.
      bindE (write_cache svc cfg p host (minted_result caller m)) (\<lambda>_. retE (minted_result caller m))))"
    by (rule calls_makes)
  then show ?thesis
    unfolding authenticate_with_minted_token_def
    by (auto intro!: calls_rules simp: sets_in_def calls_no_set split: option.split)
qed

lemma full_makes:
  assumes "read_cache svc cfg p host w = (Inr None, w1)"
  shows "makes (sets_in (own_entries svc cfg p host w)) (full_authentication svc cfg p host) w1"
  unfolding full_authentication_def
proof (intro makes_bind)
  fix caller w2 plain w3 s w4
  assume i: "get_aws_identity svc cfg (credentials p) w1 = (Inr caller, w2)"
    and f: "fetch_secret svc cfg p w2 = (Inr plain, w3)"
    and v: "liftE (validate_secret (lax_int svc) plain host) w3 = (Inr s, w4)"
  have g: "granted svc cfg p host w r"
    if "\<And>key h. s = SecretsManagerAuthPayload key h \<Longrightarrow> r = stored_result caller key"
      "is_mint_secret s \<Longrightarrow> \<exists>wa wb m. mint svc cfg (credentials p) caller s wa = (Inr m, wb) \<and> r = minted_result caller m"
    for r
    using assms i f v that unfolding granted_def by auto
  show "makes (sets_in (own_entries svc cfg p host w)) (case s of
       SecretsManagerAuthPayload key _ \<Rightarrow>
         bindE (write_cache svc cfg p host (stored_result caller key)) (\<lambda>_. retE (stored_result caller key))
     | _ \<Rightarrow> authenticate_with_minted_token svc cfg p host caller s) w4"
  proof (cases "is_mint_secret s")
    case True
    have "granted svc cfg p host w (minted_result caller m)"
      if "mint svc cfg (credentials p) caller s wa = (Inr m, wb)" for m wa wb
      using True that by (intro g) auto
    then have "calls (sets_in (own_entries svc cfg p host w)) (authenticate_with_minted_token svc cfg p host caller s)"
      by (intro minted_makes) (auto simp: own_entries_def)
    then show ?thesis using True by (cases s) (simp_all add: makes_calls)
  next
    case False
    then obtain key h where s: "s = SecretsManagerAuthPayload key h" by (cases s) auto
    have "calls (sets_in (own_entries svc cfg p host w)) (write_cache svc cfg p host (stored_result caller key))"
      using g s by (intro calls_write_own) (auto simp: own_entries_def)
    then show ?thesis using s by (auto intro!: makes_calls calls_rules)
  qed
qed (auto simp: sets_in_def calls_no_set calls_rules)

lemma authenticate_makes:
  "makes (sets_in (own_entries svc cfg p host w)) (authenticate svc cfg p host) w"
  unfolding authenticate_def
proof (rule makes_bind)
  fix cached w1
  assume c: "read_cache svc cfg p host w = (Inr cached, w1)"
  show "makes (sets_in (own_entries svc cfg p host w)) (case cached of
       Some r \<Rightarrow> retE r
     | None \<Rightarrow> catchE (full_authentication svc cfg p host)
         (\<lambda>e. if isinstance e [PayloadErrorC, CredentialsErrorC, ServiceErrorC, TimeoutErrorC]
              then raiseE e
              else if is_Exception e
              then raiseE (AuthenticationError (''Authentication failed: '' @ exn_str e))
              else raiseE e)) w1"
  proof (cases cached)
    case None
    then have "makes (sets_in (own_entries svc cfg p host w)) (full_authentication svc cfg p host) w1"
      using full_makes c by simp
    then show ?thesis using None by (auto intro!: makes_catch calls_rules split: if_split)
  qed (simp add: makes_calls calls_rules)
qed (simp add: sets_in_def calls_no_set)

text \<open>An entry is a grant of the request that wrote it, under that request's key.\<close>

lemma entry_granted:
  assumes "\<forall>run \<in> runs. request svc cfg run" "(k, v) \<in> entries_of runs"
  shows "\<exists>(p, host, w, w') \<in> runs. \<exists>r. generate_cache_key (raw p) host = Inr k
    \<and> v = json_dumps (AuthResult_to_dict r) \<and> granted svc cfg p host w r"
proof -
  obtain p host w w' evs ttl where run: "(p, host, w, w') \<in> runs" "trace w' = trace w @ evs"
    "EvRedisSet k ttl v \<in> set evs"
    using assms(2) unfolding entries_of_def by auto
  then obtain res where "authenticate svc cfg p host w = (res, w')" using assms(1) by fastforce
  then have "list_all (sets_in (own_entries svc cfg p host w)) evs"
    using authenticate_makes [of svc cfg p host w] run(2) by (simp add: makes_def)
  then have "(k, v) \<in> own_entries svc cfg p host w"
    using run(3) by (auto simp: list_all_iff sets_in_iff)
  then show ?thesis using run(1) by (intro bexI [of _ "(p, host, w, w')"]) (auto simp: own_entries_def)
qed

lemma run_entries:
  assumes "(p, host, w, w') \<in> runs" "trace w' = trace w @ evs"
  shows "list_all (sets_in (entries_of runs)) evs"
  using assms by (auto simp: list_all_iff sets_in_iff entries_of_def intro!: bexI [of _ "(p, host, w, w')"])

section \<open>A cache that other requests share\<close>

text \<open>
  The contract of Redis.  \<open>clean x\<close>: it holds nothing but \<open>entries\<close>.  A read of a clean cache gives one of
  them; a write of one of them keeps the cache clean, whether it succeeds or not; and so does every other
  call, with all that others do meanwhile: they may add \<open>entries\<close>, at any await, and drop what they like.
\<close>

locale shared_cache =
  fixes svc :: "'x services"
    and clean :: "'x \<Rightarrow> bool"
    and entries :: "(string \<times> string) set"
  assumes read: "clean x \<Longrightarrow> redis_get svc k x = (Inr (Some v), x') \<Longrightarrow> (k, v) \<in> entries"
    and written: "clean x \<Longrightarrow> (k, v) \<in> entries \<Longrightarrow> clean (snd (redis_setex svc k ttl v x))"
    and awaits: "clean x \<Longrightarrow> clean (snd (redis_get svc k x))"
      "clean x \<Longrightarrow> clean (snd (redis_ping svc x))"
      "clean x \<Longrightarrow> clean (snd (redis_new svc rc x))"
      "clean x \<Longrightarrow> clean (snd (random_unit svc x))"
      "clean x \<Longrightarrow> clean (snd (sleep svc d x))"
      "clean x \<Longrightarrow> clean (snd (get_caller_identity svc ck u x))"
      "clean x \<Longrightarrow> clean (snd (get_secret_value svc ck u arn x))"
      "clean x \<Longrightarrow> clean (snd (assume_role svc ck url r n dur x))"
      "clean x \<Longrightarrow> clean (snd (get_web_identity_token svc ck url aud alg dur x))"
      "clean x \<Longrightarrow> clean (snd (http_post svc url body hs x))"
      "clean x \<Longrightarrow> clean (snd (lock_acquire svc n x))"
      "clean x \<Longrightarrow> clean (snd (lock_release svc n x))"
begin

definition keeps :: "'x world \<Rightarrow> 'x world \<Rightarrow> bool" where
  "keeps w w' \<longleftrightarrow> (\<exists>evs. trace w' = trace w @ evs
     \<and> (clean (ext w) \<and> list_all (sets_in entries) evs \<longrightarrow> clean (ext w')))"

lemma keeps_refl: "keeps w w"
  by (simp add: keeps_def)

lemma keeps_trans: "keeps u v \<Longrightarrow> keeps v w \<Longrightarrow> keeps u w"
  unfolding keeps_def by auto

end

sublocale shared_cache \<subseteq> kp: frame keeps
  by unfold_locales (rule keeps_refl, rule keeps_trans)

context shared_cache
begin

lemma keeps_call: "(\<And>x. clean x \<Longrightarrow> clean (snd (op x))) \<Longrightarrow> evolves keeps (callE ev op)"
  unfolding evolves_def keeps_def callE_def by (auto split: prod.split) (metis snd_conv)

lemma keeps_set: "evolves keeps (callE (EvRedisSet k ttl v) (redis_setex svc k ttl v))"
  unfolding evolves_def keeps_def callE_def sets_in_iff
  using written by (auto split: prod.split) (metis snd_conv)

lemma keeps_log: "evolves keeps (logE fs)"
  unfolding logE_def by (rule kp.evolves_modify) (simp add: keeps_def)

lemma keeps_now: "evolves keeps (now_us svc)"
  unfolding now_us_def by (rule kp.evolves_pure)

lemma keeps_random: "evolves keeps (quietE (random_unit svc))"
  unfolding evolves_def keeps_def quietE_def
  using awaits(4) by (auto split: prod.split) (metis snd_conv)

lemmas keeps_steps = kp.evolves_rules keeps_log keeps_now keeps_random keeps_set
  awaits [THEN keeps_call]

lemma keeps_acquire: "evolves keeps (acquire_redis_connection svc cfg)"
proof -
  have ping: "evolves keeps (ping svc)" unfolding ping_def by (intro keeps_steps)
  have "evolves keeps (acquire_loop svc m n)" for m n
    by (induction n) (auto intro!: keeps_steps ping split: if_split)
  with ping show ?thesis
    unfolding acquire_redis_connection_def get_redis_client_def
    by (auto intro!: keeps_steps simp: keeps_def split: if_split)
qed

lemma keeps_read_cache: "evolves keeps (read_cache svc cfg p h)"
  unfolding read_cache_def get_cached_auth_result_def mapE_def
  by (auto intro!: keeps_steps keeps_acquire split: if_split option.split list.split)

lemma keeps_write_cache: "evolves keeps (write_cache svc cfg p h r)"
  unfolding write_cache_def cache_auth_result_def cache_auth_response_def Let_def
  by (auto intro!: keeps_steps keeps_acquire split: if_split)

lemma keeps_identity: "evolves keeps (get_aws_identity svc cfg creds)"
  unfolding get_aws_identity_def by (auto intro!: keeps_steps split: if_split)

lemma keeps_fetch: "evolves keeps (fetch_secret svc cfg p)"
  unfolding fetch_secret_def by (auto intro!: keeps_steps split: if_split)

lemma keeps_sts_endpoint: "evolves keeps (sts_endpoint svc cfg)"
  unfolding sts_endpoint_def by (auto intro!: keeps_steps split: option.split)

lemma keeps_post_json: "evolves keeps (post_json svc adapter step url body hs)"
proof -
  have "evolves keeps (open_http adapter)"
    unfolding open_http_def by (rule kp.evolves_modify) (simp add: keeps_def)
  then show ?thesis
    unfolding post_json_def by (auto intro!: keeps_steps split: if_split sum.split json.split)
qed

lemma keeps_exchange: "evolves keeps (exchange svc jwt s)"
  unfolding exchange_def anthropic_exchange_def openai_exchange_def openrouter_exchange_def gcp_exchange_def
    oauth_exchange_def
  by (auto intro!: keeps_steps keeps_post_json split: secret.split)

lemma keeps_mint: "evolves keeps (mint svc cfg creds caller s)"
  unfolding mint_def prove_def assume_federation_role_def web_identity_token_def
  by (auto intro!: keeps_steps keeps_sts_endpoint keeps_exchange split: if_split secret.split prod.split)

lemma keeps_minted: "evolves keeps (authenticate_with_minted_token svc cfg p host caller s)"
  unfolding authenticate_with_minted_token_def with_lock_def
  by (auto intro!: keeps_steps keeps_read_cache keeps_mint keeps_write_cache split: option.split)

lemma keeps_authenticate: "evolves keeps (authenticate svc cfg p host)"
  unfolding authenticate_def full_authentication_def
  by (auto intro!: keeps_steps keeps_read_cache keeps_identity keeps_fetch keeps_write_cache keeps_minted
      split: if_split option.split secret.split)

lemma keeps_clean:
  assumes "evolves keeps m" "calls (sets_in entries) m" "m w = (r, w')" "clean (ext w)"
  shows "clean (ext w')"
  using kp.evolvesD [OF assms(1,3)] assms(2-4) unfolding keeps_def by (auto elim!: callsD)

lemma hit_entry:
  assumes "read_cache svc cfg p host w = (Inr (Some r), w')" "clean (ext w)"
  shows "\<exists>k v. generate_cache_key (raw p) host = Inr k \<and> (k, v) \<in> entries \<and> decode_auth_response v = Inr r"
proof -
  have get: "get_cached_auth_result svc cfg (raw p) host w = (Inr (Some r), w')"
    using assms(1) by (auto simp: read_cache_def timeoutE_def catchE_def split: prod.splits sum.splits if_splits)
  then obtain w1 where a: "acquire_redis_connection svc cfg w = (Inr True, w1)"
    unfolding get_cached_auth_result_def by (auto dest!: bindE_InrD split: if_splits)
  have "clean (ext w1)"
    using keeps_clean [OF keeps_acquire _ a assms(2)] by (simp add: sets_in_def calls_acquire_no_set)
  moreover obtain k c cs x' where "generate_cache_key (raw p) host = Inr k"
    "redis_get svc k (ext w1) = (Inr (Some (c # cs)), x')" "decode_auth_response (c # cs) = Inr r"
    using get a unfolding get_cached_auth_result_def
    by (auto simp: bindE_def catchE_def callE_def mapE_def split: prod.splits sum.splits if_splits
        option.splits list.splits)
  ultimately show ?thesis using read by blast
qed

lemma result_origin:
  assumes "authenticate svc cfg p host w = (Inr r, w')" "clean (ext w)"
  shows "granted svc cfg p host w r
    \<or> (\<exists>k v. generate_cache_key (raw p) host = Inr k \<and> (k, v) \<in> entries \<and> decode_auth_response v = Inr r)"
proof -
  obtain cached w1 where c: "read_cache svc cfg p host w = (Inr cached, w1)"
    using assms(1) unfolding authenticate_def by (auto dest!: bindE_InrD)
  show ?thesis
  proof (cases cached)
    case (Some r0)
    then have "r = r0" using assms(1) c by (simp add: authenticate_def bindE_Inr)
    then show ?thesis using hit_entry c Some assms(2) by blast
  next
    case None
    then have "full_authentication svc cfg p host w1 = (Inr r, w')"
      using assms(1) c by (auto simp: authenticate_def bindE_Inr catchE_def split: prod.splits sum.splits if_splits)
    then obtain caller w2 plain w3 s where i: "get_aws_identity svc cfg (credentials p) w1 = (Inr caller, w2)"
      and f: "fetch_secret svc cfg p w2 = (Inr plain, w3)" and v: "validate_secret (lax_int svc) plain host = Inr s"
      and run: "(case s of SecretsManagerAuthPayload key _ \<Rightarrow>
           bindE (write_cache svc cfg p host (stored_result caller key)) (\<lambda>_. retE (stored_result caller key))
       | _ \<Rightarrow> authenticate_with_minted_token svc cfg p host caller s) w3 = (Inr r, w')"
      unfolding full_authentication_def by (auto dest!: bindE_InrD)
    note g = c [unfolded None] i f v
    show ?thesis
    proof (cases "is_mint_secret s")
      case False
      then obtain key h where s: "s = SecretsManagerAuthPayload key h" by (cases s) auto
      then have "r = stored_result caller key" using run by (auto dest!: bindE_InrD)
      then show ?thesis using g s unfolding granted_def by auto
    next
      case True
      then have "authenticate_with_minted_token svc cfg p host caller s w3 = (Inr r, w')"
        using run by (cases s) simp_all
      then obtain key wa wb where lock: "callE (EvLock key) (lock_acquire svc key) w3 = (Inr (), wa)"
        and body: "bindE (read_cache svc cfg p host) (\<lambda>cached. case cached of
              Some r \<Rightarrow> retE r
            | None \<Rightarrow> bindE (mint svc cfg (credentials p) caller s) (\<lambda>m.
                bindE (write_cache svc cfg p host (minted_result caller m)) (\<lambda>_.
                  retE (minted_result caller m)))) wa = (Inr r, wb)"
        unfolding authenticate_with_minted_token_def with_lock_def finallyE_def
        by (auto dest!: bindE_InrD split: prod.splits sum.splits)
      have "clean (ext w1)"
        using keeps_clean [OF keeps_read_cache _ c assms(2)] by (simp add: sets_in_def calls_no_set)
      then have "clean (ext w2)"
        using keeps_clean [OF keeps_identity _ i] by (simp add: sets_in_def calls_no_set)
      then have "clean (ext w3)"
        using keeps_clean [OF keeps_fetch _ f] by (simp add: sets_in_def calls_no_set)
      then have clean: "clean (ext wa)"
        using keeps_clean [OF keeps_call [OF awaits(11)] _ lock] by (simp add: sets_in_def calls_rules)
      obtain again wc where again: "read_cache svc cfg p host wa = (Inr again, wc)"
        using body by (auto dest!: bindE_InrD)
      show ?thesis
      proof (cases again)
        case (Some r0)
        then show ?thesis using hit_entry [OF _ clean] again body by (simp add: bindE_Inr)
      next
        case None
        then obtain m wd where "mint svc cfg (credentials p) caller s wc = (Inr m, wd)" "r = minted_result caller m"
          using body again by (auto simp: bindE_Inr dest!: bindE_InrD)
        then show ?thesis using g True unfolding granted_def by auto
      qed
    qed
  qed
qed

lemma left_clean:
  assumes "authenticate svc cfg p host w = (res, w')" "clean (ext w)"
    and "\<And>evs. trace w' = trace w @ evs \<Longrightarrow> list_all (sets_in entries) evs"
  shows "clean (ext w')"
  using kp.evolvesD [OF keeps_authenticate assms(1)] assms(2,3) unfolding keeps_def by auto

end

text \<open>
  The simulated world keeps the contract, for any set of entries; and so does one in which, while a request
  waits for the lock, another writes an entry.
\<close>

definition sim_clean :: "(string \<times> string) set \<Rightarrow> sim \<Rightarrow> bool" where
  "sim_clean E x \<longleftrightarrow> (\<forall>k v t. sim_store x k = Some (v, t) \<longrightarrow> (k, v) \<in> E)"

definition racing_svc :: "string \<Rightarrow> string \<Rightarrow> sim services" where
  "racing_svc k v = sim_svc\<lparr>lock_acquire := \<lambda>_. mapE (\<lambda>_. ()) (sim_setex k 60 v)\<rparr>"

interpretation sim_shared: shared_cache sim_svc "sim_clean E" E
  by unfold_locales (auto simp: sim_clean_def sim_defs split: list.splits option.splits nat.splits if_splits)

interpretation racing_shared: shared_cache "racing_svc k v" "sim_clean (insert (k, v) E)" "insert (k, v) E"
proof unfold_locales
  show "sim_clean (insert (k, v) E) x \<Longrightarrow> redis_get (racing_svc k v) n x = (Inr (Some u), x') \<Longrightarrow>
      (n, u) \<in> insert (k, v) E" for x n u x'
    using sim_shared.read [of "insert (k, v) E" x n u x'] by (simp add: racing_svc_def)
qed (auto simp: racing_svc_def sim_clean_def sim_defs mapE_def bindE_def
      split: list.splits option.splits nat.splits if_splits)

section \<open>Nothing crosses callers or hosts\<close>

text \<open>The texts whose digests are the cache keys of some requests.\<close>

definition hashed :: "'x run set \<Rightarrow> bytes set" where
  "hashed runs = {b. \<exists>(p, host, w, w') \<in> runs. encode_utf8 (cache_key_text (raw p) host) = Inr b}"

lemma same_key:
  assumes "inj_on sha256_hexdigest (hashed runs)" "(p, host, w, w') \<in> runs" "(p', host', u, u') \<in> runs"
    and "generate_cache_key (raw p) host = Inr k" "generate_cache_key (raw p') host' = Inr k"
    and "newline \<notin> set (host_text host)" "newline \<notin> set (host_text host')"
  shows "raw p' = raw p \<and> host_text host' = host_text host"
proof -
  let ?t = "cache_key_text (raw p) host" and ?t' = "cache_key_text (raw p') host'"
  have t: "encode_utf8 ?t = Inr ?t" "encode_utf8 ?t' = Inr ?t'" "sha256_hexdigest ?t = sha256_hexdigest ?t'"
    using assms(4,5) by (auto simp: generate_cache_key_def encode_utf8_def split: if_splits)
  then have "?t \<in> hashed runs" "?t' \<in> hashed runs"
    using assms(2,3) unfolding hashed_def by fastforce+
  then have "?t = ?t'" using assms(1) t(3) by (auto dest: inj_onD)
  then show ?thesis
    using split_last_newline [OF assms(6,7), of "raw p" "raw p'"] by (simp add: cache_key_text_def host_text_def)
qed

lemma same_payload:
  assumes "from_contents r h = Inr p" "from_contents r h' = Inr p'"
  shows "credentials p' = credentials p \<and> secret_arn p' = secret_arn p"
  using assms by (auto simp: from_contents_def read_payload_def AuthPayload_def bind_r_Inr_iff
      split: sum.splits if_splits)

lemma raw_from_contents: "from_contents r h = Inr p \<Longrightarrow> raw p = r"
  by (auto simp: from_contents_def read_payload_def AuthPayload_def bind_r_Inr_iff split: sum.splits if_splits)

text \<open>
  C2: no credential crosses callers or hosts through the cache, however requests interleave.  Let \<open>runs\<close> be
  all requests that write to one Redis, before, during and after this one, by any process; let what Redis
  holds be written by them (\<open>shared_cache\<close>), and let SHA-256 tell the texts they hash apart.  A result that
  \<open>authenticate\<close> returns was granted in this very request, by STS, the caller's own read of the secret and
  its host restriction, or it reads back from what was granted so to a request with the same payload, hence
  the same credentials and the same secret, for the same host.  And the request leaves in the cache only what
  the requests wrote.
\<close>

theorem authenticate_provenance:
  assumes "shared_cache svc clean (entries_of runs)"
    and "\<forall>run \<in> insert (p, host, w, w') runs. request svc cfg run"
    and "inj_on sha256_hexdigest (hashed (insert (p, host, w, w') runs))"
    and "clean (ext w)"
  shows "(\<forall>r. authenticate svc cfg p host w = (Inr r, w') \<longrightarrow>
      granted svc cfg p host w r
      \<or> (\<exists>(p', host', w0, w1) \<in> runs. \<exists>r0. raw p' = raw p \<and> credentials p' = credentials p
           \<and> secret_arn p' = secret_arn p \<and> host_text host' = host_text host
           \<and> granted svc cfg p' host' w0 r0
           \<and> decode_auth_response (json_dumps (AuthResult_to_dict r0)) = Inr r))
    \<and> ((p, host, w, w') \<in> runs \<longrightarrow> clean (ext w'))"
proof (intro conjI allI impI)
  fix r
  assume run: "authenticate svc cfg p host w = (Inr r, w')"
  show "granted svc cfg p host w r
      \<or> (\<exists>(p', host', w0, w1) \<in> runs. \<exists>r0. raw p' = raw p \<and> credentials p' = credentials p
           \<and> secret_arn p' = secret_arn p \<and> host_text host' = host_text host
           \<and> granted svc cfg p' host' w0 r0
           \<and> decode_auth_response (json_dumps (AuthResult_to_dict r0)) = Inr r)"
  proof (cases "granted svc cfg p host w r")
    case False
    then obtain k v where k: "generate_cache_key (raw p) host = Inr k" "(k, v) \<in> entries_of runs"
      "decode_auth_response v = Inr r"
      using shared_cache.result_origin [OF assms(1) run assms(4)] by blast
    obtain p' host' w0 w1 r0 where e: "(p', host', w0, w1) \<in> runs" "generate_cache_key (raw p') host' = Inr k"
      "v = json_dumps (AuthResult_to_dict r0)" "granted svc cfg p' host' w0 r0"
      using entry_granted [OF _ k(2), of svc cfg] assms(2) by auto
    have q: "request svc cfg (p, host, w, w')" "request svc cfg (p', host', w0, w1)"
      using assms(2) e(1) by blast+
    then have s: "raw p' = raw p \<and> host_text host' = host_text host"
      using same_key [OF assms(3) _ _ k(1) e(2)] e(1) by auto
    then have "credentials p' = credentials p \<and> secret_arn p' = secret_arn p"
      using q same_payload by (metis request.simps)
    then show ?thesis using s e k(3) by (intro disjI2 bexI [OF _ e(1)]) auto
  qed simp
next
  assume own: "(p, host, w, w') \<in> runs"
  obtain res where "authenticate svc cfg p host w = (res, w')" using assms(2) by auto
  then show "clean (ext w')"
    using shared_cache.left_clean [OF assms(1) _ assms(4)] run_entries [OF own] by blast
qed

section \<open>A key is fetched once and then served from the cache\<close>

lemma sim_write_read:
  assumes "generate_cache_key (raw p) host = Inr key" "raw p \<noteq> []" "expiration (credentials p) = None"
    "redis_client w" "sim_busy (ext w) = 0" "sim_fail (ext w) = None"
    "r = stored_result caller k" "k \<noteq> []" "json_ok (AuthResult_to_dict r)"
  shows "\<exists>w' w''. write_cache sim_svc (demo_ttl cfg) p host r w = (Inr (), w')
    \<and> read_cache sim_svc (demo_ttl cfg) p host w' = (Inr (Some r), w'')"
proof -
  let ?cfg = "demo_ttl cfg"
  define v where "v = json_dumps (AuthResult_to_dict r)"
  define x1 where "x1 = (ext w)\<lparr>sim_store := (sim_store (ext w))(key \<mapsto> (v, sim_now (ext w) + 3600 * us_per_s))\<rparr>"
  define w1 where "w1 = w\<lparr>ext := x1, trace := trace w @ [EvRedisPing, EvRedisSet key 3600 v]\<rparr>"
  have "decode_auth_response v = Inr r"
    unfolding v_def using assms(7,9) by (intro decode_auth_response_dumps) (simp_all add: result_ok_def stored_result_def)
  moreover have "v \<noteq> []" by (simp add: v_def json_dumps_def AuthResult_to_dict_def)
  moreover have a: "acquire_redis_connection sim_svc ?cfg w = (Inr True, w\<lparr>trace := trace w @ [EvRedisPing]\<rparr>)"
    using assms(4,5) by (subst acquire_answering [where x = "ext w"]) (simp_all add: sim_defs)
  moreover have a1: "acquire_redis_connection sim_svc ?cfg w1 = (Inr True, w1\<lparr>trace := trace w1 @ [EvRedisPing]\<rparr>)"
    using assms(4,5) by (subst acquire_answering [where x = x1]) (simp_all add: sim_defs w1_def x1_def)
  moreover have "cache_duration (cfg_redis ?cfg) = 3600" by (simp add: demo_ttl_def)
  ultimately have stored: "cache_auth_result sim_svc ?cfg (raw p) host r None w = (Inr True, w1)"
    by (simp add: cache_auth_result_def cache_auth_response_def catchE_def bindE_def assms(1) callE_def
        sim_setex_def Let_def w1_def x1_def flip: v_def)
  have "\<exists>w''. get_cached_auth_result sim_svc ?cfg (raw p) host w1 = (Inr (Some r), w'')"
    unfolding get_cached_auth_result_def
    using a1 \<open>decode_auth_response v = Inr r\<close> \<open>v \<noteq> []\<close> assms(1,6)
    by (cases v) (simp_all add: catchE_def bindE_def callE_def mapE_def w1_def x1_def sim_get_def us_per_s_def)
  then have "\<exists>w''. read_cache sim_svc ?cfg p host w1 = (Inr (Some r), w'')"
    using assms(2) by (auto simp: read_cache_def catchE_def timeoutE_def)
  moreover have "write_cache sim_svc ?cfg p host r w = (Inr (), w1)"
    using stored assms(2,3,7,8)
    by (simp add: write_cache_def now_us_def bindE_def write_ttl_def seconds_until_expiration_def
        catchE_def timeoutE_def result_successful_def stored_result_def)
  ultimately show ?thesis by blast
qed

text \<open>A request that fetched a key, and one after it that is served from the cache.\<close>

theorem authenticate_provenance_witness:
  "\<forall>cfg. \<exists>p w0 w1 w2 r r0. request sim_svc (demo_ttl cfg) (p, None, w0, w1)
     \<and> authenticate sim_svc (demo_ttl cfg) p None w1 = (Inr r, w2) \<and> api_key r = JStr ''sk-abc''
     \<and> \<not> granted sim_svc (demo_ttl cfg) p None w1 r \<and> granted sim_svc (demo_ttl cfg) p None w0 r0
     \<and> decode_auth_response (json_dumps (AuthResult_to_dict r0)) = Inr r"
proof
  fix cfg
  let ?cfg = "demo_ttl cfg" and ?w = "sim_world stored_sim" and ?r = "stored_result demo_assumed ''sk-abc''"
  obtain p where wire: "from_contents (request_payload demo_request) None = Inr p"
    and p: "is_ascii (raw p)" "raw p \<noteq> []" "credentials_is_valid (credentials p)" "expiration (credentials p) = None"
    using demo_wire [of None] by blast
  have raw: "from_contents (raw p) None = Inr p"
    using wire raw_from_contents [OF wire] by simp
  obtain key where key: "generate_cache_key (raw p) None = Inr key"
    using ascii_key [OF p(1), of None] by auto
  obtain w3 where w3: "redis_client w3" "ext w3 = stored_sim"
    and run: "\<And>w'. write_cache sim_svc ?cfg p None ?r w3 = (Inr (), w')
      \<Longrightarrow> authenticate sim_svc ?cfg p None ?w = (Inr ?r, w')"
    using stored_steps [OF p(1-3) ascii_host_simps(1)] by blast
  have ok: "json_ok (AuthResult_to_dict ?r)"
    by (simp add: stored_result_def AuthResult_to_dict_def PrincipalInfo_to_dict_def dt_json_def str_ok_ascii
        demo_assumed_def) (code_simp)
  obtain w1 w2 where "write_cache sim_svc ?cfg p None ?r w3 = (Inr (), w1)"
    and hit: "read_cache sim_svc ?cfg p None w1 = (Inr (Some ?r), w2)"
    using sim_write_read [OF key p(2,4) w3(1) _ _ refl _ ok, of cfg] w3(2) by (auto simp: stored_sim_def sim0_def)
  then have first: "authenticate sim_svc ?cfg p None ?w = (Inr ?r, w1)" by (simp add: run)
  have again: "authenticate sim_svc ?cfg p None w1 = (Inr ?r, w2)"
    using hit by (simp add: authenticate_def bindE_Inr)
  define runs where "runs = {(p, None :: string option, ?w, w1)}"
  have q: "\<forall>run \<in> insert (p, None, w1, w2) runs. request sim_svc ?cfg run"
    using first again raw by (auto simp: runs_def host_text_def)
  have "hashed (insert (p, None, w1, w2) runs) \<subseteq> {cache_key_text (raw p) None}"
    by (auto simp: hashed_def runs_def encode_utf8_def split: if_splits)
  then have inj: "inj_on sha256_hexdigest (hashed (insert (p, None, w1, w2) runs))"
    by (rule inj_on_subset [rotated]) simp
  have "sim_clean (entries_of runs) (ext ?w)" by (simp add: sim_clean_def stored_sim_def sim0_def)
  then have clean: "sim_clean (entries_of runs) (ext w1)"
    using sim_shared.left_clean [OF first] run_entries [of p None ?w w1 runs] by (simp add: runs_def)
  note prov = authenticate_provenance [OF sim_shared.shared_cache_axioms q inj clean]
  have "\<not> granted sim_svc ?cfg p None w1 ?r" using hit by (simp add: granted_def)
  then obtain r0 where "granted sim_svc ?cfg p None ?w r0"
    "decode_auth_response (json_dumps (AuthResult_to_dict r0)) = Inr ?r"
    using prov again unfolding runs_def by auto
  moreover have "request sim_svc ?cfg (p, None, ?w, w1)" using q by (simp add: runs_def)
  moreover have "api_key ?r = JStr ''sk-abc''" by (simp add: stored_result_def)
  ultimately show "\<exists>p w0 w1 w2 r r0. request sim_svc ?cfg (p, None, w0, w1)
     \<and> authenticate sim_svc ?cfg p None w1 = (Inr r, w2) \<and> api_key r = JStr ''sk-abc''
     \<and> \<not> granted sim_svc ?cfg p None w1 r \<and> granted sim_svc ?cfg p None w0 r0
     \<and> decode_auth_response (json_dumps (AuthResult_to_dict r0)) = Inr r"
    using again \<open>\<not> granted sim_svc ?cfg p None w1 ?r\<close> by blast
qed

end
