(* ===== verification/Joined.thy ===== *)
theory Joined
  imports Records
begin

text \<open>
  \<open>JoinedLogRecord\<close> (\<open>models.py\<close>): the row the ETL job writes, its decoding steps, its Glue schema
  and the partition path.  A Spark \<open>Row\<close> of headers is given by the dictionary \<open>asDict\<close> returns.
\<close>

section \<open>The record\<close>

record joined_log_record =
  jl_request_id :: string
  jl_timestamp :: string
  metadata_published_at :: string
  metadata_account_id :: "string option"
  metadata_principal :: "string option"
  metadata_principal_arn :: "string option"
  metadata_project :: "string option"
  metadata_session_name :: "string option"
  metadata_secret_arn :: "string option"
  request_headers_raw_headers :: headers
  request_headers_timestamp :: string
  request_headers_content_type :: "string option"
  request_headers_method :: "string option"
  request_headers_path :: "string option"
  request_headers_authority :: "string option"
  request_headers_user_agent :: "string option"
  request_headers_content_encoding :: "string option"
  request_body_body :: string
  request_body_body_size :: int
  request_body_num_chunks :: int
  request_body_truncated :: bool
  request_body_timestamp :: string
  response_headers_raw_headers :: headers
  response_headers_timestamp :: string
  response_headers_server :: "string option"
  response_headers_status :: "string option"
  response_headers_content_length :: "string option"
  response_headers_content_type :: "string option"
  response_headers_content_encoding :: "string option"
  response_body_body :: string
  response_body_body_size :: int
  response_body_num_chunks :: int
  response_body_truncated :: bool
  response_body_timestamp :: string
  etl_processed_at :: "string option"
  request_headers_decoded :: "(string \<times> string option) list option"
  request_body_decoded :: "string option"
  response_headers_decoded :: "(string \<times> string option) list option"
  response_body_decoded :: "string option"
  request_headers_decode_failure :: bool
  request_body_decode_failure :: bool
  response_headers_decode_failure :: bool
  response_body_decode_failure :: bool
  jl_year :: "int option"
  jl_month :: "int option"
  jl_day :: "int option"
  jl_hour :: "int option"

section \<open>Decoding\<close>

definition decode_request_headers :: "joined_log_record \<Rightarrow> (nat \<times> joined_log_record) res" where
  "decode_request_headers r =
     bind_r (decode_b64_headers (request_headers_raw_headers r)) (\<lambda>(decoded, failures).
       Inr (failures, r\<lparr>request_headers_decoded := Some decoded,
                       request_headers_decode_failure := failures > 0\<rparr>))"

definition decode_response_headers :: "joined_log_record \<Rightarrow> (nat \<times> joined_log_record) res" where
  "decode_response_headers r =
     bind_r (decode_b64_headers (response_headers_raw_headers r)) (\<lambda>(decoded, failures).
       Inr (failures, r\<lparr>response_headers_decoded := Some decoded,
                       response_headers_decode_failure := failures > 0\<rparr>))"

definition decompress_request_body :: "decoders \<Rightarrow> joined_log_record \<Rightarrow> (bool \<times> joined_log_record) res" where
  "decompress_request_body dc r =
     bind_r (decompress_b64_body dc (request_body_body r) (request_headers_content_encoding r) None)
       (\<lambda>(decoded, failed). Inr (\<not> failed,
          r\<lparr>request_body_decoded := decoded, request_body_decode_failure := failed\<rparr>))"

definition decompress_response_body :: "decoders \<Rightarrow> joined_log_record \<Rightarrow> (bool \<times> joined_log_record) res" where
  "decompress_response_body dc r =
     bind_r (decompress_b64_body dc (response_body_body r) (response_headers_content_encoding r)
               (response_headers_content_type r))
       (\<lambda>(decoded, failed). Inr (\<not> failed,
          r\<lparr>response_body_decoded := decoded, response_body_decode_failure := failed\<rparr>))"

section \<open>Schema and partitions\<close>

definition partition_keys :: headers where
  "partition_keys = [(''year'', ''int''), (''month'', ''int''), (''day'', ''int''), (''hour'', ''int'')]"

definition partition_key_names :: "string list" where
  "partition_key_names = List.map fst partition_keys"

definition partition_path_from_datetime :: "datetime \<Rightarrow> bool \<Rightarrow> string" where
  "partition_path_from_datetime t pad =
     (case (days_to_ymd (wall t div us_per_day), clock_parts (wall t mod us_per_day)) of
        ((y, m, d), (h, _, _, _)) \<Rightarrow>
          if pad
          then ''year='' @ int_str y @ ''/month='' @ zero_pad 2 m @ ''/day='' @ zero_pad 2 d
               @ ''/hour='' @ zero_pad 2 h @ ''/''
          else ''year='' @ int_str y @ ''/month='' @ int_str m @ ''/day='' @ int_str d
               @ ''/hour='' @ int_str h @ ''/'')"

definition partition_column_expression :: "string \<Rightarrow> string res" where
  "partition_column_expression column =
     (if column \<notin> set partition_key_names
      then Inl (PyError ValueErrorC ''ValueError'' (''Invalid partition column name: '' @ column))
      else Inr (column @ ''(timestamp)''))"

definition joined_schema :: headers where
  "joined_schema =
     [(''request_id'', ''string''), (''timestamp'', ''timestamp''),
      (''metadata_published_at'', ''string''), (''metadata_account_id'', ''string''),
      (''metadata_principal'', ''string''), (''metadata_principal_arn'', ''string''),
      (''metadata_project'', ''string''), (''metadata_session_name'', ''string''),
      (''metadata_secret_arn'', ''string''),
      (''request_headers_raw_headers'', ''map<string,string>''),
      (''request_headers_decoded'', ''map<string,string>''),
      (''request_headers_timestamp'', ''timestamp''), (''request_headers_content_type'', ''string''),
      (''request_headers_method'', ''string''), (''request_headers_path'', ''string''),
      (''request_headers_authority'', ''string''), (''request_headers_user_agent'', ''string''),
      (''request_headers_content_encoding'', ''string''),
      (''request_body_body'', ''string''), (''request_body_decoded'', ''string''),
      (''request_body_body_size'', ''bigint''), (''request_body_num_chunks'', ''bigint''),
      (''request_body_truncated'', ''boolean''), (''request_body_timestamp'', ''timestamp''),
      (''response_headers_raw_headers'', ''map<string,string>''),
      (''response_headers_decoded'', ''map<string,string>''),
      (''response_headers_timestamp'', ''timestamp''), (''response_headers_server'', ''string''),
      (''response_headers_status'', ''string''), (''response_headers_content_length'', ''string''),
      (''response_headers_content_type'', ''string''),
      (''response_headers_content_encoding'', ''string''),
      (''response_body_body'', ''string''), (''response_body_decoded'', ''string''),
      (''response_body_body_size'', ''bigint''), (''response_body_num_chunks'', ''bigint''),
      (''response_body_truncated'', ''boolean''), (''response_body_timestamp'', ''timestamp''),
      (''etl_processed_at'', ''string''),
      (''request_headers_decode_failure'', ''boolean''), (''request_body_decode_failure'', ''boolean''),
      (''response_headers_decode_failure'', ''boolean''), (''response_body_decode_failure'', ''boolean''),
      (''year'', ''int''), (''month'', ''int''), (''day'', ''int''), (''hour'', ''int'')]"

section \<open>Decoding is recorded\<close>

lemma body_text_failed: "body_text t = (d, f) \<Longrightarrow> f \<longleftrightarrow> d = None"
  by (auto simp: body_text_def decode_failed_def split: option.splits)

lemma decompress_failed:
  "decompress_b64_body dc b enc ct = Inr (d, f) \<Longrightarrow> f \<longleftrightarrow> d = None"
  unfolding decompress_b64_body_def
  by (auto simp: decode_failed_def dest: body_text_failed split: sum.splits if_splits option.splits)

text \<open>
  A response body that decodes gives back the text and clears the failure flag; one that does
  not leaves no text and sets it, and nothing else of the record changes.
\<close>

theorem decompress_response_outcome:
  assumes "decompress_response_body dc r = Inr (ok, r')"
  shows "response_body_decode_failure r' = (\<not> ok) \<and> (ok \<longleftrightarrow> response_body_decoded r' \<noteq> None)
    \<and> r'\<lparr>response_body_decoded := response_body_decoded r,
         response_body_decode_failure := response_body_decode_failure r\<rparr> = r"
proof -
  obtain t where "decompress_b64_body dc (response_body_body r) (response_headers_content_encoding r)
      (response_headers_content_type r) = Inr (t, \<not> ok)"
    "r' = r\<lparr>response_body_decoded := t, response_body_decode_failure := \<not> ok\<rparr>"
    using assms by (auto simp: decompress_response_body_def bind_r_Inr_iff)
  then show ?thesis using decompress_failed by fastforce
qed

section \<open>The partition path\<close>

lemma nat_str_zero_pad:
  "10 ^ k \<le> n \<or> k = 0 \<Longrightarrow> n < 10 ^ Suc k \<Longrightarrow> nat_str n = zero_pad (Suc k) (int n)"
proof (induction k arbitrary: n)
  case 0
  then show ?case by (simp add: nat_str.simps)
next
  case (Suc k)
  then have "10 \<le> n" using le_trans [of 10 "10 ^ Suc k" n] by simp
  moreover have "10 ^ k \<le> n div 10" "n div 10 < 10 ^ Suc k"
    using Suc.prems by (simp_all add: less_eq_div_iff_mult_less_eq div_less_iff_less_mult mult.commute)
  moreover have "zero_pad (Suc (Suc k)) (int n) = zero_pad (Suc k) (int (n div 10)) @ [digit_char (n mod 10)]"
  proof -
    have "int n div 10 = int (n div 10)" by simp
    moreover have "nat (int n mod 10) = n mod 10" by (simp add: nat_mod_distrib)
    ultimately show ?thesis using zero_pad.simps(2) [of "Suc k" "int n"] by argo
  qed
  moreover have "nat_str n = nat_str (n div 10) @ [digit_char (n mod 10)]"
    using calculation(1) by (subst nat_str.simps) simp
  ultimately show ?case using Suc.IH [of "n div 10"] by metis
qed

lemma int_str_year:
  assumes "1000 \<le> y" "y \<le> 9999"
  shows "int_str y = zero_pad 4 y"
proof -
  have "nat_str (nat y) = zero_pad (Suc 3) (int (nat y))"
    by (rule nat_str_zero_pad) (use assms in auto)
  moreover have "Suc 3 = 4" "int (nat y) = y" using assms by auto
  ultimately show ?thesis using assms by (simp only: int_str_def) auto
qed

text \<open>
  The zero-padded partition path of a time is made of the year, month, day and hour of its ISO
  timestamp, which is where Firehose takes them from.
\<close>

theorem partition_path_matches_iso:
  assumes "datetime_ok t" "1000 \<le> fst (days_to_ymd (wall t div us_per_day))"
  shows "partition_path_from_datetime t True =
    ''year='' @ take 4 (iso_millis t) @ ''/month='' @ take 2 (drop 5 (iso_millis t))
    @ ''/day='' @ take 2 (drop 8 (iso_millis t)) @ ''/hour='' @ take 2 (drop 11 (iso_millis t)) @ ''/''"
proof -
  obtain y m d where ymd: "days_to_ymd (wall t div us_per_day) = (y, m, d)" by (cases "days_to_ymd (wall t div us_per_day)")
  have "0 \<le> wall t div us_per_day" using assms(1)
    by (simp add: datetime_ok_def us_per_day_def pos_imp_zdiv_nonneg_iff)
  then have "y \<le> 9999"
    using days_to_ymd_ok [of "wall t div us_per_day"] assms(1) ymd by (simp add: datetime_ok_def ymd_ok_def)
  then have y: "int_str y = zero_pad 4 y" using assms(2) ymd by (simp add: int_str_year)
  obtain h mi se u where c: "clock_parts (wall t mod us_per_day) = (h, mi, se, u)" by (cases "clock_parts (wall t mod us_per_day)")
  have z: "take n (zero_pad n k @ r) = zero_pad n k" "drop n (zero_pad n k @ r) = r" for n k r by simp_all
  have iso: "iso_millis t = zero_pad 4 y @ ''-'' @ zero_pad 2 m @ ''-'' @ zero_pad 2 d @ ''T'' @ zero_pad 2 h
      @ '':'' @ zero_pad 2 mi @ '':'' @ zero_pad 2 se @ ''.'' @ take 3 (zero_pad 6 (wall t mod us_per_day mod us_per_s)) @ ''Z''"
    using c ymd by (simp add: iso_millis_def Let_def ymd_str_def hms_str_def)
  show ?thesis
    using c ymd y unfolding iso partition_path_from_datetime_def
    by (simp add: take_append drop_append)
qed

theorem partition_path_matches_iso_witness:
  "partition_path_from_datetime (utc_datetime 0) True = ''year=1970/month=01/day=01/hour=00/''
   \<and> iso_millis (utc_datetime 0) = ''1970-01-01T00:00:00.000Z''
   \<and> partition_path_from_datetime (utc_datetime 0) True =
       ''year='' @ take 4 (iso_millis (utc_datetime 0)) @ ''/month='' @ take 2 (drop 5 (iso_millis (utc_datetime 0)))
       @ ''/day='' @ take 2 (drop 8 (iso_millis (utc_datetime 0)))
       @ ''/hour='' @ take 2 (drop 11 (iso_millis (utc_datetime 0))) @ ''/''"
proof -
  have ok: "datetime_ok (utc_datetime 0)" "1000 \<le> fst (days_to_ymd (wall (utc_datetime 0) div us_per_day))"
    by code_simp+
  have "partition_path_from_datetime (utc_datetime 0) True = ''year=1970/month=01/day=01/hour=00/''"
    "iso_millis (utc_datetime 0) = ''1970-01-01T00:00:00.000Z''" by code_simp+
  then show ?thesis using partition_path_matches_iso [OF ok] by blast
qed

definition demo_joined :: joined_log_record where
  "demo_joined = \<lparr>jl_request_id = ''r'', jl_timestamp = ''t'', metadata_published_at = ''p'',
     metadata_account_id = None, metadata_principal = None, metadata_principal_arn = None,
     metadata_project = None, metadata_session_name = None, metadata_secret_arn = None,
     request_headers_raw_headers = [], request_headers_timestamp = ''t'', request_headers_content_type = None,
     request_headers_method = None, request_headers_path = None, request_headers_authority = None,
     request_headers_user_agent = None, request_headers_content_encoding = None, request_body_body = [],
     request_body_body_size = 0, request_body_num_chunks = 1, request_body_truncated = False,
     request_body_timestamp = ''t'', response_headers_raw_headers = [], response_headers_timestamp = ''t'',
     response_headers_server = None, response_headers_status = None, response_headers_content_length = None,
     response_headers_content_type = None, response_headers_content_encoding = None,
     response_body_body = ''YQ=='', response_body_body_size = 1, response_body_num_chunks = 1,
     response_body_truncated = False, response_body_timestamp = ''t'', etl_processed_at = None,
     request_headers_decoded = None, request_body_decoded = None, response_headers_decoded = None,
     response_body_decoded = None, request_headers_decode_failure = False,
     request_body_decode_failure = False, response_headers_decode_failure = False,
     response_body_decode_failure = False, jl_year = None, jl_month = None, jl_day = None, jl_hour = None\<rparr>"

definition no_decoders :: decoders where
  "no_decoders = \<lparr>event_stream = (\<lambda>_. ([], False)), gunzip = (\<lambda>_. None), inflate = (\<lambda>_. None),
     unbrotli = (\<lambda>_. None)\<rparr>"

theorem decompress_response_outcome_witness:
  "\<exists>r'. decompress_response_body no_decoders demo_joined = Inr (True, r')
     \<and> response_body_decoded r' = Some ''a'' \<and> \<not> response_body_decode_failure r'"
proof -
  have "b64decode ''YQ=='' = Inr ''a''" by code_simp
  then obtain r' where r': "decompress_response_body no_decoders demo_joined = Inr (True, r')"
    "response_body_decoded r' = Some ''a''"
    by (simp add: decompress_response_body_def decompress_b64_body_def demo_joined_def decompress_def
        decode_utf8_def str_ok_ascii body_text_def)
  with decompress_response_outcome [OF r'(1)] show ?thesis by blast
qed

end
