(* ===== verification/LogQueue.thy ===== *)
theory LogQueue
  imports "HOL-Library.Multiset"
begin

text \<open>
  The log queue of \<open>relay/logger.py\<close>: a bounded \<open>asyncio.Queue\<close>, a fixed pool of workers, and the
  shutdown by poison pills, under every interleaving.  A step is what one coroutine does between
  two \<open>await\<close>s: a \<open>put\<close> happens when the queue is not full, a \<open>get\<close> when it is not empty.  What a
  worker does with an item (\<open>_publish_message\<close>) is in the theory \<open>Relay\<close>; here it ends, in any way
  that \<open>except Exception\<close> catches.
\<close>

section \<open>State\<close>

datatype ws_direction = ClientToUpstream | UpstreamToClient

record log_item =
  li_request_id :: string
  li_direction :: ws_direction
  li_data :: string
  li_index :: nat

datatype worker = Idle | Busy log_item | Done

text \<open>
  \<open>None\<close> in the queue is a poison pill.  \<open>pills_left\<close> is what \<open>stop\<close> has still to put, once it is
  called.  The ghosts record the items accepted, taken by a worker and dealt with, in order, and how
  many had been accepted when \<open>stop\<close> was called.
\<close>

record log_queue =
  queued :: "log_item option list"
  max_queue_size :: nat
  pool :: "worker list"
  pills_left :: "nat option"
  accepted :: "log_item list"
  taken :: "log_item list"
  published :: "log_item list"
  owed :: nat

text \<open>\<open>LogQueue.__init__\<close> and \<open>start\<close>.\<close>

definition start_queue :: "nat \<Rightarrow> nat \<Rightarrow> log_queue" where
  "start_queue num_workers cap =
     \<lparr>queued = [], max_queue_size = cap, pool = replicate num_workers Idle, pills_left = None,
      accepted = [], taken = [], published = [], owed = 0\<rparr>"

text \<open>\<open>asyncio.Queue.full\<close>: a size of zero is no bound.\<close>

definition queue_full :: "log_queue \<Rightarrow> bool" where
  "queue_full q \<longleftrightarrow> 0 < max_queue_size q \<and> max_queue_size q \<le> length (queued q)"

section \<open>Steps\<close>

definition enqueue :: "log_item \<Rightarrow> log_queue \<Rightarrow> log_queue" where
  "enqueue a q = q\<lparr>queued := queued q @ [Some a], accepted := accepted q @ [a]\<rparr>"

definition call_stop :: "log_queue \<Rightarrow> log_queue" where
  "call_stop q = q\<lparr>pills_left := Some (length (pool q)), owed := length (accepted q)\<rparr>"

definition put_pill :: "nat \<Rightarrow> log_queue \<Rightarrow> log_queue" where
  "put_pill n q = q\<lparr>queued := queued q @ [None], pills_left := Some n\<rparr>"

text \<open>One turn of \<open>_worker\<close> is \<open>get_item\<close> and then \<open>task_done\<close>, or the pill that ends it.\<close>

definition get_item :: "nat \<Rightarrow> log_item \<Rightarrow> log_queue \<Rightarrow> log_queue" where
  "get_item i a q = q\<lparr>queued := tl (queued q), pool := (pool q)[i := Busy a], taken := taken q @ [a]\<rparr>"

definition get_pill :: "nat \<Rightarrow> log_queue \<Rightarrow> log_queue" where
  "get_pill i q = q\<lparr>queued := tl (queued q), pool := (pool q)[i := Done]\<rparr>"

definition task_done :: "nat \<Rightarrow> log_item \<Rightarrow> log_queue \<Rightarrow> log_queue" where
  "task_done i a q = q\<lparr>pool := (pool q)[i := Idle], published := published q @ [a]\<rparr>"

lemmas step_defs = enqueue_def call_stop_def put_pill_def get_item_def get_pill_def task_done_def

inductive drain_step :: "log_queue \<Rightarrow> log_queue \<Rightarrow> bool" where
  pill: "pills_left q = Some (Suc n) \<Longrightarrow> \<not> queue_full q \<Longrightarrow> drain_step q (put_pill n q)"
| get: "i < length (pool q) \<Longrightarrow> pool q ! i = Idle \<Longrightarrow> queued q = Some a # xs \<Longrightarrow> drain_step q (get_item i a q)"
| poison: "i < length (pool q) \<Longrightarrow> pool q ! i = Idle \<Longrightarrow> queued q = None # xs \<Longrightarrow> drain_step q (get_pill i q)"
| finish: "i < length (pool q) \<Longrightarrow> pool q ! i = Busy a \<Longrightarrow> drain_step q (task_done i a q)"

inductive log_step :: "log_queue \<Rightarrow> log_queue \<Rightarrow> bool" where
  accept: "\<not> queue_full q \<Longrightarrow> log_step q (enqueue a q)"
| stop: "pills_left q = None \<Longrightarrow> log_step q (call_stop q)"
| drain: "drain_step q q' \<Longrightarrow> log_step q q'"

inductive_cases drain_stepE: "drain_step q q'"
inductive_cases log_stepE: "log_step q q'"

definition reachable_queue :: "nat \<Rightarrow> nat \<Rightarrow> log_queue \<Rightarrow> bool" where
  "reachable_queue num_workers cap q \<longleftrightarrow> log_step\<^sup>*\<^sup>* (start_queue num_workers cap) q"

text \<open>\<open>stop\<close> returns when \<open>gather\<close> does: every pill is put and every worker has ended.\<close>

definition stopped :: "log_queue \<Rightarrow> bool" where
  "stopped q \<longleftrightarrow> pills_left q = Some 0 \<and> (\<forall>w \<in> set (pool q). w = Done)"

section \<open>Refinement of a first-in first-out channel\<close>

text \<open>
  The specification: a channel holds what was sent and not yet received, and gives it out in order.
\<close>

inductive fifo_step :: "'a list \<times> 'a list \<Rightarrow> 'a list \<times> 'a list \<Rightarrow> bool" where
  send: "fifo_step (pending, received) (pending @ [a], received)"
| receive: "fifo_step (a # pending, received) (pending, received @ [a])"

locale refinement =
  fixes conc :: "'s \<Rightarrow> 's \<Rightarrow> bool" and spec :: "'t \<Rightarrow> 't \<Rightarrow> bool" and view :: "'s \<Rightarrow> 't"
  assumes simulates: "conc s s' \<Longrightarrow> view s' = view s \<or> spec (view s) (view s')"
begin

lemma simulates_runs: "conc\<^sup>*\<^sup>* s s' \<Longrightarrow> spec\<^sup>*\<^sup>* (view s) (view s')"
proof (induction rule: rtranclp_induct)
  case (step t u)
  then show ?case using simulates [OF step.hyps(2)] by (metis rtranclp.rtrancl_into_rtrancl)
qed simp

end

definition items :: "log_item option list \<Rightarrow> log_item list" where
  "items xs = List.map the (filter (\<lambda>x. x \<noteq> None) xs)"

lemma items_simps [simp]:
  "items [] = []" "items (None # xs) = items xs" "items (Some a # xs) = a # items xs"
  "items (xs @ ys) = items xs @ items ys"
  by (simp_all add: items_def)

definition channel :: "log_queue \<Rightarrow> log_item list \<times> log_item list" where
  "channel q = (items (queued q), taken q)"

interpretation log_channel: refinement log_step fifo_step channel
proof
  show "channel q' = channel q \<or> fifo_step (channel q) (channel q')" if "log_step q q'" for q q'
    using that
    by (auto elim!: log_stepE drain_stepE simp: channel_def step_defs intro: fifo_step.intros)
qed

text \<open>
  C12: the log queue refines a first-in first-out channel: whatever producers, workers and shutdown do,
  every run of the queue is a run of the channel, so items reach the workers in the order they were
  accepted, and none is lost, duplicated or invented on the way.
\<close>

theorem log_queue_refines:
  assumes "reachable_queue n cap q"
  shows "fifo_step\<^sup>*\<^sup>* ([], []) (items (queued q), taken q)
    \<and> accepted q = taken q @ items (queued q)"
proof
  have run: "log_step\<^sup>*\<^sup>* (start_queue n cap) q" using assms by (simp add: reachable_queue_def)
  show "fifo_step\<^sup>*\<^sup>* ([], []) (items (queued q), taken q)"
    using log_channel.simulates_runs [OF run] by (simp add: channel_def start_queue_def)
  show "accepted q = taken q @ items (queued q)"
    using run
  proof (induction rule: rtranclp_induct)
    case (step q q')
    then show ?case by (auto elim!: log_stepE drain_stepE simp: step_defs)
  qed (simp add: start_queue_def)
qed

section \<open>Invariants\<close>

definition busy_items :: "worker list \<Rightarrow> log_item list" where
  "busy_items ws = concat (List.map (\<lambda>w. case w of Busy a \<Rightarrow> [a] | _ \<Rightarrow> []) ws)"

definition pills :: "log_item option list \<Rightarrow> nat" where
  "pills xs = length (filter (\<lambda>x. x = None) xs)"

definition ended :: "worker list \<Rightarrow> nat" where
  "ended ws = length (filter (\<lambda>w. w = Done) ws)"

lemma pills_simps [simp]:
  "pills [] = 0" "pills (None # xs) = Suc (pills xs)" "pills (Some a # xs) = pills xs"
  "pills (xs @ ys) = pills xs + pills ys"
  by (simp_all add: pills_def)

lemma busy_items_update:
  "i < length ws \<Longrightarrow> mset (busy_items (ws[i := w])) + mset (busy_items [ws ! i])
     = mset (busy_items ws) + mset (busy_items [w])"
proof (induction ws arbitrary: i)
  case (Cons x ws)
  then show ?case by (cases i) (auto simp: busy_items_def ac_simps)
qed simp

lemma ended_update:
  "i < length ws \<Longrightarrow> ended (ws[i := w]) + ended [ws ! i] = ended ws + ended [w]"
proof (induction ws arbitrary: i)
  case (Cons x ws)
  show ?case
  proof (cases i)
    case (Suc j)
    then show ?thesis using Cons.IH [of j] Cons.prems by (auto simp: ended_def)
  qed (auto simp: ended_def)
qed simp

text \<open>
  Nothing taken is dropped, the bound holds, and the pills, the pills to come and the workers that
  ended make up the pool.
\<close>

definition queue_inv :: "nat \<Rightarrow> nat \<Rightarrow> log_queue \<Rightarrow> bool" where
  "queue_inv n cap q \<longleftrightarrow>
     length (pool q) = n \<and> max_queue_size q = cap \<and> (0 < cap \<longrightarrow> length (queued q) \<le> cap)
     \<and> mset (taken q) = mset (published q) + mset (busy_items (pool q))
     \<and> accepted q = taken q @ items (queued q)
     \<and> pills (queued q) + ended (pool q) + (case pills_left q of None \<Rightarrow> n | Some k \<Rightarrow> k) = n"

lemma queue_inv_start: "queue_inv n cap (start_queue n cap)"
  by (simp add: queue_inv_def start_queue_def busy_items_def ended_def map_replicate_const)

lemma queue_inv_step:
  assumes "log_step q q'" "queue_inv n cap q"
  shows "queue_inv n cap q'"
proof -
  have u: "mset (busy_items ((pool q)[i := w])) + mset (busy_items [pool q ! i])
      = mset (busy_items (pool q)) + mset (busy_items [w])"
    "ended ((pool q)[i := w]) + ended [pool q ! i] = ended (pool q) + ended [w]"
    if "i < length (pool q)" for i w
    using busy_items_update [OF that] ended_update [OF that] by auto
  show ?thesis
    using assms(1)
  proof (cases rule: log_step.cases)
    case (drain)
    then show ?thesis
    proof (cases rule: drain_step.cases)
      case (get i a xs)
      then show ?thesis using assms(2) u [of i "Busy a"]
        by (auto simp: queue_inv_def get_item_def busy_items_def ended_def)
    next
      case (poison i xs)
      then show ?thesis using assms(2) u [of i Done]
        by (auto simp: queue_inv_def get_pill_def busy_items_def ended_def)
    next
      case (finish i a)
      then show ?thesis using assms(2) u [of i Idle]
        by (auto simp: queue_inv_def task_done_def busy_items_def ended_def)
    qed (use assms(2) in \<open>auto simp: queue_inv_def put_pill_def queue_full_def\<close>)
  qed (use assms(2) in \<open>auto simp: queue_inv_def step_defs queue_full_def\<close>)
qed

text \<open>What \<open>stop\<close> owes is ahead of the pills.\<close>

fun before_pill :: "log_item option list \<Rightarrow> nat" where
  "before_pill (Some a # xs) = Suc (before_pill xs)"
| "before_pill _ = 0"

definition owed_inv :: "log_queue \<Rightarrow> bool" where
  "owed_inv q \<longleftrightarrow>
     (pills_left q = None \<longrightarrow> pills (queued q) = 0 \<and> ended (pool q) = 0)
     \<and> (pills_left q \<noteq> None \<longrightarrow> owed q \<le> length (accepted q)
         \<and> owed q \<le> length (taken q) + before_pill (queued q))
     \<and> (0 < ended (pool q) \<longrightarrow> owed q \<le> length (taken q))"

lemma before_pill_append: "before_pill (xs @ ys) = before_pill xs + (if pills xs = 0 then before_pill ys else 0)"
  by (induction xs rule: before_pill.induct) auto

lemma before_pill_items: "pills xs = 0 \<Longrightarrow> before_pill xs = length (items xs)"
  by (induction xs rule: before_pill.induct) auto

lemma owed_inv_start: "owed_inv (start_queue n cap)"
  by (simp add: owed_inv_def start_queue_def ended_def)

lemma owed_inv_step:
  assumes "log_step q q'" "owed_inv q" "queue_inv n cap q"
  shows "owed_inv q'"
proof -
  have u: "ended ((pool q)[i := w]) + ended [pool q ! i] = ended (pool q) + ended [w]"
    if "i < length (pool q)" for i w
    using ended_update [OF that] .
  show ?thesis
    using assms(1)
  proof (cases rule: log_step.cases)
    case (accept a)
    then show ?thesis using assms(2)
      by (auto simp: owed_inv_def enqueue_def before_pill_append)
  next
    case stop
    then show ?thesis using assms(2,3)
      by (auto simp: owed_inv_def call_stop_def before_pill_items queue_inv_def)
  next
    case (drain)
    then show ?thesis
    proof (cases rule: drain_step.cases)
      case (pill k)
      then show ?thesis using assms(2)
        by (auto simp: owed_inv_def put_pill_def before_pill_append)
    next
      case (get i a xs)
      then show ?thesis using assms(2) u [of i "Busy a"]
        by (auto simp: owed_inv_def get_item_def ended_def)
    next
      case (poison i xs)
      then show ?thesis using assms(2) u [of i Done]
        by (auto simp: owed_inv_def get_pill_def ended_def)
    next
      case (finish i a)
      then show ?thesis using assms(2) u [of i Idle]
        by (auto simp: owed_inv_def task_done_def ended_def)
    qed
  qed
qed

lemma reachable_inv:
  assumes "reachable_queue n cap q"
  shows "queue_inv n cap q \<and> owed_inv q"
  using assms unfolding reachable_queue_def
proof (induction rule: rtranclp_induct)
  case base
  then show ?case using queue_inv_start owed_inv_start by blast
next
  case (step q q')
  then show ?case using queue_inv_step owed_inv_step by blast
qed

section \<open>Shutdown\<close>

lemma ended_all: "ended ws = length ws \<longleftrightarrow> (\<forall>w \<in> set ws. w = Done)"
  unfolding ended_def by (metis (mono_tags) filter_True length_filter_less less_irrefl)

lemma busy_items_none: "\<forall>w \<in> set ws. w = Done \<Longrightarrow> busy_items ws = []"
  by (induction ws) (auto simp: busy_items_def)

lemma stopped_exact:
  assumes "reachable_queue n cap q" "stopped q" "0 < n"
  shows "\<exists>late. mset (published q) = mset (take (owed q) (accepted q)) + mset late
    \<and> accepted q = take (owed q) (accepted q) @ late @ items (queued q) \<and> owed q \<le> length (accepted q)"
proof -
  have inv: "queue_inv n cap q" "owed_inv q" using reachable_inv [OF assms(1)] by simp_all
  have all: "\<forall>w \<in> set (pool q). w = Done" using assms(2) by (simp add: stopped_def)
  then have "ended (pool q) = n" using inv(1) ended_all [of "pool q"] by (simp add: queue_inv_def)
  then have le: "owed q \<le> length (taken q)" using inv(2) assms(3) by (simp add: owed_inv_def)
  have acc: "accepted q = taken q @ items (queued q)" using inv(1) by (simp add: queue_inv_def)
  have "mset (published q) = mset (taken q)"
    using inv(1) busy_items_none [OF all] by (simp add: queue_inv_def)
  also have "\<dots> = mset (take (owed q) (taken q)) + mset (drop (owed q) (taken q))"
    by (metis append_take_drop_id mset_append)
  finally have "mset (published q) = mset (take (owed q) (accepted q)) + mset (drop (owed q) (taken q))"
    using acc le by simp
  moreover have "accepted q = take (owed q) (accepted q) @ drop (owed q) (taken q) @ items (queued q)"
    using acc le by simp
  ultimately show ?thesis using acc le by (intro exI [of _ "drop (owed q) (taken q)"]) simp
qed

lemma stopped_dealt_with:
  assumes "reachable_queue n cap q" "stopped q" "0 < n"
  shows "mset (take (owed q) (accepted q)) \<subseteq># mset (published q) \<and> owed q \<le> length (accepted q)"
  using stopped_exact [OF assms] by auto

text \<open>
  C18: with at least one worker, when \<open>stop\<close> returns the workers have dealt with every item accepted
  before it was called, each exactly as often as it was accepted, and beside them only with the first of
  those accepted later, each once too; the rest of these is still in the queue.
\<close>

theorem log_queue_stop_complete:
  assumes "reachable_queue n cap q" "stopped q" "0 < n"
  shows "\<exists>late. mset (published q) = mset (take (owed q) (accepted q)) + mset late
    \<and> accepted q = take (owed q) (accepted q) @ late @ items (queued q) \<and> owed q \<le> length (accepted q)"
  using assms by (rule stopped_exact)

text \<open>A pill to put weighs more than one in the queue, a queued item more than one at work.\<close>

definition drain_measure :: "log_queue \<Rightarrow> nat" where
  "drain_measure q = 3 * length (queued q) + length (busy_items (pool q))
     + (case pills_left q of None \<Rightarrow> 0 | Some k \<Rightarrow> 4 * k)"

lemma length_busy_update:
  "i < length ws \<Longrightarrow> length (busy_items (ws[i := w])) + length (busy_items [ws ! i])
     = length (busy_items ws) + length (busy_items [w])"
  using busy_items_update [of i ws w] by (metis size_mset size_union)

lemma drain_measure_decreases:
  assumes "drain_step q q'"
  shows "drain_measure q' < drain_measure q"
  using assms
proof (cases rule: drain_step.cases)
  case (pill k)
  then show ?thesis by (simp add: drain_measure_def put_pill_def)
next
  case (get i a xs)
  then show ?thesis using length_busy_update [of i "pool q" "Busy a"]
    by (auto simp: drain_measure_def get_item_def busy_items_def split: option.split)
next
  case (poison i xs)
  then show ?thesis using length_busy_update [of i "pool q" Done]
    by (auto simp: drain_measure_def get_pill_def busy_items_def split: option.split)
next
  case (finish i a)
  then show ?thesis using length_busy_update [of i "pool q" Idle]
    by (auto simp: drain_measure_def task_done_def busy_items_def split: option.split)
qed

lemma drain_bounded: "(drain_step ^^ k) q q' \<Longrightarrow> k + drain_measure q' \<le> drain_measure q"
proof (induction k arbitrary: q')
  case (Suc k)
  then show ?case using drain_measure_decreases by (fastforce simp: relcompp_apply)
qed simp

lemma drain_progress:
  assumes "queue_inv n cap q" "pills_left q \<noteq> None" "\<not> stopped q"
  shows "\<exists>q'. drain_step q q'"
proof (cases "\<exists>i a. i < length (pool q) \<and> pool q ! i = Busy a")
  case True
  then show ?thesis by (auto intro: drain_step.finish)
next
  case no_busy: False
  obtain k where k: "pills_left q = Some k" using assms(2) by blast
  show ?thesis
  proof (cases "\<forall>w \<in> set (pool q). w = Done")
    case True
    then have "0 < k" using assms(3) k by (auto simp: stopped_def)
    moreover have "pills (queued q) + k = 0"
      using assms(1) k True ended_all [of "pool q"] by (auto simp: queue_inv_def)
    ultimately show ?thesis by simp
  next
    case False
    then obtain i where i: "i < length (pool q)" "pool q ! i = Idle"
      using no_busy by (metis in_set_conv_nth worker.exhaust)
    show ?thesis
    proof (cases "queued q")
      case Nil
      have "ended (pool q) \<noteq> n" using False assms(1) by (auto simp: queue_inv_def simp flip: ended_all)
      then have "0 < k" using assms(1) k Nil by (auto simp: queue_inv_def)
      then obtain m where "k = Suc m" by (cases k) auto
      moreover have "\<not> queue_full q" using Nil by (auto simp: queue_full_def)
      ultimately show ?thesis using k by (auto intro: drain_step.pill)
    next
      case (Cons x xs)
      then show ?thesis using i by (cases x) (auto intro: drain_step.get drain_step.poison)
    qed
  qed
qed

lemma drain_reachable:
  assumes "reachable_queue n cap q" "drain_step\<^sup>*\<^sup>* q q'"
  shows "reachable_queue n cap q'"
  using assms(2,1)
  by (induction rule: rtranclp_induct)
    (auto simp: reachable_queue_def intro: rtranclp.rtrancl_into_rtrancl log_step.drain)

lemma drain_pills: "drain_step\<^sup>*\<^sup>* q q' \<Longrightarrow> pills_left q \<noteq> None \<Longrightarrow> pills_left q' \<noteq> None"
  by (induction rule: rtranclp_induct) (auto elim!: drain_stepE simp: step_defs)

text \<open>
  C19: once \<open>stop\<close> has been called and no more is enqueued, the shutdown ends: the pool cannot take more
  steps than the bound given, and wherever it can take none, \<open>stop\<close> has returned.  No pill is stuck
  behind a full queue.
\<close>

theorem log_queue_drains:
  assumes "reachable_queue n cap q" "pills_left q \<noteq> None"
  shows "(\<forall>k q'. (drain_step ^^ k) q q' \<longrightarrow> k \<le> drain_measure q)
    \<and> (\<forall>q'. drain_step\<^sup>*\<^sup>* q q' \<and> (\<nexists>q''. drain_step q' q'') \<longrightarrow> stopped q')"
proof (intro conjI allI impI)
  fix k q'
  assume "(drain_step ^^ k) q q'"
  then show "k \<le> drain_measure q" using drain_bounded by fastforce
next
  fix q'
  assume q': "drain_step\<^sup>*\<^sup>* q q' \<and> (\<nexists>q''. drain_step q' q'')"
  then have "queue_inv n cap q'" using reachable_inv [OF drain_reachable [OF assms(1)]] by blast
  then show "stopped q'" using drain_progress drain_pills [of q q'] q' assms(2) by blast
qed

section \<open>A run\<close>

definition demo_item :: log_item where
  "demo_item = \<lparr>li_request_id = ''r'', li_direction = ClientToUpstream, li_data = ''hi'', li_index = 0\<rparr>"

definition demo_stopping :: log_queue where
  "demo_stopping = call_stop (enqueue demo_item (start_queue 1 2))"

definition demo_stopped :: log_queue where
  "demo_stopped = get_pill 0 (task_done 0 demo_item (get_item 0 demo_item (put_pill 0 demo_stopping)))"

lemmas demo_defs = demo_stopped_def demo_stopping_def step_defs start_queue_def

lemma demo_stopping_reachable: "reachable_queue 1 2 demo_stopping"
proof -
  have 1: "log_step (start_queue 1 2) (enqueue demo_item (start_queue 1 2))"
    by (rule log_step.accept) (simp add: queue_full_def start_queue_def)
  have 2: "log_step (enqueue demo_item (start_queue 1 2)) demo_stopping"
    unfolding demo_stopping_def by (rule log_step.stop) (simp add: demo_defs)
  show ?thesis
    unfolding reachable_queue_def
    by (intro converse_rtranclp_into_rtranclp [where r = log_step, OF 1]
        converse_rtranclp_into_rtranclp [where r = log_step, OF 2] rtranclp.rtrancl_refl)
qed

lemma demo_drain: "drain_step\<^sup>*\<^sup>* demo_stopping demo_stopped"
proof -
  let ?q1 = "put_pill 0 demo_stopping"
  let ?q2 = "get_item 0 demo_item ?q1"
  let ?q3 = "task_done 0 demo_item ?q2"
  have 1: "drain_step demo_stopping ?q1"
    by (rule drain_step.pill) (simp_all add: demo_defs queue_full_def)
  have 2: "drain_step ?q1 ?q2"
    by (rule drain_step.get) (simp_all add: demo_defs)
  have 3: "drain_step ?q2 ?q3"
    by (rule drain_step.finish) (simp_all add: demo_defs)
  have 4: "drain_step ?q3 demo_stopped"
    unfolding demo_stopped_def by (rule drain_step.poison) (simp_all add: demo_defs)
  show ?thesis
    by (intro converse_rtranclp_into_rtranclp [where r = drain_step, OF 1]
        converse_rtranclp_into_rtranclp [where r = drain_step, OF 2]
        converse_rtranclp_into_rtranclp [where r = drain_step, OF 3]
        converse_rtranclp_into_rtranclp [where r = drain_step, OF 4] rtranclp.rtrancl_refl)
qed

theorem log_queue_refines_witness:
  "reachable_queue 1 2 demo_stopping \<and> accepted demo_stopping = taken demo_stopping @ items (queued demo_stopping)"
  using demo_stopping_reachable log_queue_refines by blast

theorem log_queue_stop_complete_witness:
  "owed demo_stopped = 1 \<and> accepted demo_stopped = [demo_item] \<and> mset (published demo_stopped) = {#demo_item#}"
proof -
  have r: "reachable_queue 1 2 demo_stopped"
    by (rule drain_reachable [OF demo_stopping_reachable demo_drain])
  have s: "stopped demo_stopped" by (simp add: stopped_def demo_defs)
  have a: "owed demo_stopped = 1" "accepted demo_stopped = [demo_item]" "items (queued demo_stopped) = []"
    by (simp_all add: demo_defs)
  from log_queue_stop_complete [OF r s] a show ?thesis by auto
qed

lemma demo_stopped_final: "\<nexists>q'. drain_step demo_stopped q'"
  by (auto elim!: drain_stepE simp: demo_defs)

theorem log_queue_drains_witness:
  "pills_left demo_stopping \<noteq> None \<and> stopped demo_stopped"
proof -
  have p: "pills_left demo_stopping \<noteq> None" by (simp add: demo_defs)
  with log_queue_drains [OF demo_stopping_reachable p] demo_drain demo_stopped_final show ?thesis by blast
qed

text \<open>
  Only what is accepted before \<open>stop\<close> is safe: an item enqueued behind the pills, by a connection that
  outlived the drain timeout, stays in the queue when \<open>stop\<close> returns and is never published.
\<close>

definition demo_late :: log_queue where
  "demo_late = get_pill 0 (enqueue demo_item (put_pill 0 (call_stop (start_queue 1 2))))"

theorem log_queue_late_item_lost:
  "reachable_queue 1 2 demo_late \<and> stopped demo_late
   \<and> demo_item \<in> set (accepted demo_late) \<and> published demo_late = []"
proof -
  let ?q0 = "start_queue 1 2"
  let ?q1 = "call_stop ?q0"
  let ?q2 = "put_pill 0 ?q1"
  let ?q3 = "enqueue demo_item ?q2"
  note defs = step_defs start_queue_def
  have 1: "log_step ?q0 ?q1" by (rule log_step.stop) (simp add: defs)
  have 2: "log_step ?q1 ?q2"
    by (intro log_step.drain drain_step.pill) (simp_all add: defs queue_full_def)
  have 3: "log_step ?q2 ?q3" by (rule log_step.accept) (simp add: defs queue_full_def)
  have 4: "log_step ?q3 demo_late"
    unfolding demo_late_def by (rule log_step.drain, rule drain_step.poison) (simp_all add: defs)
  have "reachable_queue 1 2 demo_late"
    unfolding reachable_queue_def
    by (intro converse_rtranclp_into_rtranclp [where r = log_step, OF 1]
        converse_rtranclp_into_rtranclp [where r = log_step, OF 2]
        converse_rtranclp_into_rtranclp [where r = log_step, OF 3]
        converse_rtranclp_into_rtranclp [where r = log_step, OF 4] rtranclp.rtrancl_refl)
  then show ?thesis by (simp add: demo_late_def stopped_def defs)
qed

end
