(* ===== verification/Relay.thy ===== *)
theory Relay
  imports App LogQueue
begin

text \<open>
  The WebSocket relay: \<open>relay/auth.py\<close>, the sequential part of \<open>relay/handler.py\<close> and the publishing
  functions of \<open>relay/logger.py\<close>.  The two WebSockets are outside the repository: their operations are
  fields of \<open>'x sockets\<close>.  Header names of the upgrade request are lower case, as ASGI delivers
  them; \<open>str.lower\<close> is that of ASCII, which header names are.
\<close>

section \<open>Sockets\<close>

datatype ws_close_code = NORMAL | GOING_AWAY | INTERNAL_ERROR | TRY_AGAIN_LATER | AUTH_FAILED | FORBIDDEN

fun close_code :: "ws_close_code \<Rightarrow> int" where
  "close_code NORMAL = 1000"
| "close_code GOING_AWAY = 1001"
| "close_code INTERNAL_ERROR = 1011"
| "close_code TRY_AGAIN_LATER = 1013"
| "close_code AUTH_FAILED = 4001"
| "close_code FORBIDDEN = 4003"

text \<open>
  The upgrade request, the operations on the client's socket and on the upstream's, the monotonic
  clock, and what \<open>_relay\<close> returns after whatever it did to the state (its steps are in the theory
  \<open>RelayLoop\<close>).
\<close>

record 'x sockets =
  upgrade_headers :: headers
  query_string :: bytes
  ws_accept :: "('x, unit) eff"
  ws_close :: "int \<Rightarrow> string \<Rightarrow> ('x, unit) eff"
  ws_connect :: "string \<Rightarrow> headers \<Rightarrow> int \<Rightarrow> ('x, unit) eff"
  upstream_close :: "('x, unit) eff"
  monotonic :: "'x \<Rightarrow> rat"
  relay_outcome :: "('x, nat \<times> nat \<times> ws_close_code) eff"

definition header_get :: "headers \<Rightarrow> string \<Rightarrow> string option" where
  "header_get hs k = map_of hs k"

definition passed_over :: "('s, unit) eff \<Rightarrow> ('s, unit) eff" where
  "passed_over m = catchE m (\<lambda>e. if is_Exception e then retE () else raiseE e)"

definition close_ws :: "'x sockets \<Rightarrow> ws_close_code \<Rightarrow> string \<Rightarrow> ('x world, unit) eff" where
  "close_ws sk c reason =
     passed_over (callE (EvWsClose (close_code c) reason) (ws_close sk (close_code c) reason))"

section \<open>Authentication\<close>

definition AUTH_HEADER :: string where
  "AUTH_HEADER = ''authorization''"

record ws_auth_result =
  ws_result :: auth_result
  ws_secret_arn :: json

definition strip_bearer :: "string \<Rightarrow> string" where
  "strip_bearer h = (if py_startswith (py_lower h) ''bearer '' then drop 7 h else h)"

definition ws_auth_failure :: "'x sockets \<Rightarrow> exn \<Rightarrow> ('x world, ws_auth_result option) eff" where
  "ws_auth_failure sk e =
     (let reject = (\<lambda>c reason. bindE (close_ws sk c reason) (\<lambda>_. retE None))
      in if isinstance e [PayloadErrorC, CredentialsErrorC] then reject AUTH_FAILED ''Invalid authorization''
         else if isinstance e [AuthenticationErrorC, FetchSecretErrorC] then reject FORBIDDEN ''Forbidden''
         else if isinstance e [UpstreamServiceErrorC] then reject TRY_AGAIN_LATER ''Service unavailable''
         else if isinstance e [TimeoutErrorC] then reject TRY_AGAIN_LATER ''Authentication timed out''
         else if is_Exception e then reject AUTH_FAILED ''Authentication error''
         else raiseE e)"

definition authenticate_ws ::
  "'x services \<Rightarrow> config \<Rightarrow> 'x sockets \<Rightarrow> string option \<Rightarrow> ('x world, ws_auth_result option) eff" where
  "authenticate_ws svc cfg sk host =
     (case nonblank (header_get (upgrade_headers sk) AUTH_HEADER) of
        None \<Rightarrow> bindE (close_ws sk AUTH_FAILED ''Missing authorization header'') (\<lambda>_. retE None)
      | Some auth_header \<Rightarrow>
          catchE
            (bindE (liftE (from_contents (strip_bearer auth_header) host)) (\<lambda>p.
             bindE (authenticate svc cfg p host) (\<lambda>r.
               retE (Some \<lparr>ws_result = r, ws_secret_arn = secret_arn p\<rparr>))))
            (ws_auth_failure sk))"

section \<open>The upstream\<close>

definition KNOWN_AUTH_HEADERS :: "string list" where
  "KNOWN_AUTH_HEADERS = [''authorization'', ''x-api-key'', ''x-goog-api-key'', ''api-key'']"

definition PROXY_SHARED_SECRET_HEADER :: string where
  "PROXY_SHARED_SECRET_HEADER = ''x-api-key''"

definition BLOCKED_HEADERS :: "string list" where
  "BLOCKED_HEADERS =
     [''connection'', ''upgrade'', ''sec-websocket-key'', ''sec-websocket-version'',
      ''sec-websocket-extensions'', AUTH_HEADER, PROXY_SHARED_SECRET_HEADER, ''host'',
      ''x-forwarded-for'', ''x-forwarded-host'', ''x-forwarded-proto'', ''x-real-ip'']"

definition BLOCKED_HEADER_PREFIX :: string where
  "BLOCKED_HEADER_PREFIX = ''x-portunus-''"

record upstream_target =
  target_name :: string
  target_port :: int
  target_tls :: bool

definition parse_target :: "headers \<Rightarrow> upstream_target option" where
  "parse_target hs =
     (case nonblank (header_get hs ''x-portunus-target-host'') of
        None \<Rightarrow> None
      | Some h \<Rightarrow>
          (case py_int (case header_get hs ''x-portunus-target-port'' of None \<Rightarrow> ''443'' | Some t \<Rightarrow> t) of
             Inl _ \<Rightarrow> None
           | Inr port \<Rightarrow>
               Some \<lparr>target_name = h, target_port = port,
                 target_tls = (py_lower (case header_get hs ''x-portunus-target-use-tls'' of
                                None \<Rightarrow> ''true'' | Some t \<Rightarrow> t) = ''true'')\<rparr>))"

text \<open>
  The credential's header and value.  \<open>AuthResult\<close> declares the three fields as strings, two of
  them optional; every result the service builds has them so.
\<close>

definition as_str :: "json \<Rightarrow> string option" where
  "as_str v = (case v of JStr s \<Rightarrow> Some s | _ \<Rightarrow> None)"

definition resolve_upstream_auth :: "auth_result \<Rightarrow> string \<times> string" where
  "resolve_upstream_auth r =
     ((case nonblank (as_str (output_header r)) of None \<Rightarrow> ''Authorization'' | Some h \<Rightarrow> h),
      (case as_str (output_prefix r) of None \<Rightarrow> ''Bearer '' | Some p \<Rightarrow> p)
        @ (case as_str (api_key r) of None \<Rightarrow> '''' | Some k \<Rightarrow> k))"

definition unlogged_headers :: "string \<Rightarrow> string list" where
  "unlogged_headers auth_header =
     KNOWN_AUTH_HEADERS @ [AUTH_HEADER, PROXY_SHARED_SECRET_HEADER, py_lower auth_header]"

definition header_allowed :: "string list \<Rightarrow> string \<Rightarrow> bool" where
  "header_allowed excluded k \<longleftrightarrow>
     py_lower k \<notin> set excluded \<and> \<not> py_startswith (py_lower k) BLOCKED_HEADER_PREFIX"

text \<open>A dictionary built in a loop over the headers: a later header of the same name replaces the value.\<close>

definition collect_headers :: "(string \<Rightarrow> bool) \<Rightarrow> headers \<Rightarrow> headers" where
  "collect_headers allowed hs = fold (\<lambda>(k, v). dict_set k v) (filter (\<lambda>h. allowed (fst h)) hs) []"

definition build_upstream_headers :: "headers \<Rightarrow> auth_result \<Rightarrow> headers" where
  "build_upstream_headers hs r =
     (let (auth_header, auth_value) = resolve_upstream_auth r;
          excluded = BLOCKED_HEADERS @ [py_lower auth_header]
      in dict_set auth_header auth_value (collect_headers (header_allowed excluded) hs))"

definition build_upstream_uri :: "upstream_target \<Rightarrow> string \<Rightarrow> bytes \<Rightarrow> string res" where
  "build_upstream_uri target path query =
     bind_r (decode_utf8 query) (\<lambda>q.
       Inr ((if target_tls target then ''wss'' else ''ws'') @ ''://'' @ target_name target @ '':''
            @ int_str (target_port target) @ ''/'' @ path @ (if q \<noteq> [] then ''?'' @ q else [])))"

text \<open>\<open>False\<close> when the connection fails.\<close>

definition connect_upstream ::
  "'x sockets \<Rightarrow> upstream_target \<Rightarrow> string \<Rightarrow> auth_result \<Rightarrow> int \<Rightarrow> ('x world, bool) eff" where
  "connect_upstream sk target path r max_size =
     bindE (liftE (build_upstream_uri target path (query_string sk))) (\<lambda>uri.
       (let hs = build_upstream_headers (upgrade_headers sk) r
        in catchE (bindE (callE (EvConnect uri hs max_size) (ws_connect sk uri hs max_size)) (\<lambda>_. retE True))
             (\<lambda>e. if is_Exception e then retE False else raiseE e)))"

section \<open>Logging\<close>

definition publish_best_effort :: "('x world, bool) eff \<Rightarrow> ('x world, unit) eff" where
  "publish_best_effort m = passed_over (bindE m (\<lambda>_. retE ()))"

definition log_ws_headers :: "'x services \<Rightarrow> config \<Rightarrow> string \<Rightarrow> headers \<Rightarrow> ('x world, unit) eff" where
  "log_ws_headers svc cfg request_id hs =
     bindE (generate_iso_timestamp svc) (\<lambda>ts.
       publish_best_effort (publish_request_headers svc cfg request_id hs ts))"

text \<open>\<open>f"{seconds:.1f}"\<close>: the nearest tenth, the even one of two.\<close>

definition tenths :: "rat \<Rightarrow> int" where
  "tenths d =
     (let x = 10 * d; n = \<lfloor>x\<rfloor>; part = x - of_int n
      in if part < 1 / 2 \<or> part = 1 / 2 \<and> even n then n else n + 1)"

definition format_tenths :: "rat \<Rightarrow> string" where
  "format_tenths d =
     (let n = \<bar>tenths d\<bar>
      in (if d < 0 then ''-'' else []) @ int_str (n div 10) @ ''.'' @ int_str (n mod 10))"

definition log_ws_summary ::
  "'x services \<Rightarrow> config \<Rightarrow> string \<Rightarrow> nat \<Rightarrow> nat \<Rightarrow> rat \<Rightarrow> ('x world, unit) eff" where
  "log_ws_summary svc cfg request_id client_messages upstream_messages duration =
     bindE (generate_iso_timestamp svc) (\<lambda>ts.
       publish_best_effort (publish_response_headers svc cfg request_id
         [(''x-ws-client-messages'', nat_str client_messages),
          (''x-ws-upstream-messages'', nat_str upstream_messages),
          (''x-ws-duration-seconds'', format_tenths duration),
          (''x-ws-type'', ''websocket-summary'')] ts))"

text \<open>One message: every chunk is tried, whatever becomes of the others.\<close>

fun publish_all ::
  "(bytes \<Rightarrow> nat \<Rightarrow> nat \<Rightarrow> ('x world, bool) eff) \<Rightarrow> nat \<Rightarrow> nat \<Rightarrow> bytes list \<Rightarrow> ('x world, unit) eff" where
  "publish_all publish num_chunks chunk_id [] = retE ()"
| "publish_all publish num_chunks chunk_id (c # cs) =
     bindE (publish_best_effort (publish c chunk_id num_chunks)) (\<lambda>_.
       publish_all publish num_chunks (Suc chunk_id) cs)"

definition publish_message :: "'x services \<Rightarrow> config \<Rightarrow> log_item \<Rightarrow> ('x world, unit) eff" where
  "publish_message svc cfg item =
     bindE (generate_iso_timestamp svc) (\<lambda>ts.
     bindE (liftE (chunk_body_data cfg (li_data item) None)) (\<lambda>chunks0.
       (let num_chunks = max (length chunks0) 1;
            chunks = (if chunks0 = [] then [[]] else chunks0);
            publish = (case li_direction item of
                         ClientToUpstream \<Rightarrow> (\<lambda>c. publish_request_body svc cfg (li_request_id item) c ts)
                       | UpstreamToClient \<Rightarrow> (\<lambda>c. publish_response_body svc cfg (li_request_id item) c ts))
        in publish_all publish num_chunks 0 chunks)))"

definition logged_upgrade_headers :: "headers \<Rightarrow> auth_result \<Rightarrow> string \<Rightarrow> headers" where
  "logged_upgrade_headers hs r upstream_host =
     dict_set ''authority'' upstream_host
       (collect_headers (header_allowed (unlogged_headers (fst (resolve_upstream_auth r)))) hs)"

definition publish_connection_metadata ::
  "'x services \<Rightarrow> config \<Rightarrow> 'x sockets \<Rightarrow> ws_auth_result \<Rightarrow> string \<Rightarrow> string \<Rightarrow> ('x world, unit) eff" where
  "publish_connection_metadata svc cfg sk a request_id upstream_host =
     bindE (log_ws_headers svc cfg request_id
              (logged_upgrade_headers (upgrade_headers sk) (ws_result a) upstream_host)) (\<lambda>_.
       publish_best_effort
         (bindE (generate_iso_timestamp svc) (\<lambda>ts.
            publish_metadata svc cfg request_id ts (PrincipalInfo_to_dict (res_principal (ws_result a)))
              (ws_secret_arn a))))"

section \<open>A connection\<close>

definition relay_connection ::
  "'x services \<Rightarrow> config \<Rightarrow> 'x sockets \<Rightarrow> rat \<Rightarrow> string \<Rightarrow> ('x world, unit) eff" where
  "relay_connection svc cfg sk start request_id =
     bindE (quietE (relay_outcome sk)) (\<lambda>(client_msgs, upstream_msgs, code).
     bindE (getE (\<lambda>w. monotonic sk (ext w) - start)) (\<lambda>duration.
     bindE (log_ws_summary svc cfg request_id client_msgs upstream_msgs duration) (\<lambda>_.
     bindE (passed_over (callE EvUpstreamClose (upstream_close sk))) (\<lambda>_.
       close_ws sk code ''''))))"

definition handle_ws_connection ::
  "'x services \<Rightarrow> config \<Rightarrow> 'x sockets \<Rightarrow> string \<Rightarrow> string \<Rightarrow> ('x world, unit) eff" where
  "handle_ws_connection svc cfg sk path request_id =
     (case parse_target (upgrade_headers sk) of
        None \<Rightarrow> close_ws sk INTERNAL_ERROR ''WebSocket relay not configured''
      | Some target \<Rightarrow>
          bindE (authenticate_ws svc cfg sk (Some (target_name target))) (\<lambda>auth.
            case auth of
              None \<Rightarrow> retE ()
            | Some a \<Rightarrow>
                bindE (callE EvWsAccept (ws_accept sk)) (\<lambda>_.
                bindE (getE (\<lambda>w. monotonic sk (ext w))) (\<lambda>start.
                bindE (publish_connection_metadata svc cfg sk a request_id (target_name target)) (\<lambda>_.
                bindE (connect_upstream sk target path (ws_result a)
                         (max_message_size (cfg_relay cfg))) (\<lambda>connected.
                  if connected then relay_connection svc cfg sk start request_id
                  else callE (EvWsClose (close_code INTERNAL_ERROR) ''Upstream connection failed'')
                         (ws_close sk (close_code INTERNAL_ERROR) ''Upstream connection failed'')))))))"

section \<open>Headers\<close>

lemmas keys_dict_set' = keys_dict_set [unfolded list.set_map]

lemma map_of_fold_dict_set:
  "map_of (fold (\<lambda>(k, v). dict_set k v) kvs d) = map_of d ++ map_of (rev kvs)"
  by (induction kvs arbitrary: d) (auto simp: map_add_def fun_eq_iff split: option.split)

lemma keys_fold_dict_set:
  "fst ` set (fold (\<lambda>(k, v). dict_set k v) kvs d) = fst ` set d \<union> fst ` set kvs"
  by (induction kvs arbitrary: d) (simp_all add: keys_dict_set' split_beta)


lemma map_of_filter_key: "map_of (filter (\<lambda>h. P (fst h)) hs) k = (if P k then map_of hs k else None)"
  by (induction hs) auto

lemma collect_headers_lookup:
  "map_of (collect_headers allowed hs) k = (if allowed k then map_of (rev hs) k else None)"
  by (simp add: collect_headers_def map_of_fold_dict_set rev_filter map_of_filter_key)

lemma collect_headers_keys: "fst ` set (collect_headers allowed hs) = {k \<in> fst ` set hs. allowed k}"
  by (auto simp: collect_headers_def keys_fold_dict_set)



text \<open>
  C24: of the upgrade request's headers none that may carry a credential is published: not a known
  authentication header, not the one the credential is sent upstream in, not the proxy's routing
  headers; the others are, and the upstream's host under \<open>authority\<close>.
\<close>

theorem upgrade_headers_logged:
  assumes "resolve_upstream_auth r = (h, v)"
  shows "map_of (logged_upgrade_headers hs r host) ''authority'' = Some host
    \<and> (\<forall>k \<in> fst ` set (logged_upgrade_headers hs r host). k \<noteq> ''authority'' \<longrightarrow>
          py_lower k \<notin> set KNOWN_AUTH_HEADERS \<and> py_lower k \<noteq> py_lower h
          \<and> \<not> py_startswith (py_lower k) BLOCKED_HEADER_PREFIX)
    \<and> (\<forall>k. k \<noteq> ''authority'' \<and> header_allowed (unlogged_headers h) k \<longrightarrow>
          map_of (logged_upgrade_headers hs r host) k = map_of (rev hs) k)"
proof -
  have d: "logged_upgrade_headers hs r host
      = dict_set ''authority'' host (collect_headers (header_allowed (unlogged_headers h)) hs)"
    using assms by (simp add: logged_upgrade_headers_def)
  have k: "set KNOWN_AUTH_HEADERS \<subseteq> set (unlogged_headers h)" "py_lower h \<in> set (unlogged_headers h)"
    by (auto simp: unlogged_headers_def)
  show ?thesis
    unfolding d using k
    by (auto simp: keys_dict_set' collect_headers_lookup collect_headers_keys header_allowed_def simp del: map_of_eq_None_iff)
qed

section \<open>The credential goes where it was authorised for\<close>

fun is_connect :: "event \<Rightarrow> bool" where
  "is_connect (EvConnect _ _ _) = True"
| "is_connect _ = False"

abbreviation quiet :: "event \<Rightarrow> bool" where
  "quiet ev \<equiv> \<not> is_connect ev"

lemma calls_passed_over [calls_rules]: "calls P m \<Longrightarrow> calls P (passed_over m)"
  by (auto simp: passed_over_def intro!: calls_rules split: if_split)

lemma calls_best_effort [calls_rules]: "calls P m \<Longrightarrow> calls P (publish_best_effort m)"
  by (auto simp: publish_best_effort_def intro!: calls_rules)

lemma calls_close_ws [calls_rules]: "calls quiet (close_ws sk c reason)"
  by (auto simp: close_ws_def intro!: calls_rules)

lemma calls_authenticate_quiet: "calls quiet (authenticate svc cfg p host)"
  by (rule calls_weaken [OF calls_authenticate]) (auto simp: auth_event_def elim!: is_connect.elims)

lemma calls_authenticate_ws [calls_rules]: "calls quiet (authenticate_ws svc cfg sk host)"
  unfolding authenticate_ws_def ws_auth_failure_def Let_def
  by (auto intro!: calls_rules calls_authenticate_quiet split: option.split if_split)

lemma calls_timestamp [calls_rules]: "calls P (generate_iso_timestamp svc)"
  by (auto simp: generate_iso_timestamp_def intro!: calls_rules)

lemma calls_kinesis_quiet [calls_rules]: "calls quiet (get_kinesis_client svc)"
  unfolding get_kinesis_client_def by (auto intro!: calls_rules split: if_split)

lemma calls_publish_quiet [calls_rules]: "calls quiet (publish_record svc cfg stream rid rec)"
  unfolding publish_record_def publish_to_kinesis_data_stream_def put_and_check_def publish_failed_def
  by (auto intro!: calls_rules split: option.split if_split)

lemma calls_metadata_quiet [calls_rules]:
  "calls quiet (publish_connection_metadata svc cfg sk a rid host)"
  unfolding publish_connection_metadata_def log_ws_headers_def publish_metadata_def publish_request_headers_def
  by (auto intro!: calls_rules)

lemma calls_relay_quiet [calls_rules]: "calls quiet (relay_connection svc cfg sk start rid)"
  unfolding relay_connection_def log_ws_summary_def publish_response_headers_def
  by (auto intro!: calls_rules split: prod.split)

text \<open>A run that authenticated nobody closed the connection or was cancelled.\<close>

lemma authenticate_ws_Some:
  assumes "authenticate_ws svc cfg sk host w = (Inr (Some a), w')"
  shows "\<exists>h p r. nonblank (header_get (upgrade_headers sk) AUTH_HEADER) = Some h
    \<and> from_contents (strip_bearer h) host = Inr p \<and> authenticate svc cfg p host w = (Inr r, w')
    \<and> a = \<lparr>ws_result = r, ws_secret_arn = secret_arn p\<rparr>"
proof -
  have none: "ws_auth_failure sk e t = (Inr b, t') \<Longrightarrow> b = None" for e b t t'
    by (auto simp: ws_auth_failure_def Let_def bindE_def split: if_splits prod.splits sum.splits)
  show ?thesis
    using assms none unfolding authenticate_ws_def catchE_def
    by (fastforce simp: bindE_def split: option.splits prod.splits sum.splits dest!: bindE_InrD)
qed

definition connects_as :: "'x sockets \<Rightarrow> config \<Rightarrow> upstream_target \<Rightarrow> string \<Rightarrow> auth_result \<Rightarrow> event \<Rightarrow> bool" where
  "connects_as sk cfg t path r ev \<longleftrightarrow>
     (\<exists>uri. build_upstream_uri t path (query_string sk) = Inr uri
        \<and> ev = EvConnect uri (build_upstream_headers (upgrade_headers sk) r) (max_message_size (cfg_relay cfg)))"

lemma calls_connect:
  "calls (\<lambda>ev. is_connect ev \<longrightarrow> connects_as sk cfg t path r ev)
     (connect_upstream sk t path r (max_message_size (cfg_relay cfg)))"
proof (cases "build_upstream_uri t path (query_string sk)")
  case (Inl e)
  then have "connect_upstream sk t path r (max_message_size (cfg_relay cfg)) = liftE (Inl e)"
    by (simp add: connect_upstream_def bindE_def liftE_def)
  then show ?thesis by (simp add: calls_rules)
next
  case (Inr uri)
  have lift: "bindE (liftE (Inr uri)) f = f uri" for f :: "string \<Rightarrow> ('a world, bool) eff"
    by (simp add: bindE_def fun_eq_iff)
  show ?thesis
    unfolding connect_upstream_def Inr lift Let_def
    by (auto intro!: calls_rules simp: connects_as_def Inr split: if_split)
qed

text \<open>
  C6: the relay opens an upstream connection only for a client whose \<open>Authorization\<close> payload
  \<open>authenticate\<close> accepted for the very host it connects to, and the credential headers it sends are
  those of that result: a key is never sent to a host it was not authorised for.
\<close>

theorem relay_credential_host:
  assumes "handle_ws_connection svc cfg sk path rid w = (out, w')" "trace w' = trace w @ evs"
    and "EvConnect uri hs n \<in> set evs"
  shows "\<exists>t h p r w1. parse_target (upgrade_headers sk) = Some t
    \<and> nonblank (header_get (upgrade_headers sk) AUTH_HEADER) = Some h
    \<and> from_contents (strip_bearer h) (Some (target_name t)) = Inr p
    \<and> authenticate svc cfg p (Some (target_name t)) w = (Inr r, w1)
    \<and> build_upstream_uri t path (query_string sk) = Inr uri
    \<and> hs = build_upstream_headers (upgrade_headers sk) r"
proof (cases "parse_target (upgrade_headers sk)")
  case None
  then have "close_ws sk INTERNAL_ERROR ''WebSocket relay not configured'' w = (out, w')"
    using assms(1) by (simp add: handle_ws_connection_def)
  then obtain e where "trace w' = trace w @ e" "list_all quiet e" by (rule callsD [OF calls_close_ws])
  then show ?thesis using assms(2,3) by (auto simp: list_all_iff)
next
  case (Some t)
  obtain res w1 where auth: "authenticate_ws svc cfg sk (Some (target_name t)) w = (res, w1)"
    by (metis surj_pair)
  obtain e1 where e1: "trace w1 = trace w @ e1" "list_all quiet e1"
    by (rule callsD [OF calls_authenticate_ws auth])
  show ?thesis
  proof (cases "\<exists>a. res = Inr (Some a)")
    case False
    then have "w' = w1"
      using assms(1) Some auth by (auto simp: handle_ws_connection_def bindE_def split: sum.splits option.splits)
    then show ?thesis using assms(2,3) e1 by (auto simp: list_all_iff)
  next
    case True
    then obtain a where a: "res = Inr (Some a)" ..
    obtain h p r where r: "nonblank (header_get (upgrade_headers sk) AUTH_HEADER) = Some h"
      "from_contents (strip_bearer h) (Some (target_name t)) = Inr p"
      "authenticate svc cfg p (Some (target_name t)) w = (Inr r, w1)" "ws_result a = r"
      using authenticate_ws_Some [OF auth [unfolded a]] by auto
    let ?P = "\<lambda>ev. is_connect ev \<longrightarrow> connects_as sk cfg t path r ev"
    define k where "k =
      bindE (callE EvWsAccept (ws_accept sk)) (\<lambda>_.
      bindE (getE (\<lambda>w. monotonic sk (ext w))) (\<lambda>start.
      bindE (publish_connection_metadata svc cfg sk a rid (target_name t)) (\<lambda>_.
      bindE (connect_upstream sk t path r (max_message_size (cfg_relay cfg))) (\<lambda>connected.
        if connected then relay_connection svc cfg sk start rid
        else callE (EvWsClose (close_code INTERNAL_ERROR) ''Upstream connection failed'')
               (ws_close sk (close_code INTERNAL_ERROR) ''Upstream connection failed'')))))"
    have k: "k w1 = (out, w')"
      using assms(1) Some auth a r(4) by (simp add: handle_ws_connection_def bindE_Inr k_def)
    have "calls ?P k"
      unfolding k_def
      by (auto intro!: calls_rules calls_connect calls_weaken [OF calls_metadata_quiet]
          calls_weaken [OF calls_relay_quiet] split: if_split)
    then obtain e2 where "trace w' = trace w1 @ e2" "list_all ?P e2" using k by (rule callsD)
    then have "connects_as sk cfg t path r (EvConnect uri hs n)"
      using assms(2,3) e1 by (auto simp: list_all_iff)
    then show ?thesis using Some r by (auto simp: connects_as_def)
  qed
qed

section \<open>A connection of the examples\<close>

definition demo_sockets :: "sim sockets" where
  "demo_sockets =
     \<lparr>upgrade_headers = [(''x-portunus-target-host'', ''api''),
        (''authorization'', ''Bearer '' @ request_payload demo_request), (''accept'', ''a'')],
      query_string = [], ws_accept = retE (), ws_close = (\<lambda>_ _. retE ()), ws_connect = (\<lambda>_ _ _. retE ()),
      upstream_close = retE (), monotonic = (\<lambda>_. 0), relay_outcome = retE (0, 0, NORMAL)\<rparr>"

definition unlogged_cfg :: "config \<Rightarrow> config" where
  "unlogged_cfg cfg = cfg\<lparr>cfg_kinesis := (cfg_kinesis cfg)\<lparr>metadata_stream_name := None,
     request_headers_stream_name := None, response_headers_stream_name := None\<rparr>\<rparr>"

lemma demo_target: "parse_target (upgrade_headers demo_sockets)
    = Some \<lparr>target_name = ''api'', target_port = 443, target_tls = True\<rparr>"
  by code_simp

lemma demo_auth:
  "\<exists>arn w1 caller. authenticate_ws sim_svc cfg demo_sockets (Some ''api'') (sim_world stored_sim)
     = (Inr (Some \<lparr>ws_result = stored_result caller ''sk-abc'', ws_secret_arn = arn\<rparr>), w1)"
proof -
  obtain p where p: "from_contents (request_payload demo_request) (Some ''api'') = Inr p" "is_ascii (raw p)"
    "raw p \<noteq> []" "credentials_is_valid (credentials p)" "expiration (credentials p) = None"
    using demo_wire [of "Some ''api''"] by blast
  obtain w1 caller where a: "authenticate sim_svc cfg p (Some ''api'') (sim_world stored_sim)
      = (Inr (stored_result caller ''sk-abc''), w1)"
    using stored_run [OF p(2-5), of "Some ''api''" cfg, simplified] by blast
  have "nonblank (header_get (upgrade_headers demo_sockets) AUTH_HEADER)
      = Some (''Bearer '' @ request_payload demo_request)"
    by (simp add: nonblank_def header_get_def demo_sockets_def AUTH_HEADER_def)
  moreover have "strip_bearer (''Bearer '' @ t) = t" for t
  proof -
    have "py_lower ''Bearer '' = ''bearer ''" by code_simp
    then have "py_lower (''Bearer '' @ t) = ''bearer '' @ py_lower t" by (simp only: py_lower_append)
    then show ?thesis by (simp add: strip_bearer_def py_startswith_def)
  qed
  ultimately show ?thesis
    using p(1) a by (auto simp: authenticate_ws_def bindE_def catchE_def)
qed

lemma demo_upstream_headers:
  "build_upstream_headers (upgrade_headers demo_sockets) (stored_result caller ''sk-abc'')
    = [(''accept'', ''a''), (''Authorization'', ''Bearer sk-abc'')]"
proof -
  have r: "resolve_upstream_auth (stored_result caller ''sk-abc'') = (''Authorization'', ''Bearer sk-abc'')"
    by (simp add: resolve_upstream_auth_def stored_result_def as_str_def nonblank_def)
  have a: "\<not> header_allowed (BLOCKED_HEADERS @ [py_lower ''Authorization'']) ''x-portunus-target-host''"
    "\<not> header_allowed (BLOCKED_HEADERS @ [py_lower ''Authorization'']) ''authorization''"
    "header_allowed (BLOCKED_HEADERS @ [py_lower ''Authorization'']) ''accept''"
    by code_simp+
  show ?thesis
    using a by (simp add: build_upstream_headers_def r collect_headers_def demo_sockets_def)
qed

lemma demo_connection:
  fixes cfg :: config
  defines "out_headers \<equiv> [(''accept'', ''a''), (''Authorization'', ''Bearer sk-abc'')]"
  shows "\<exists>w1 e1. trace w1 = e1 @ [EvWsAccept, EvConnect ''wss://api:443/v1'' out_headers (max_message_size (cfg_relay cfg)),
        EvUpstreamClose, EvWsClose 1000 '''']
    \<and> handle_ws_connection sim_svc (unlogged_cfg cfg) demo_sockets ''v1'' ''r'' (sim_world stored_sim) = (Inr (), w1)"
proof -
  let ?cfg = "unlogged_cfg cfg"
  let ?t = "\<lparr>target_name = ''api'', target_port = 443, target_tls = True\<rparr>"
  let ?n = "max_message_size (cfg_relay cfg)"
  obtain arn w1 caller where auth: "authenticate_ws sim_svc ?cfg demo_sockets (Some ''api'') (sim_world stored_sim)
     = (Inr (Some \<lparr>ws_result = stored_result caller ''sk-abc'', ws_secret_arn = arn\<rparr>), w1)"
    using demo_auth by blast
  have n: "max_message_size (cfg_relay ?cfg) = ?n" by (simp add: unlogged_cfg_def)
  note quiet_streams = publish_best_effort_def passed_over_def publish_record_def unlogged_cfg_def nonblank_def
    bindE_def catchE_def generate_iso_timestamp_run
  have meta: "publish_connection_metadata sim_svc ?cfg demo_sockets a ''r'' ''api'' w = (Inr (), w)" for a w
    by (simp add: publish_connection_metadata_def log_ws_headers_def publish_metadata_def publish_request_headers_def
        quiet_streams)
  have summ: "log_ws_summary sim_svc ?cfg ''r'' a b d w = (Inr (), w)" for a b d w
    by (simp add: log_ws_summary_def publish_response_headers_def quiet_streams)
  have uri: "build_upstream_uri ?t ''v1'' (query_string demo_sockets) = Inr ''wss://api:443/v1''"
    by code_simp
  define w2 where "w2 = w1\<lparr>trace := trace w1 @ [EvWsAccept, EvConnect ''wss://api:443/v1'' out_headers ?n]\<rparr>"
  have conn: "connect_upstream demo_sockets ?t ''v1'' (stored_result caller ''sk-abc'') ?n
      (w1\<lparr>trace := trace w1 @ [EvWsAccept]\<rparr>) = (Inr True, w2)"
    by (simp add: connect_upstream_def bindE_def uri demo_upstream_headers catchE_def callE_def w2_def out_headers_def)
      (simp add: demo_sockets_def)
  have rel: "relay_connection sim_svc ?cfg demo_sockets d ''r'' w2
      = (Inr (), w2\<lparr>trace := trace w2 @ [EvUpstreamClose, EvWsClose 1000 '''']\<rparr>)" for d
    by (simp add: relay_connection_def quietE_def bindE_def summ passed_over_def catchE_def callE_def close_ws_def
        demo_sockets_def)
  have "handle_ws_connection sim_svc ?cfg demo_sockets ''v1'' ''r'' (sim_world stored_sim)
      = (Inr (), w2\<lparr>trace := trace w2 @ [EvUpstreamClose, EvWsClose 1000 '''']\<rparr>)"
    using rel conn
    by (simp add: handle_ws_connection_def demo_target bindE_def auth callE_def meta n del: demo_upstream_headers)
      (simp add: demo_sockets_def)
  then show ?thesis by (intro exI conjI) (auto simp: w2_def)
qed

theorem relay_credential_host_witness:
  "\<forall>cfg. \<exists>out w' hs. handle_ws_connection sim_svc (unlogged_cfg cfg) demo_sockets ''v1'' ''r'' (sim_world stored_sim)
      = (out, w') \<and> EvConnect ''wss://api:443/v1'' hs (max_message_size (cfg_relay cfg)) \<in> set (trace w')
    \<and> hs = [(''accept'', ''a''), (''Authorization'', ''Bearer sk-abc'')]
    \<and> (\<exists>p r w1. authenticate sim_svc (unlogged_cfg cfg) p (Some ''api'') (sim_world stored_sim) = (Inr r, w1))"
proof
  fix cfg :: config
  let ?hs = "[(''accept'', ''a''), (''Authorization'', ''Bearer sk-abc'')]"
  let ?ev = "EvConnect ''wss://api:443/v1'' ?hs (max_message_size (cfg_relay cfg))"
  obtain w' e1 where tr: "trace w' = e1 @ [EvWsAccept, ?ev, EvUpstreamClose, EvWsClose 1000 '''']"
    and run: "handle_ws_connection sim_svc (unlogged_cfg cfg) demo_sockets ''v1'' ''r'' (sim_world stored_sim) = (Inr (), w')"
    using demo_connection by blast
  have "trace w' = trace (sim_world stored_sim) @ trace w'" by (simp add: sim_world_def)
  moreover have "?ev \<in> set (trace w')" by (simp add: tr)
  ultimately have "\<exists>p r w1. authenticate sim_svc (unlogged_cfg cfg) p (Some ''api'') (sim_world stored_sim) = (Inr r, w1)"
    using relay_credential_host [OF run] by (fastforce simp: demo_target)
  with run tr show "\<exists>out w' hs. handle_ws_connection sim_svc (unlogged_cfg cfg) demo_sockets ''v1'' ''r'' (sim_world stored_sim)
      = (out, w') \<and> EvConnect ''wss://api:443/v1'' hs (max_message_size (cfg_relay cfg)) \<in> set (trace w')
    \<and> hs = ?hs \<and> (\<exists>p r w1. authenticate sim_svc (unlogged_cfg cfg) p (Some ''api'') (sim_world stored_sim) = (Inr r, w1))"
    by auto
qed


theorem upgrade_headers_logged_witness:
  "\<forall>caller. resolve_upstream_auth (stored_result caller ''k'') = (''Authorization'', ''Bearer k'')
    \<and> map_of (logged_upgrade_headers (upgrade_headers demo_sockets) (stored_result caller ''k'') ''api'') ''accept''
       = Some ''a''"
proof
  fix caller
  have r: "resolve_upstream_auth (stored_result caller ''k'') = (''Authorization'', ''Bearer k'')"
    by (simp add: resolve_upstream_auth_def stored_result_def as_str_def nonblank_def)
  have "header_allowed (unlogged_headers ''Authorization'') ''accept''" by code_simp
  moreover have "map_of (rev (upgrade_headers demo_sockets)) ''accept'' = Some ''a''"
    by (simp add: demo_sockets_def)
  ultimately show "resolve_upstream_auth (stored_result caller ''k'') = (''Authorization'', ''Bearer k'')
    \<and> map_of (logged_upgrade_headers (upgrade_headers demo_sockets) (stored_result caller ''k'') ''api'') ''accept''
       = Some ''a''"
    using upgrade_headers_logged [OF r, of "upgrade_headers demo_sockets" "''api''"] r by auto
qed

end
