(* ===== verification/RelayLoop.thy ===== *)
theory RelayLoop
  imports Relay
begin

text \<open>
  \<open>_relay\<close> of \<open>relay/handler.py\<close>: two pumps, one for each direction, run as tasks until one of them
  ends, the lifetime is over or the server drains.  A step is what one task does between two
  \<open>await\<close>s.  A message is its bytes, the text of a text message encoded.  What the sockets deliver and
  whether a send succeeds is left open.
\<close>

section \<open>A pump\<close>

text \<open>
  Waiting for a message, sending it on, queueing its log entry, ended.  \<open>forwarded\<close> and \<open>logged\<close>
  are ghosts: the messages the other side got, and the entries given to the log queue.
\<close>

datatype pump_pc = Receiving | Sending string | Logging string | Ended

record pump =
  pump_pc :: pump_pc
  msg_index :: nat
  forwarded :: "string list"
  logged :: "log_item list"

definition start_pump :: pump where
  "start_pump = \<lparr>pump_pc = Receiving, msg_index = 0, forwarded = [], logged = []\<rparr>"

definition log_entry :: "string \<Rightarrow> ws_direction \<Rightarrow> string \<Rightarrow> nat \<Rightarrow> log_item" where
  "log_entry request_id d m i =
     \<lparr>li_request_id = request_id, li_direction = d, li_data = m, li_index = i\<rparr>"

text \<open>
  \<open>ends\<close> covers a disconnect, a message with neither text nor bytes, every exception the pump
  catches, and its cancellation: from any point of the loop the task is over.
\<close>

inductive pump_step :: "string \<Rightarrow> ws_direction \<Rightarrow> pump \<Rightarrow> pump \<Rightarrow> bool" for request_id d where
  receives: "pump_pc p = Receiving \<Longrightarrow> pump_step request_id d p (p\<lparr>pump_pc := Sending m\<rparr>)"
| sends: "pump_pc p = Sending m \<Longrightarrow>
    pump_step request_id d p (p\<lparr>pump_pc := Logging m, forwarded := forwarded p @ [m]\<rparr>)"
| logs: "pump_pc p = Logging m \<Longrightarrow>
    pump_step request_id d p (p\<lparr>pump_pc := Receiving, msg_index := Suc (msg_index p),
      logged := logged p @ [log_entry request_id d m (msg_index p)]\<rparr>)"
| ends: "pump_pc p \<noteq> Ended \<Longrightarrow> pump_step request_id d p (p\<lparr>pump_pc := Ended\<rparr>)"

inductive_cases pump_stepE: "pump_step request_id d p p'"

text \<open>
  The log of a direction is what was forwarded, in order and numbered from 0, short of at most the
  message whose entry the pump had not queued when it ended.
\<close>

definition pump_inv :: "string \<Rightarrow> ws_direction \<Rightarrow> pump \<Rightarrow> bool" where
  "pump_inv request_id d p \<longleftrightarrow>
     logged p = List.map (\<lambda>i. log_entry request_id d (forwarded p ! i) i) [0..<msg_index p]
     \<and> msg_index p \<le> length (forwarded p) \<and> length (forwarded p) \<le> Suc (msg_index p)
     \<and> (pump_pc p = Receiving \<longrightarrow> length (forwarded p) = msg_index p)
     \<and> (\<forall>m. pump_pc p = Sending m \<longrightarrow> length (forwarded p) = msg_index p)
     \<and> (\<forall>m. pump_pc p = Logging m \<longrightarrow> length (forwarded p) = Suc (msg_index p) \<and> last (forwarded p) = m)"

lemma pump_inv_start: "pump_inv request_id d start_pump"
  by (simp add: pump_inv_def start_pump_def)

lemma nth_snoc_upt:
  "n \<le> length xs \<Longrightarrow> List.map (\<lambda>i. f ((xs @ [x]) ! i) i) [0..<n] = List.map (\<lambda>i. f (xs ! i) i) [0..<n]"
  by (simp add: nth_append)

lemma pump_inv_step:
  assumes "pump_step request_id d p p'" "pump_inv request_id d p"
  shows "pump_inv request_id d p'"
  using assms(1)
proof (cases rule: pump_step.cases)
  case (sends m)
  then show ?thesis using assms(2) by (auto simp: pump_inv_def nth_snoc_upt)
next
  case (logs m)
  then have l: "length (forwarded p) = Suc (msg_index p)" "last (forwarded p) = m"
    using assms(2) by (auto simp: pump_inv_def)
  then have "forwarded p \<noteq> []" by auto
  then have "forwarded p ! msg_index p = m" using l by (simp add: last_conv_nth)
  then show ?thesis using assms(2) logs by (auto simp: pump_inv_def)
qed (use assms(2) in \<open>auto simp: pump_inv_def\<close>)

section \<open>The relay\<close>

text \<open>
  The relay awaits its two tasks with \<open>FIRST_COMPLETED\<close>; when one has ended it cancels the other and
  waits for it.  \<open>closing\<close> is the close code once it has left the block: \<open>outcome\<close> is then what it
  returned.  An expired \<open>asyncio.timeout\<close> or a cancellation ends the wait, and the tasks go on.
\<close>

record relay =
  client_pump :: pump
  upstream_pump :: pump
  outcome :: "(nat \<times> nat \<times> ws_close_code) option"

definition start_relay :: relay where
  "start_relay = \<lparr>client_pump = start_pump, upstream_pump = start_pump, outcome = None\<rparr>"

definition leave :: "ws_close_code \<Rightarrow> relay \<Rightarrow> relay" where
  "leave c r = r\<lparr>outcome := Some (msg_index (client_pump r), msg_index (upstream_pump r), c)\<rparr>"

inductive relay_step :: "string \<Rightarrow> relay \<Rightarrow> relay \<Rightarrow> bool" for request_id where
  client: "pump_step request_id ClientToUpstream (client_pump r) p \<Longrightarrow>
    relay_step request_id r (r\<lparr>client_pump := p\<rparr>)"
| upstream: "pump_step request_id UpstreamToClient (upstream_pump r) p \<Longrightarrow>
    relay_step request_id r (r\<lparr>upstream_pump := p\<rparr>)"
| completed: "outcome r = None \<Longrightarrow> pump_pc (client_pump r) = Ended \<Longrightarrow> pump_pc (upstream_pump r) = Ended \<Longrightarrow>
    relay_step request_id r (leave NORMAL r)"
| interrupted: "outcome r = None \<Longrightarrow> relay_step request_id r (leave GOING_AWAY r)"

inductive_cases relay_stepE: "relay_step request_id r r'"

definition reachable_relay :: "string \<Rightarrow> relay \<Rightarrow> bool" where
  "reachable_relay request_id r \<longleftrightarrow> (relay_step request_id)\<^sup>*\<^sup>* start_relay r"

lemma relay_pump_inv:
  assumes "reachable_relay request_id r"
  shows "pump_inv request_id ClientToUpstream (client_pump r)
    \<and> pump_inv request_id UpstreamToClient (upstream_pump r)"
  using assms unfolding reachable_relay_def
proof (induction rule: rtranclp_induct)
  case base
  then show ?case by (simp add: start_relay_def pump_inv_start)
next
  case (step r r')
  then show ?case by (auto elim!: relay_stepE simp: leave_def intro: pump_inv_step)
qed

text \<open>A pump that has ended stays as it is, so a normal outcome is final.\<close>

lemma ended_pump: "pump_step request_id d p p' \<Longrightarrow> pump_pc p \<noteq> Ended"
  by (auto elim!: pump_stepE)

definition outcome_inv :: "relay \<Rightarrow> bool" where
  "outcome_inv r \<longleftrightarrow>
     (\<forall>c u code. outcome r = Some (c, u, code) \<longrightarrow>
        code \<in> {NORMAL, GOING_AWAY}
        \<and> c \<le> msg_index (client_pump r) \<and> u \<le> msg_index (upstream_pump r)
        \<and> (code = NORMAL \<longrightarrow> pump_pc (client_pump r) = Ended \<and> pump_pc (upstream_pump r) = Ended
            \<and> c = msg_index (client_pump r) \<and> u = msg_index (upstream_pump r)))"

lemma msg_index_mono: "pump_step request_id d p p' \<Longrightarrow> msg_index p \<le> msg_index p'"
  by (auto elim!: pump_stepE)

lemma outcome_inv_step:
  assumes "relay_step request_id r r'" "outcome_inv r"
  shows "outcome_inv r'"
  using assms(1)
proof (cases rule: relay_step.cases)
  case (client p)
  then show ?thesis using assms(2) ended_pump [OF client(2)] msg_index_mono [OF client(2)]
    by (fastforce simp: outcome_inv_def)
next
  case (upstream p)
  then show ?thesis using assms(2) ended_pump [OF upstream(2)] msg_index_mono [OF upstream(2)]
    by (fastforce simp: outcome_inv_def)
qed (auto simp: outcome_inv_def leave_def)

lemma reachable_outcome: "reachable_relay request_id r \<Longrightarrow> outcome_inv r"
  unfolding reachable_relay_def
proof (induction rule: rtranclp_induct)
  case base
  then show ?case by (simp add: start_relay_def outcome_inv_def)
next
  case (step r r')
  then show ?case by (blast intro: outcome_inv_step)
qed

text \<open>
  C22: however the two directions, the lifetime limit and a drain interleave, the log entries of each
  direction are the messages forwarded in it, in order and numbered from 0, all but at most the last;
  and when the relay ends because a side ended, the two counts it returns are the numbers of entries.
\<close>

theorem relay_log_faithful:
  assumes "reachable_relay request_id r"
  shows "List.map li_data (logged (client_pump r)) = take (msg_index (client_pump r)) (forwarded (client_pump r))
    \<and> List.map li_data (logged (upstream_pump r)) = take (msg_index (upstream_pump r)) (forwarded (upstream_pump r))
    \<and> List.map li_index (logged (client_pump r)) = [0..<msg_index (client_pump r)]
    \<and> List.map li_index (logged (upstream_pump r)) = [0..<msg_index (upstream_pump r)]
    \<and> length (forwarded (client_pump r)) \<le> Suc (msg_index (client_pump r))
    \<and> length (forwarded (upstream_pump r)) \<le> Suc (msg_index (upstream_pump r))
    \<and> (\<forall>c u. outcome r = Some (c, u, NORMAL) \<longrightarrow>
          c = length (logged (client_pump r)) \<and> u = length (logged (upstream_pump r)))"
proof -
  have t: "List.map li_data (logged p) = take (msg_index p) (forwarded p)
      \<and> List.map li_index (logged p) = [0..<msg_index p] \<and> length (logged p) = msg_index p
      \<and> length (forwarded p) \<le> Suc (msg_index p)" if "pump_inv request_id d p" for d p
    using that by (auto simp: pump_inv_def log_entry_def comp_def intro!: nth_equalityI)
  then show ?thesis
    using relay_pump_inv [OF assms] reachable_outcome [OF assms] by (auto simp: outcome_inv_def)
qed

section \<open>The lifetime limit does not stop the pumps\<close>

definition demo_logged :: pump where
  "demo_logged = \<lparr>pump_pc = Receiving, msg_index = 1, forwarded = [''hi''],
     logged = [log_entry ''r'' ClientToUpstream ''hi'' 0]\<rparr>"

definition demo_outlived :: relay where
  "demo_outlived = \<lparr>client_pump = demo_logged, upstream_pump = start_pump, outcome = Some (0, 0, GOING_AWAY)\<rparr>"

lemma demo_outlived_reachable: "reachable_relay ''r'' demo_outlived"
proof -
  let ?d = ClientToUpstream
  let ?p1 = "start_pump\<lparr>pump_pc := Sending ''hi''\<rparr>"
  let ?p2 = "?p1\<lparr>pump_pc := Logging ''hi'', forwarded := forwarded ?p1 @ [''hi'']\<rparr>"
  let ?r1 = "start_relay\<lparr>client_pump := ?p1\<rparr>"
  let ?r2 = "leave GOING_AWAY ?r1"
  let ?r3 = "?r2\<lparr>client_pump := ?p2\<rparr>"
  have "pump_step ''r'' ?d start_pump ?p1" by (rule pump_step.receives) (simp add: start_pump_def)
  then have 1: "relay_step ''r'' start_relay ?r1"
    by (intro relay_step.client) (simp add: start_relay_def)
  have 2: "relay_step ''r'' ?r1 ?r2"
    by (rule relay_step.interrupted) (simp add: start_relay_def)
  have "client_pump ?r2 = ?p1" by (simp add: leave_def)
  moreover have "pump_step ''r'' ?d ?p1 ?p2" by (rule pump_step.sends) simp
  ultimately have 3: "relay_step ''r'' ?r2 ?r3" by (intro relay_step.client) simp
  have "pump_step ''r'' ?d ?p2 (?p2\<lparr>pump_pc := Receiving, msg_index := Suc (msg_index ?p2),
      logged := logged ?p2 @ [log_entry ''r'' ?d ''hi'' (msg_index ?p2)]\<rparr>)"
    by (rule pump_step.logs) simp
  then have "pump_step ''r'' ?d (client_pump ?r3) demo_logged"
    by (simp add: demo_logged_def start_pump_def)
  then have "relay_step ''r'' ?r3 (?r3\<lparr>client_pump := demo_logged\<rparr>)"
    by (rule relay_step.client)
  then have 4: "relay_step ''r'' ?r3 demo_outlived"
    by (simp add: demo_outlived_def leave_def start_relay_def start_pump_def)
  show ?thesis
    unfolding reachable_relay_def
    by (intro converse_rtranclp_into_rtranclp [where r = "relay_step ''r''", OF 1]
        converse_rtranclp_into_rtranclp [where r = "relay_step ''r''", OF 2]
        converse_rtranclp_into_rtranclp [where r = "relay_step ''r''", OF 3]
        converse_rtranclp_into_rtranclp [where r = "relay_step ''r''", OF 4] rtranclp.rtrancl_refl)
qed

text \<open>
  After the lifetime limit the relay has returned its counts, but its tasks were not cancelled:
  a message is still forwarded and logged, and the summary does not count it.
\<close>

theorem relay_outlives_timeout:
  "\<exists>r. reachable_relay ''r'' r \<and> outcome r = Some (0, 0, GOING_AWAY)
     \<and> forwarded (client_pump r) = [''hi''] \<and> length (logged (client_pump r)) = 1"
  using demo_outlived_reachable
  by (intro exI [of _ demo_outlived]) (simp add: demo_outlived_def demo_logged_def)

theorem relay_log_faithful_witness:
  "reachable_relay ''r'' demo_outlived
   \<and> List.map li_data (logged (client_pump demo_outlived)) = [''hi'']
   \<and> List.map li_data (logged (client_pump demo_outlived))
     = take (msg_index (client_pump demo_outlived)) (forwarded (client_pump demo_outlived))"
  using demo_outlived_reachable relay_log_faithful [OF demo_outlived_reachable]
  by (simp add: demo_outlived_def demo_logged_def log_entry_def)

end
