(* ===== verification/RelayLog.thy ===== *)
theory RelayLog
  imports RelayLoop
begin

text \<open>
  From the relay to the stream: the module functions of \<open>relay/logger.py\<close> that the relay calls, which put
  a message into the log queue of the theory \<open>LogQueue\<close>, and what \<open>_publish_message\<close> (theory \<open>Relay\<close>) makes
  of it: the records a message leaves on its stream when calls to Kinesis may fail at any point.
\<close>

section \<open>The module's queue\<close>

text \<open>
  \<open>_log_queue\<close> is \<open>None\<close> until the server starts it.  \<open>stop_log_queue\<close> awaits the queue's \<open>stop\<close>
  and clears the variable afterwards: while it waits, the queue still accepts items.
\<close>

definition start_log_queue :: "nat \<Rightarrow> log_queue option" where
  "start_log_queue num_workers = Some (start_queue num_workers 10000)"

text \<open>The startup of \<open>lifespan\<close>: a worker for every connection the relay admits.\<close>

definition lifespan_enter :: "config \<Rightarrow> log_queue option" where
  "lifespan_enter cfg = start_log_queue (nat (relay_max_connections (cfg_relay cfg)))"

lemma lifespan_enter_workers:
  "config_ok cfg \<Longrightarrow> \<exists>q. lifespan_enter cfg = Some q \<and> 1 \<le> length (pool q) \<and> \<not> queue_full q"
proof -
  assume "config_ok cfg"
  then have "1 \<le> relay_max_connections (cfg_relay cfg)" by (simp add: config_ok_def)
  then show ?thesis by (simp add: lifespan_enter_def start_log_queue_def start_queue_def queue_full_def)
qed

definition stop_log_queue :: "log_queue option \<Rightarrow> log_queue option" where
  "stop_log_queue q = map_option call_stop q"

definition log_queue_stopped :: "log_queue option \<Rightarrow> log_queue option" where
  "log_queue_stopped q = (case q of Some lq \<Rightarrow> if stopped lq then None else Some lq | None \<Rightarrow> None)"

definition log_ws_message ::
  "'x services \<Rightarrow> config \<Rightarrow> string \<Rightarrow> ws_direction \<Rightarrow> bytes \<Rightarrow> nat \<Rightarrow> ('x world, unit) eff" where
  "log_ws_message svc cfg request_id d message_data i =
     publish_message svc cfg (log_entry request_id d message_data i)"

text \<open>\<open>None\<close> while the \<open>put\<close> waits for space; otherwise the queue and what the call did.\<close>

definition enqueue_log ::
  "'x services \<Rightarrow> config \<Rightarrow> log_queue option \<Rightarrow> string \<Rightarrow> ws_direction \<Rightarrow> bytes \<Rightarrow> nat
     \<Rightarrow> (log_queue option \<times> ('x world, unit) eff) option" where
  "enqueue_log svc cfg q request_id d message_data i =
     (case q of
        Some lq \<Rightarrow> if queue_full lq then None
                   else Some (Some (enqueue (log_entry request_id d message_data i) lq), retE ())
      | None \<Rightarrow> Some (None, log_ws_message svc cfg request_id d message_data i))"

section \<open>At most one record\<close>

text \<open>\<open>attempts s D m\<close>: on every branch \<open>m\<close> hands the stream \<open>s\<close> at most one record, one of \<open>D\<close>.\<close>

definition one_put :: "string \<Rightarrow> string set \<Rightarrow> event list \<Rightarrow> bool" where
  "one_put s D evs \<longleftrightarrow> puts s evs = [] \<or> (\<exists>d \<in> D. puts s evs = [d])"

definition attempts :: "string \<Rightarrow> string set \<Rightarrow> ('x world, 'a) eff \<Rightarrow> bool" where
  "attempts s D m \<longleftrightarrow> (\<forall>w. \<exists>evs. trace (snd (m w)) = trace w @ evs \<and> one_put s D evs)"

lemma one_put_append:
  "list_all (\<lambda>ev. \<not> is_put ev) e \<Longrightarrow> one_put s D (e @ evs) = one_put s D evs"
  "list_all (\<lambda>ev. \<not> is_put ev) e \<Longrightarrow> one_put s D (evs @ e) = one_put s D evs"
  by (simp_all add: one_put_def puts_none)

lemma attempts_none: "calls (\<lambda>ev. \<not> is_put ev) m \<Longrightarrow> attempts s D m"
  unfolding calls_def attempts_def one_put_def using puts_none by blast

lemma attemptsD:
  assumes "attempts s D m" "m w = (r, w')"
  obtains evs where "trace w' = trace w @ evs" "one_put s D evs"
  using assms unfolding attempts_def by (metis snd_conv)

lemma attempts_bind1:
  assumes "calls (\<lambda>ev. \<not> is_put ev) m" "\<And>x w w'. m w = (Inr x, w') \<Longrightarrow> attempts s D (f x)"
  shows "attempts s D (bindE m f)"
  unfolding attempts_def
proof
  fix w
  obtain r w1 e1 where m: "m w = (r, w1)" "trace w1 = trace w @ e1" "list_all (\<lambda>ev. \<not> is_put ev) e1"
    using assms(1) by (rule calls_step)
  show "\<exists>evs. trace (snd (bindE m f w)) = trace w @ evs \<and> one_put s D evs"
  proof (cases r)
    case (Inl e)
    then show ?thesis using m by (intro exI [of _ e1]) (simp add: bindE_def one_put_def puts_none)
  next
    case (Inr x)
    have f: "attempts s D (f x)" using assms(2) m(1) Inr by blast
    obtain e2 where "trace (snd (f x w1)) = trace w1 @ e2" "one_put s D e2"
      by (rule attemptsD [OF f prod.collapse [symmetric]])
    then show ?thesis using m Inr by (intro exI [of _ "e1 @ e2"]) (simp add: bindE_def one_put_append)
  qed
qed

lemma attempts_after:
  assumes "attempts s D m" "m w = (r, w1)" "calls (\<lambda>ev. \<not> is_put ev) n"
  shows "\<exists>evs. trace (snd (n w1)) = trace w @ evs \<and> one_put s D evs"
proof -
  obtain e1 where "trace w1 = trace w @ e1" "one_put s D e1" by (rule attemptsD [OF assms(1,2)])
  moreover obtain e2 where "trace (snd (n w1)) = trace w1 @ e2" "list_all (\<lambda>ev. \<not> is_put ev) e2"
    using assms(3) unfolding calls_def by blast
  ultimately show ?thesis by (intro exI [of _ "e1 @ e2"]) (simp add: one_put_append)
qed

lemma attempts_bind2:
  assumes "attempts s D m" "\<And>x. calls (\<lambda>ev. \<not> is_put ev) (f x)"
  shows "attempts s D (bindE m f)"
  unfolding attempts_def
proof
  fix w
  show "\<exists>evs. trace (snd (bindE m f w)) = trace w @ evs \<and> one_put s D evs"
    using attempts_after [OF assms(1) _ assms(2)] attempts_after [OF assms(1) _ calls_pure(2)]
    by (cases "m w" ; cases "fst (m w)") (fastforce simp: bindE_def raiseE_def)+
qed

lemma attempts_catch:
  assumes "attempts s D m" "\<And>e. calls (\<lambda>ev. \<not> is_put ev) (h e)"
  shows "attempts s D (catchE m h)"
  unfolding attempts_def
proof
  fix w
  show "\<exists>evs. trace (snd (catchE m h w)) = trace w @ evs \<and> one_put s D evs"
    using attempts_after [OF assms(1) _ assms(2)] attempts_after [OF assms(1) _ calls_pure(2)]
    by (cases "m w" ; cases "fst (m w)") (fastforce simp: catchE_def raiseE_def)+
qed

lemma attempts_put: "d \<in> D \<Longrightarrow> attempts s D (callE (EvPutRecord (Some s) d k) op)"
  by (auto simp: attempts_def one_put_def callE_def split: prod.split
      intro!: exI [of _ "[EvPutRecord (Some s) d k]"])

lemma attempts_put_and_check: "d \<in> D \<Longrightarrow> attempts s D (put_and_check svc s d k)"
  unfolding put_and_check_def
  by (intro attempts_bind1 attempts_bind2 attempts_put) (auto intro!: calls_rules)

lemma attempts_stream:
  assumes "json_dumps (JDict d) \<in> D"
  shows "attempts s D (publish_to_kinesis_data_stream svc cfg s d k)"
proof -
  have "attempts s D (catchE (put_and_check svc s (json_dumps (JDict d)) k) publish_failed)"
    using assms unfolding publish_failed_def
    by (intro attempts_catch attempts_put_and_check) (auto intro!: calls_rules)
  moreover have "calls (\<lambda>ev. \<not> is_put ev) (case nonblank (endpoint_url (cfg_aws cfg)) of
      Some _ \<Rightarrow> callE (EvSleep 1) (sleep svc 1) | None \<Rightarrow> retE ())"
    by (auto intro!: calls_rules split: option.split)
  ultimately show ?thesis
    unfolding publish_to_kinesis_data_stream_def
    by (auto intro: attempts_bind1 attempts_none calls_rules)
qed

lemma attempts_body_chunk:
  assumes "nonblank stream = Some s" "str_ok False rid" "is_ascii ts"
    "to_dict = request_body_to_dict \<or> to_dict = response_body_to_dict"
  shows "attempts s {d. body_chunk d = Some (int i, int n, c)}
    (publish_record svc cfg stream rid (\<lambda>pub. Inr (to_dict (chunk_record rid c ts i n pub))))"
proof -
  have "attempts s {d. body_chunk d = Some (int i, int n, c)}
      (bindE (liftE (Inr (to_dict (chunk_record rid c ts i n pub))))
        (\<lambda>d. publish_to_kinesis_data_stream svc cfg s d rid))"
    if "generate_iso_timestamp svc w = (Inr pub, w')" for pub w w'
  proof -
    have "body_chunk (json_dumps (JDict (to_dict (chunk_record rid c ts i n pub)))) = Some (int i, int n, c)"
      using generate_iso_timestamp_ascii [OF that] body_chunk_record [OF assms(2,3) _ assms(4)] by blast
    then show ?thesis by (simp add: bindE_def attempts_stream)
  qed
  moreover have "calls (\<lambda>ev. \<not> is_put ev) (generate_iso_timestamp svc)"
    unfolding generate_iso_timestamp_def by (intro calls_rules)
  ultimately show ?thesis
    unfolding publish_record_def assms(1) by (auto intro: attempts_bind1)
qed

section \<open>What becomes of a message\<close>

lemma attempts_best_effort: "attempts s D m \<Longrightarrow> attempts s D (publish_best_effort m)"
  unfolding publish_best_effort_def passed_over_def
  by (intro attempts_catch attempts_bind2) (auto intro!: calls_rules)

lemma publish_all_attempts:
  assumes "\<And>c i. attempts s {d. body_chunk d = Some (int i, int n, c)} (pub c i n)"
  shows "\<exists>evs ps. trace (snd (publish_all pub n i cs w)) = trace w @ evs
    \<and> List.map body_chunk (puts s evs) = List.map Some ps
    \<and> subseq ps (List.map (\<lambda>(j, c). (int j, int n, c)) (List.enumerate i cs))"
proof (induction cs arbitrary: i w)
  case Nil
  then show ?case by (intro exI [of _ "[]"]) simp
next
  case (Cons c cs)
  obtain r w1 where m: "publish_best_effort (pub c i n) w = (r, w1)" by fastforce
  obtain e1 where e1: "trace w1 = trace w @ e1" "one_put s {d. body_chunk d = Some (int i, int n, c)} e1"
    by (rule attemptsD [OF attempts_best_effort [OF assms] m])
  have "\<exists>p1. List.map body_chunk (puts s e1) = List.map Some p1 \<and> subseq p1 [(int i, int n, c)]"
    using e1(2) exI [of _ "[]"] exI [of _ "[(int i, int n, c)]"] by (auto simp: one_put_def)
  then obtain p1 where p1: "List.map body_chunk (puts s e1) = List.map Some p1" "subseq p1 [(int i, int n, c)]"
    by blast
  let ?rest = "List.map (\<lambda>(j, c). (int j, int n, c)) (List.enumerate (Suc i) cs)"
  show ?case
  proof (cases r)
    case (Inl e)
    then show ?thesis using m e1 p1 list_emb_append_mono [OF p1(2), of "[]" ?rest]
      by (intro exI [of _ e1] exI [of _ p1]) (simp add: bindE_def)
  next
    case (Inr x)
    obtain e2 p2 where "trace (snd (publish_all pub n (Suc i) cs w1)) = trace w1 @ e2"
      "List.map body_chunk (puts s e2) = List.map Some p2" "subseq p2 ?rest"
      using Cons.IH by blast
    then show ?thesis using m e1 p1 Inr list_emb_append_mono [OF p1(2), of p2 ?rest]
      by (intro exI [of _ "e1 @ e2"] exI [of _ "p1 @ p2"]) (simp add: bindE_def)
  qed
qed

lemma publish_all_result: "publish_all pub n i cs w = (Inl e, w') \<Longrightarrow> \<not> is_Exception e"
proof (induction cs arbitrary: i w)
  case (Cons c cs)
  show ?case
  proof (cases "publish_best_effort (pub c i n) w")
    case (Pair r w1)
    then show ?thesis using Cons
      by (cases r) (auto simp: bindE_def publish_best_effort_def passed_over_def catchE_def
          split: prod.splits sum.splits if_splits)
  qed
qed simp

lemma subseq_full:
  assumes "subseq ps qs" "length qs = length ps"
  shows "ps = qs"
  using assms by (simp add: subseq_same_length)

lemma reassemble_some:
  assumes "List.map body_chunk ds = List.map Some ps" "ds \<noteq> []"
    and "subseq ps (List.map (\<lambda>(j, c). (int j, int (length cs), c)) (List.enumerate 0 cs))"
    and "reassemble ds = Some b"
  shows "b = concat cs"
proof -
  let ?full = "List.map (\<lambda>(j, c). (int j, int (length cs), c)) (List.enumerate 0 cs)"
  have f: "List.map_filter body_chunk ds = ps"
    using map_filter_Some [of body_chunk ds id ps] assms(1) by simp
  have "ps \<noteq> []" using assms(1,2) by auto
  then obtain p where "p \<in> set ps" by (cases ps) auto
  then have "p \<in> set ?full" using assms(3) by (blast dest: list_emb_set)
  then have "fst (snd p) = int (length cs)" by auto
  moreover have "fst (snd p) = int (length ps)"
    using assms(4) \<open>p \<in> set ps\<close> by (auto simp: reassemble_def f Let_def list_all_iff split: if_splits)
  ultimately have "ps = ?full" using assms(3) by (intro subseq_full) (simp_all add: length_enumerate)
  then have "List.map body_chunk ds = List.map (\<lambda>(j, c). Some (int j, int (length cs), c)) (List.enumerate 0 cs)"
    using assms(1) by (simp add: case_prod_unfold)
  then show ?thesis using reassemble_chunks assms(4) by force
qed

definition message_stream :: "config \<Rightarrow> ws_direction \<Rightarrow> string option" where
  "message_stream cfg d = nonblank (case d of
     ClientToUpstream \<Rightarrow> request_body_stream_name (cfg_kinesis cfg)
   | UpstreamToClient \<Rightarrow> response_body_stream_name (cfg_kinesis cfg))"

lemma chunk_body_concat:
  assumes "104 \<le> max_record_size (cfg_kinesis cfg)"
  obtains cs where "chunk_body_data cfg b None = Inr cs" "concat cs = b"
proof -
  have "0 < safe_raw_chunk_size (max_record_size (cfg_kinesis cfg))"
    using assms unfolding safe_raw_chunk_size_def by presburger
  then show ?thesis
    using that [of "slices (nat (safe_raw_chunk_size (max_record_size (cfg_kinesis cfg)))) b"]
    by (simp add: chunk_body_data_def concat_slices)
qed

lemma timestamp_bind:
  "bindE (generate_iso_timestamp svc) f w = f (iso_millis (utc_datetime (clock svc (ext w)))) w"
  by (rule bindE_Inr) (rule generate_iso_timestamp_run)

lemma message_step:
  assumes "message_stream cfg (li_direction item) = Some s" "str_ok False (li_request_id item)" "is_ascii ts"
  shows "attempts s {d. body_chunk d = Some (int i, int n, c)}
    ((case li_direction item of
        ClientToUpstream \<Rightarrow> (\<lambda>c. publish_request_body svc cfg (li_request_id item) c ts)
      | UpstreamToClient \<Rightarrow> (\<lambda>c. publish_response_body svc cfg (li_request_id item) c ts)) c i n)"
  using assms unfolding message_stream_def publish_request_body_def publish_response_body_def
  by (auto split: ws_direction.splits intro: attempts_body_chunk)

text \<open>The only records are for the stream \<open>s\<close>, under the partition key \<open>k\<close>.\<close>

definition put_under :: "string \<Rightarrow> string \<Rightarrow> event \<Rightarrow> bool" where
  "put_under s k ev \<longleftrightarrow> (is_put ev \<longrightarrow> (\<exists>d. ev = EvPutRecord (Some s) d k))"

lemma calls_put_under_kinesis [calls_rules]: "calls (put_under s k) (get_kinesis_client svc)"
  by (rule calls_weaken [OF calls_get_kinesis]) (simp add: put_under_def)

lemma calls_put_under [calls_rules]:
  "nonblank stream = Some s \<Longrightarrow> calls (put_under s k) (publish_record svc cfg stream k rec)"
  unfolding publish_record_def publish_to_kinesis_data_stream_def put_and_check_def publish_failed_def
  by (auto simp: put_under_def intro!: calls_rules split: option.split if_split)

lemma calls_publish_all:
  "(\<And>c i. calls P (pub c i n)) \<Longrightarrow> calls P (publish_all pub n i cs)"
  by (induction cs arbitrary: i) (auto intro!: calls_rules)

text \<open>
  C13: whatever fails while a WebSocket message is published, the worker is not stopped by an exception,
  and the log never misquotes.  The only records are for the direction's stream, under the request's id;
  they are, in order and each at most once, chunks of the message: the \<open>j\<close>-th carries the number \<open>j\<close>, the
  count of all chunks and the \<open>j\<close>-th piece of the message, an empty message being one empty piece.  If none
  is missing they reassemble to the message, and if they reassemble, it is to the message.
\<close>

theorem message_log_sound:
  assumes "104 \<le> max_record_size (cfg_kinesis cfg)" "str_ok False (li_request_id item)"
    and "message_stream cfg (li_direction item) = Some s"
    and "publish_message svc cfg item w = (res, w')"
  shows "\<exists>evs chunks cs ps. trace w' = trace w @ evs \<and> chunk_body_data cfg (li_data item) None = Inr chunks
    \<and> cs = (if chunks = [] then [[]] else chunks) \<and> concat cs = li_data item
    \<and> list_all (put_under s (li_request_id item)) evs
    \<and> List.map body_chunk (puts s evs) = List.map Some ps
    \<and> subseq ps (List.map (\<lambda>(j, c). (int j, int (length cs), c)) (List.enumerate 0 cs))
    \<and> (length (puts s evs) = length cs \<longrightarrow> reassemble (puts s evs) = Some (li_data item))
    \<and> (\<forall>b. puts s evs \<noteq> [] \<and> reassemble (puts s evs) = Some b \<longrightarrow> b = li_data item)
    \<and> (\<forall>e. res = Inl e \<longrightarrow> \<not> is_Exception e)"
proof -
  define pub where "pub = (\<lambda>ts. case li_direction item of
      ClientToUpstream \<Rightarrow> (\<lambda>c. publish_request_body svc cfg (li_request_id item) c ts)
    | UpstreamToClient \<Rightarrow> (\<lambda>c. publish_response_body svc cfg (li_request_id item) c ts))"
  obtain chunks0 where c0: "chunk_body_data cfg (li_data item) None = Inr chunks0" "concat chunks0 = li_data item"
    using chunk_body_concat [OF assms(1)] by blast
  define cs where "cs = (if chunks0 = [] then [[]] else chunks0)"
  have n: "max (length chunks0) 1 = length cs" and b: "concat cs = li_data item"
    using c0(2) by (cases chunks0; simp add: cs_def)+
  define ts where "ts = iso_millis (utc_datetime (clock svc (ext w)))"
  have ts: "generate_iso_timestamp svc w = (Inr ts, w)"
    by (simp add: ts_def generate_iso_timestamp_run)
  have run: "publish_all (pub ts) (length cs) 0 cs w = (res, w')"
    using assms(4) unfolding publish_message_def timestamp_bind ts_def [symmetric]
    by (simp add: bindE_def c0(1) Let_def n [simplified] cs_def [symmetric] pub_def)
  have step: "attempts s {d. body_chunk d = Some (int i, int (length cs), c)} (pub ts c i (length cs))" for c i
    unfolding pub_def
    using generate_iso_timestamp_ascii [OF ts] by (intro message_step assms(2,3)) blast
  obtain evs ps where e: "trace w' = trace w @ evs" "List.map body_chunk (puts s evs) = List.map Some ps"
    "subseq ps (List.map (\<lambda>(j, c). (int j, int (length cs), c)) (List.enumerate 0 cs))"
    using publish_all_attempts [of s "length cs" "pub ts", OF step, of 0 cs w] run by auto
  have "reassemble (puts s evs) = Some (li_data item)" if "length (puts s evs) = length cs"
  proof -
    have "length ps = length cs" using arg_cong [OF e(2), of length] that by simp
    then have "ps = List.map (\<lambda>(j, c). (int j, int (length cs), c)) (List.enumerate 0 cs)"
      using e(3) by (intro subseq_full) (simp_all add: length_enumerate)
    then show ?thesis using e(2) b reassemble_chunks [of "puts s evs" cs] by (simp add: case_prod_unfold)
  qed
  moreover have "b' = li_data item" if "puts s evs \<noteq> []" "reassemble (puts s evs) = Some b'" for b'
    using reassemble_some [OF e(2) that(1) e(3) that(2)] b by simp
  moreover have "\<not> is_Exception ex" if "res = Inl ex" for ex
    using publish_all_result [of "pub ts" "length cs" 0 cs w ex w'] run that by simp
  moreover have "list_all (put_under s (li_request_id item)) evs"
  proof -
    have "calls (put_under s (li_request_id item)) (pub ts c i (length cs))" for c i
      using assms(3) unfolding message_stream_def pub_def publish_request_body_def publish_response_body_def
      by (auto intro: calls_put_under split: ws_direction.splits)
    then have "calls (put_under s (li_request_id item)) (publish_all (pub ts) (length cs) 0 cs)"
      by (rule calls_publish_all)
    then obtain evs' where "trace w' = trace w @ evs'" "list_all (put_under s (li_request_id item)) evs'"
      using run by (rule callsD)
    then show ?thesis using e(1) by simp
  qed
  ultimately show ?thesis using e c0(1) b
    by (intro exI [of _ evs] exI [of _ chunks0] exI [of _ cs] exI [of _ ps]) (simp add: cs_def)
qed

lemma kinesis_publish_all:
  assumes "str_ok False rid" "is_ascii ts"
  shows "\<exists>w' evs. publish_all (\<lambda>c. publish_request_body kinesis_svc (logging_cfg cfg) rid c ts) n i cs w
      = (Inr (), w') \<and> trace w' = trace w @ evs \<and> length (puts ''bodies'' evs) = length cs"
proof (induction cs arbitrary: i w)
  case (Cons c cs)
  obtain w1 where w1: "publish_request_body kinesis_svc (logging_cfg cfg) rid c ts i n w = (Inr True, w1)"
    using kinesis_body by blast
  have "nonblank (request_body_stream_name (cfg_kinesis (logging_cfg cfg))) = Some ''bodies''"
    by (simp add: logging_cfg_def nonblank_def)
  from request_body_step [OF w1 this assms] obtain e1 d where
    "trace w1 = trace w @ e1" "puts ''bodies'' e1 = [d]" by blast
  moreover obtain w' e2 where "publish_all (\<lambda>c. publish_request_body kinesis_svc (logging_cfg cfg) rid c ts)
      n (Suc i) cs w1 = (Inr (), w')" "trace w' = trace w1 @ e2" "length (puts ''bodies'' e2) = length cs"
    using Cons.IH by blast
  ultimately show ?case using w1
    by (intro exI [of _ w'] exI [of _ "e1 @ e2"])
      (simp add: publish_best_effort_def passed_over_def bindE_def catchE_def)
qed simp

theorem message_log_sound_witness:
  "\<forall>cfg. \<exists>w' evs. publish_message kinesis_svc (logging_cfg cfg)
        (log_entry ''r1'' ClientToUpstream ''abcdefghijklm'' 0) (sim_world sim0) = (Inr (), w')
    \<and> trace w' = trace (sim_world sim0) @ evs
    \<and> reassemble (puts ''bodies'' evs) = Some ''abcdefghijklm''"
proof
  fix cfg
  let ?cfg = "logging_cfg cfg" and ?item = "log_entry ''r1'' ClientToUpstream ''abcdefghijklm'' 0"
  let ?ts = "iso_millis (utc_datetime (clock kinesis_svc (ext (sim_world sim0))))"
  have m: "max_record_size (cfg_kinesis ?cfg) = 108" by (simp add: logging_cfg_def)
  have s: "message_stream ?cfg (li_direction ?item) = Some ''bodies''"
    by (simp add: message_stream_def log_entry_def logging_cfg_def nonblank_def)
  have chunks: "chunk_body_data ?cfg ''abcdefghijklm'' None = Inr [''abcdef'', ''ghijkl'', ''m'']"
    by (simp add: chunk_body_data_def m safe_raw_chunk_size_def slices.simps)
  obtain w' evs where all: "publish_all (\<lambda>c. publish_request_body kinesis_svc ?cfg ''r1'' c ?ts)
      (Suc (Suc (Suc 0))) 0 [''abcdef'', ''ghijkl'', ''m''] (sim_world sim0) = (Inr (), w')"
    "trace w' = trace (sim_world sim0) @ evs" "length (puts ''bodies'' evs) = 3"
    using kinesis_publish_all [of "''r1''" ?ts cfg "Suc (Suc (Suc 0))" 0 "[''abcdef'', ''ghijkl'', ''m'']" "sim_world sim0"]
    by (auto simp: str_ok_ascii is_ascii_iso_millis simp del: publish_all.simps)
  have run: "publish_message kinesis_svc ?cfg ?item (sim_world sim0) = (Inr (), w')"
    unfolding publish_message_def timestamp_bind
    using all(1) by (simp add: bindE_def log_entry_def chunks del: publish_all.simps)
  have "\<exists>evs. trace w' = trace (sim_world sim0) @ evs
      \<and> (length (puts ''bodies'' evs) = 3 \<longrightarrow> reassemble (puts ''bodies'' evs) = Some ''abcdefghijklm'')"
    using message_log_sound [OF _ _ s run] m chunks by (force simp: log_entry_def str_ok_ascii)
  then show "\<exists>w' evs. publish_message kinesis_svc ?cfg ?item (sim_world sim0) = (Inr (), w')
      \<and> trace w' = trace (sim_world sim0) @ evs \<and> reassemble (puts ''bodies'' evs) = Some ''abcdefghijklm''"
    using run all(2,3) by auto
qed

section \<open>From the relay to the worker\<close>

lemma log_step_accepted:
  assumes "log_step q q'"
  shows "\<exists>xs. accepted q' = accepted q @ xs"
    "pills_left q \<noteq> None \<Longrightarrow> pills_left q' \<noteq> None \<and> owed q' = owed q"
    "pills_left q = None \<Longrightarrow> pills_left q' \<noteq> None \<Longrightarrow> owed q' = length (accepted q)"
  using assms by (auto elim!: log_stepE drain_stepE simp: step_defs)

lemma accepted_before_stop:
  assumes "log_step\<^sup>*\<^sup>* q q'" "pills_left q = None"
  shows "\<exists>xs. accepted q' = accepted q @ xs"
    "pills_left q' \<noteq> None \<longrightarrow> length (accepted q) \<le> owed q'"
  using assms(1)
proof (induction rule: rtranclp_induct)
  case base
  { case 1 then show ?case by simp next case 2 then show ?case using assms(2) by simp }
next
  case (step q1 q2)
  { case 1 then show ?case using step.IH(1) log_step_accepted(1) [OF step.hyps(2)] by auto
  next case 2 then show ?case
      using step.IH log_step_accepted(2,3) [OF step.hyps(2)] by (cases "pills_left q1") auto }
qed

text \<open>
  C23: a message that the relay logs while the queue is running and before \<open>stop\<close> is called is either
  waiting for space or accepted, and whatever then happens, when \<open>stop\<close> returns a worker has dealt with it.
\<close>

theorem enqueued_message_dealt_with:
  assumes "reachable_queue n cap q" "0 < n" "pills_left q = None"
    and "enqueue_log svc cfg (Some q) request_id d m i = Some (Some q1, act)"
    and "log_step\<^sup>*\<^sup>* q1 q2" "stopped q2"
  shows "log_entry request_id d m i \<in> set (published q2)"
proof -
  have q1: "q1 = enqueue (log_entry request_id d m i) q" "\<not> queue_full q"
    using assms(4) by (auto simp: enqueue_log_def split: if_splits)
  then have r1: "reachable_queue n cap q1"
    using assms(1) log_step.accept [OF q1(2)] unfolding reachable_queue_def by (auto intro: rtranclp.rtrancl_into_rtrancl)
  then have r2: "reachable_queue n cap q2" using assms(5) unfolding reachable_queue_def by simp
  have none: "pills_left q1 = None" using assms(3) by (simp add: q1(1) enqueue_def)
  obtain xs where xs: "accepted q2 = accepted q1 @ xs" using accepted_before_stop(1) [OF assms(5) none] ..
  have "pills_left q2 \<noteq> None" using assms(6) by (simp add: stopped_def)
  then have "length (accepted q1) \<le> owed q2" using accepted_before_stop(2) [OF assms(5) none] by simp
  then have "log_entry request_id d m i \<in> set (take (owed q2) (accepted q2))"
    by (simp add: xs q1(1) enqueue_def take_Cons')
  moreover have "mset (take (owed q2) (accepted q2)) \<subseteq># mset (published q2)"
    using stopped_dealt_with [OF r2 assms(6,2)] by simp
  ultimately show ?thesis by (meson mset_subset_eqD set_mset_mset in_multiset_in_set)
qed

theorem enqueued_message_dealt_with_witness:
  "\<forall>svc cfg. enqueue_log svc cfg (Some (start_queue 1 2)) ''r'' ClientToUpstream ''hi'' 0
      = Some (Some (enqueue demo_item (start_queue 1 2)), retE ())
    \<and> stopped demo_stopped \<and> demo_item \<in> set (published demo_stopped)"
proof (intro allI)
  fix svc :: "'a services" and cfg
  let ?q = "start_queue 1 2"
  have item: "log_entry ''r'' ClientToUpstream ''hi'' 0 = demo_item" by (simp add: log_entry_def demo_item_def)
  have q: "reachable_queue 1 2 ?q" by (simp add: reachable_queue_def)
  have e: "enqueue_log svc cfg (Some ?q) ''r'' ClientToUpstream ''hi'' 0 = Some (Some (enqueue demo_item ?q), retE ())"
    by (simp add: enqueue_log_def item queue_full_def start_queue_def)
  have 1: "log_step (enqueue demo_item ?q) demo_stopping"
    unfolding demo_stopping_def by (rule log_step.stop) (simp add: demo_defs)
  have "log_step\<^sup>*\<^sup>* demo_stopping demo_stopped"
    using demo_drain by (induction rule: rtranclp_induct) (auto intro: log_step.drain rtranclp.rtrancl_into_rtrancl)
  with 1 have run: "log_step\<^sup>*\<^sup>* (enqueue demo_item ?q) demo_stopped" by (rule converse_rtranclp_into_rtranclp)
  have none: "pills_left ?q = None" and st: "stopped demo_stopped" by (simp_all add: stopped_def demo_defs)
  show "enqueue_log svc cfg (Some ?q) ''r'' ClientToUpstream ''hi'' 0
      = Some (Some (enqueue demo_item ?q), retE ()) \<and> stopped demo_stopped \<and> demo_item \<in> set (published demo_stopped)"
    using e st enqueued_message_dealt_with [OF q _ none e run st] by (simp add: item)
qed

end
