(* ===== verification/Server.thy ===== *)
theory Server
  imports Relay
begin

text \<open>
  The WebSocket endpoint of \<open>app.py\<close> with its connection limit, how its requests end, and what the
  application does when it shuts down (\<open>lifespan\<close>).  The drain of the log queue is in the theory \<open>LogQueue\<close>; here it is an
  operation.
\<close>

section \<open>The connection limit\<close>

text \<open>
  \<open>_active_ws_connections\<close>.  Between the test and the addition there is no \<open>await\<close>, so a request is
  admitted or rejected in one step; the \<open>finally\<close> clause discards the task.
\<close>

definition admits :: "config \<Rightarrow> nat set \<Rightarrow> bool" where
  "admits cfg active \<longleftrightarrow> int (card active) < relay_max_connections (cfg_relay cfg)"

inductive ws_active :: "config \<Rightarrow> nat set \<Rightarrow> bool" for cfg where
  empty: "ws_active cfg {}"
| admitted: "ws_active cfg active \<Longrightarrow> admits cfg active \<Longrightarrow> ws_active cfg (insert task active)"
| discarded: "ws_active cfg active \<Longrightarrow> ws_active cfg (active - {task})"

definition ws_relay ::
  "'x services \<Rightarrow> config \<Rightarrow> 'x sockets \<Rightarrow> nat set \<Rightarrow> string \<Rightarrow> string option \<Rightarrow> string \<Rightarrow> ('x world, unit) eff" where
  "ws_relay svc cfg sk active path segment fresh_id =
     (if \<not> admits cfg active
      then callE (EvWsClose (close_code TRY_AGAIN_LATER) ''Try again later'')
             (ws_close sk (close_code TRY_AGAIN_LATER) ''Try again later'')
      else handle_ws_connection svc cfg sk path (case segment of Some t \<Rightarrow> t | None \<Rightarrow> fresh_id))"

lemma ws_active_bounded:
  assumes "ws_active cfg active" "0 \<le> relay_max_connections (cfg_relay cfg)"
  shows "finite active \<and> int (card active) \<le> relay_max_connections (cfg_relay cfg)"
  using assms(1)
proof induction
  case empty
  then show ?case using assms(2) by simp
next
  case (admitted active task)
  then show ?case by (simp add: admits_def card_insert_if)
next
  case (discarded active task)
  then show ?case using card_Diff1_le [of active task] by simp
qed

section \<open>Shutdown\<close>

definition lifespan_exit ::
  "'x services \<Rightarrow> config \<Rightarrow> nat set \<Rightarrow> ('x world, unit) eff \<Rightarrow> ('x world, unit) eff" where
  "lifespan_exit svc cfg active stop_log_queue =
     bindE (if active \<noteq> {}
            then callE (EvSleep (of_int (drain_timeout (cfg_relay cfg))))
                   (sleep svc (of_int (drain_timeout (cfg_relay cfg))))
            else retE ()) (\<lambda>_.
     bindE stop_log_queue (\<lambda>_.
     bindE (close_kinesis_client svc) (\<lambda>_.
     bindE (close_redis_client svc) (\<lambda>_.
       mint_aclose svc))))"

definition adapters :: "string list" where
  "adapters = [''anthropic'', ''openai'', ''openrouter'', ''gcp'']"

lemma close_kinesis_done: "close_kinesis_client svc w = (Inr x, w') \<Longrightarrow> \<not> kinesis_client w'"
  by (auto simp: close_kinesis_client_def with_lock_def finallyE_def callE_def bindE_def catchE_def
      split: prod.splits sum.splits if_splits)

lemma close_redis_done:
  "close_redis_client svc w = (Inr x, w') \<Longrightarrow> \<not> redis_client w' \<and> kinesis_client w' = kinesis_client w"
  by (auto simp: close_redis_client_def finallyE_def callE_def bindE_def catchE_def
      split: prod.splits sum.splits if_splits)

lemma http_aclose_done:
  "http_aclose_adapter svc a w = (Inr x, w') \<Longrightarrow>
     set (http_clients w') = set (http_clients w) - {a} \<and> redis_client w' = redis_client w
     \<and> kinesis_client w' = kinesis_client w"
  by (auto simp: http_aclose_adapter_def callE_def bindE_def split: prod.splits sum.splits if_splits)

lemma close_kinesis_http: "http_clients (snd (close_kinesis_client svc w)) = http_clients w"
  by (auto simp: close_kinesis_client_def with_lock_def finallyE_def callE_def bindE_def catchE_def
      split: prod.splits sum.splits)

lemma close_redis_http: "http_clients (snd (close_redis_client svc w)) = http_clients w"
  by (auto simp: close_redis_client_def finallyE_def callE_def bindE_def catchE_def
      split: prod.splits sum.splits)

text \<open>
  When the shutdown returns, no client is left open: not Redis, not Kinesis, and none of the token
  exchanges' HTTP clients.
\<close>

theorem lifespan_exit_closes:
  assumes "lifespan_exit svc cfg active stop_log_queue w = (Inr (), w')"
    and "\<And>v. set (http_clients (snd (stop_log_queue v))) \<subseteq> set adapters"
  shows "\<not> redis_client w' \<and> \<not> kinesis_client w' \<and> http_clients w' = []"
proof -
  obtain w1 w2 w3 w4 where run: "stop_log_queue w1 = (Inr (), w2)" "close_kinesis_client svc w2 = (Inr (), w3)"
    "close_redis_client svc w3 = (Inr (), w4)" "mint_aclose svc w4 = (Inr (), w')"
    using assms(1) unfolding lifespan_exit_def by (auto dest!: bindE_InrD)
  obtain a b c where m: "http_aclose_adapter svc ''anthropic'' w4 = (Inr (), a)"
    "http_aclose_adapter svc ''openai'' a = (Inr (), b)" "http_aclose_adapter svc ''openrouter'' b = (Inr (), c)"
    "http_aclose_adapter svc ''gcp'' c = (Inr (), w')"
    using run(4) unfolding mint_aclose_def by (auto dest!: bindE_InrD)
  have "set (http_clients w4) \<subseteq> set adapters"
    using assms(2) [of w1] close_kinesis_http [of svc w2] close_redis_http [of svc w3] run by simp
  then have "set (http_clients w') = {}"
    using m [THEN http_aclose_done] by (auto simp: adapters_def)
  moreover have "\<not> redis_client w' \<and> \<not> kinesis_client w'"
    using close_kinesis_done [OF run(2)] close_redis_done [OF run(3)] m [THEN http_aclose_done] by simp
  ultimately show ?thesis by simp
qed

section \<open>The client's socket is closed, once and last\<close>

fun is_ws_close :: "event \<Rightarrow> bool" where
  "is_ws_close (EvWsClose _ _) = True"
| "is_ws_close _ = False"

abbreviation keeps_open :: "event \<Rightarrow> bool" where
  "keeps_open ev \<equiv> \<not> is_ws_close ev"

text \<open>The run leaves the socket open but for a last close with one of the reasons \<open>R\<close>.\<close>

definition closes :: "(string \<Rightarrow> bool) \<Rightarrow> event list \<Rightarrow> bool" where
  "closes R evs \<longleftrightarrow>
     (\<exists>before c reason. evs = before @ [EvWsClose (close_code c) reason] \<and> list_all keeps_open before
        \<and> R reason \<and> (reason = '''' \<longrightarrow> before \<noteq> [] \<and> last before = EvUpstreamClose))"

lemma closes_append: "list_all keeps_open es \<Longrightarrow> closes R evs \<Longrightarrow> closes R (es @ evs)"
  unfolding closes_def by (elim exE conjE) (rule_tac x = "es @ before" in exI, auto)

lemma closes_weaken: "closes Q evs \<Longrightarrow> (\<And>r. Q r \<Longrightarrow> R r) \<Longrightarrow> closes R evs"
  unfolding closes_def by blast

lemma close_codes [simp]: "range close_code = {1000, 1001, 1011, 1013, 4001, 4003}"
proof -
  have u: "UNIV = {NORMAL, GOING_AWAY, INTERNAL_ERROR, TRY_AGAIN_LATER, AUTH_FAILED, FORBIDDEN}"
    by (auto intro: ws_close_code.exhaust)
  show ?thesis unfolding u by auto
qed

lemma closes_once [simp]:
  assumes "reason \<noteq> []" "R reason" "n \<in> range close_code"
  shows "closes R [EvWsClose n reason]"
proof -
  obtain c where "n = close_code c" using assms(3) by blast
  then show ?thesis
    unfolding closes_def using assms by (intro exI [of _ "[]"] exI [of _ c] exI [of _ reason]) simp
qed

lemma close_ws_trace: "close_ws sk c reason w = (res, w')
    \<Longrightarrow> trace w' = trace w @ [EvWsClose (close_code c) reason]"
  by (auto simp: close_ws_def passed_over_def catchE_def callE_def split: prod.splits sum.splits if_splits)

lemma open_authenticate: "calls keeps_open (authenticate svc cfg p host)"
  by (rule calls_weaken [OF calls_authenticate]) (auto simp: auth_event_def elim!: is_ws_close.elims)

lemma open_kinesis [calls_rules]: "calls keeps_open (get_kinesis_client svc)"
  unfolding get_kinesis_client_def by (auto intro!: calls_rules split: if_split)

lemma open_publish [calls_rules]: "calls keeps_open (publish_record svc cfg stream rid rec)"
  unfolding publish_record_def publish_to_kinesis_data_stream_def put_and_check_def publish_failed_def
  by (auto intro!: calls_rules split: option.split if_split)

lemma open_metadata: "calls keeps_open (publish_connection_metadata svc cfg sk a rid host)"
  unfolding publish_connection_metadata_def log_ws_headers_def publish_metadata_def publish_request_headers_def
  by (auto intro!: calls_rules)

lemma open_connect: "calls keeps_open (connect_upstream sk t path r n)"
  unfolding connect_upstream_def Let_def by (auto intro!: calls_rules split: if_split)

lemma open_summary: "calls keeps_open (log_ws_summary svc cfg rid m n d)"
  unfolding log_ws_summary_def publish_response_headers_def by (auto intro!: calls_rules)

lemma failure_closes:
  assumes "ws_auth_failure sk e w = (Inr a, w')"
  shows "a = None \<and> (\<exists>evs. trace w' = trace w @ evs \<and> closes ((\<noteq>) '''') evs)"
  using assms unfolding ws_auth_failure_def Let_def
  by (auto split: if_splits dest!: bindE_InrD close_ws_trace)

lemma authenticate_ws_closes:
  assumes "authenticate_ws svc cfg sk host w = (Inr a, w')"
  shows "\<exists>evs. trace w' = trace w @ evs \<and>
    (case a of None \<Rightarrow> closes ((\<noteq>) '''') evs | Some _ \<Rightarrow> list_all keeps_open evs)"
proof (cases "nonblank (header_get (upgrade_headers sk) AUTH_HEADER)")
  case None
  then show ?thesis
    using assms by (auto simp: authenticate_ws_def dest!: bindE_InrD close_ws_trace)
next
  case (Some h)
  define m where "m = bindE (liftE (from_contents (strip_bearer h) host)) (\<lambda>p.
    bindE (authenticate svc cfg p host) (\<lambda>r. retE (Some \<lparr>ws_result = r, ws_secret_arn = secret_arn p\<rparr>)))"
  have run: "catchE m (ws_auth_failure sk) w = (Inr a, w')"
    using assms Some by (simp add: authenticate_ws_def m_def)
  obtain res w1 where m: "m w = (res, w1)" by (metis surj_pair)
  have "calls keeps_open m"
    unfolding m_def by (auto intro!: calls_rules open_authenticate)
  then obtain e1 where e1: "trace w1 = trace w @ e1" "list_all keeps_open e1" using m by (rule callsD)
  show ?thesis
  proof (cases res)
    case (Inl e)
    then have "ws_auth_failure sk e w1 = (Inr a, w')" using run m by (simp add: catchE_def)
    from failure_closes [OF this] show ?thesis using e1 closes_append [OF e1(2)] by auto
  next
    case (Inr b)
    then have "b = a" "w' = w1" using run m by (simp_all add: catchE_def)
    moreover have "b \<noteq> None" using m Inr unfolding m_def by (auto dest!: bindE_InrD)
    ultimately show ?thesis using e1 by auto
  qed
qed

lemma relay_connection_closes:
  assumes "relay_connection svc cfg sk start rid w = (Inr (), w')"
  shows "\<exists>evs. trace w' = trace w @ evs \<and> closes (\<lambda>_. True) evs"
proof -
  obtain m n c w1 d w2 w3 where o: "quietE (relay_outcome sk) w = (Inr (m, n, c), w1)"
    and s: "log_ws_summary svc cfg rid m n d w1 = (Inr (), w2)"
    and u: "passed_over (callE EvUpstreamClose (upstream_close sk)) w2 = (Inr (), w3)"
    and x: "close_ws sk c '''' w3 = (Inr (), w')"
    using assms unfolding relay_connection_def by (auto dest!: bindE_InrD split: prod.splits)
  obtain es where es: "trace w2 = trace w1 @ es" "list_all keeps_open es"
    by (rule callsD [OF open_summary s])
  have "trace w1 = trace w" using o by (auto simp: quietE_def split: prod.splits)
  moreover have "trace w3 = trace w2 @ [EvUpstreamClose]"
    using u by (auto simp: passed_over_def catchE_def callE_def split: prod.splits sum.splits if_splits)
  moreover have "closes (\<lambda>_. True) [EvUpstreamClose, EvWsClose (close_code c) '''']"
    unfolding closes_def by (intro exI [of _ "[EvUpstreamClose]"] exI [of _ c] exI [of _ "''''"]) simp
  ultimately show ?thesis using es closes_append [OF es(2)] close_ws_trace [OF x] by auto
qed

lemma accepted_closes:
  assumes "bindE (callE EvWsAccept (ws_accept sk)) (\<lambda>_.
      bindE (getE (\<lambda>w. monotonic sk (ext w))) (\<lambda>start.
      bindE (publish_connection_metadata svc cfg sk a rid host) (\<lambda>_.
      bindE (connect_upstream sk t path r n) (\<lambda>connected.
        if connected then relay_connection svc cfg sk start rid
        else callE (EvWsClose (close_code INTERNAL_ERROR) ''Upstream connection failed'')
               (ws_close sk (close_code INTERNAL_ERROR) ''Upstream connection failed''))))) w = (Inr (), w')"
  shows "\<exists>evs. trace w' = trace w @ evs \<and> closes (\<lambda>_. True) evs"
proof -
  obtain w1 start w2 b w3 where o: "callE EvWsAccept (ws_accept sk) w = (Inr (), w1)"
    and m: "publish_connection_metadata svc cfg sk a rid host w1 = (Inr (), w2)"
    and c: "connect_upstream sk t path r n w2 = (Inr b, w3)"
    and l: "(if b then relay_connection svc cfg sk start rid
        else callE (EvWsClose (close_code INTERNAL_ERROR) ''Upstream connection failed'')
               (ws_close sk (close_code INTERNAL_ERROR) ''Upstream connection failed'')) w3 = (Inr (), w')"
    using assms by (auto dest!: bindE_InrD)
  obtain e1 where e1: "trace w2 = trace w1 @ e1" "list_all keeps_open e1" by (rule callsD [OF open_metadata m])
  obtain e2 where e2: "trace w3 = trace w2 @ e2" "list_all keeps_open e2" by (rule callsD [OF open_connect c])
  have "trace w1 = trace w @ [EvWsAccept]" using o by (auto simp: callE_def split: prod.splits)
  then have e: "trace w3 = trace w @ (EvWsAccept # e1 @ e2)" "list_all keeps_open (EvWsAccept # e1 @ e2)"
    using e1 e2 by simp_all
  have "\<exists>evs. trace w' = trace w3 @ evs \<and> closes (\<lambda>_. True) evs"
  proof (cases b)
    case True
    then show ?thesis using l by (auto dest: relay_connection_closes)
  next
    case False
    then show ?thesis using l by (auto simp: callE_def split: prod.splits)
  qed
  then show ?thesis using e closes_append [OF e(2)] by auto
qed

lemma handle_closes:
  assumes "handle_ws_connection svc cfg sk path rid w = (Inr (), w')"
  shows "\<exists>evs. trace w' = trace w @ evs \<and> closes (\<lambda>_. True) evs"
proof (cases "parse_target (upgrade_headers sk)")
  case None
  then have "close_ws sk INTERNAL_ERROR ''WebSocket relay not configured'' w = (Inr (), w')"
    using assms by (simp add: handle_ws_connection_def)
  from close_ws_trace [OF this] show ?thesis by (auto)
next
  case (Some t)
  obtain auth w1 where a: "authenticate_ws svc cfg sk (Some (target_name t)) w = (Inr auth, w1)"
    using assms Some by (auto simp: handle_ws_connection_def dest!: bindE_InrD)
  from authenticate_ws_closes [OF a] obtain e1 where e1: "trace w1 = trace w @ e1"
    "case auth of None \<Rightarrow> closes ((\<noteq>) '''') e1 | Some _ \<Rightarrow> list_all keeps_open e1" by blast
  show ?thesis
  proof (cases auth)
    case None
    then have "w' = w1" using assms Some a by (simp add: handle_ws_connection_def bindE_def)
    then show ?thesis using e1 None by (auto intro: closes_weaken)
  next
    case (Some r)
    have "\<exists>evs. trace w' = trace w1 @ evs \<and> closes (\<lambda>_. True) evs"
      by (rule accepted_closes [where a = r and t = t])
        (use assms \<open>parse_target _ = Some t\<close> a Some in \<open>simp add: handle_ws_connection_def bindE_def\<close>)
    then show ?thesis using e1 Some closes_append [of e1] by auto
  qed
qed

text \<open>
  C11: a WebSocket request that returns has closed its socket, once and as its last call, with a code
  of the protocol; and a close without a reason, which ends a relay, comes right after the
  upstream's connection was closed.
\<close>

theorem ws_relay_closes:
  assumes "ws_relay svc cfg sk active path segment fresh_id w = (Inr (), w')"
  shows "\<exists>evs c reason. trace w' = trace w @ evs @ [EvWsClose (close_code c) reason]
    \<and> list_all keeps_open evs \<and> (reason = '''' \<longrightarrow> evs \<noteq> [] \<and> last evs = EvUpstreamClose)"
proof -
  have "\<exists>evs. trace w' = trace w @ evs \<and> closes (\<lambda>_. True) evs"
  proof (cases "admits cfg active")
    case True
    then show ?thesis using assms by (auto simp: ws_relay_def intro: handle_closes)
  next
    case False
    then show ?thesis
      using assms by (auto simp: ws_relay_def callE_def split: prod.splits)
  qed
  then show ?thesis by (auto simp: closes_def)
qed

theorem ws_relay_closes_witness:
  "\<forall>cfg :: config. \<exists>w' before. ws_relay sim_svc
        (unlogged_cfg (cfg\<lparr>cfg_relay := (cfg_relay cfg)\<lparr>relay_max_connections := 1\<rparr>\<rparr>)) demo_sockets {}
        ''v1'' (Some ''r'') ''x'' (sim_world stored_sim) = (Inr (), w')
     \<and> trace w' = before @ [EvUpstreamClose, EvWsClose 1000 []] \<and> list_all keeps_open before"
proof
  fix cfg :: config
  let ?c = "cfg\<lparr>cfg_relay := (cfg_relay cfg)\<lparr>relay_max_connections := 1\<rparr>\<rparr>"
  obtain w' e1 ev where tr: "trace w' = e1 @ [EvWsAccept, ev, EvUpstreamClose, EvWsClose 1000 []]"
    and run: "handle_ws_connection sim_svc (unlogged_cfg ?c) demo_sockets ''v1'' ''r'' (sim_world stored_sim)
      = (Inr (), w')"
    using demo_connection [of ?c] by blast
  have ws: "ws_relay sim_svc (unlogged_cfg ?c) demo_sockets {} ''v1'' (Some ''r'') ''x'' (sim_world stored_sim)
      = (Inr (), w')"
    using run by (simp add: ws_relay_def admits_def unlogged_cfg_def)
  from ws_relay_closes [OF ws] tr have "list_all keeps_open (e1 @ [EvWsAccept, ev])"
    by (auto simp: sim_world_def)
  with ws tr show "\<exists>w' before. ws_relay sim_svc (unlogged_cfg ?c) demo_sockets {} ''v1'' (Some ''r'') ''x''
       (sim_world stored_sim) = (Inr (), w')
     \<and> trace w' = before @ [EvUpstreamClose, EvWsClose 1000 []] \<and> list_all keeps_open before"
    by (intro exI [of _ w'] exI [of _ "e1 @ [EvWsAccept, ev]"] conjI) auto
qed

end
