(* ===== verification/Tracing.thy ===== *)
theory Tracing
  imports Json
begin

text \<open>
  The request's trace context: \<open>parse_trace_header\<close> of \<open>services/xray_service.py\<close>, and what
  \<open>LoggingMiddleware.dispatch\<close> and \<open>StructuredLogFormatter.format\<close> of \<open>logging.py\<close> make of a request
  and of a log record.  The X-Ray recorder and the logging handlers are outside the repository.
\<close>

section \<open>The trace header\<close>

type_synonym trace_context = "string option \<times> string option \<times> bool option"

fun trace_component :: "string \<Rightarrow> trace_context \<Rightarrow> trace_context" where
  "trace_component c (trace_id, parent_id, sampled) =
     (if py_startswith c ''Root='' then (Some (drop 5 c), parent_id, sampled)
      else if py_startswith c ''Parent='' then (trace_id, Some (drop 7 c), sampled)
      else if py_startswith c ''Sampled='' then (trace_id, parent_id, Some (drop 8 c = ''1''))
      else (trace_id, parent_id, sampled))"

definition parse_trace_header :: "string \<Rightarrow> trace_context" where
  "parse_trace_header header =
     (if header = [] then (None, None, None)
      else fold trace_component (py_split CHR '';'' header) (None, None, None))"

text \<open>A header the proxy writes comes apart into what it was written from.\<close>

theorem parse_trace_header_written:
  assumes "CHR '';'' \<notin> set root" "CHR '';'' \<notin> set parent"
  shows "parse_trace_header (''Root='' @ root @ '';Parent='' @ parent @ '';Sampled='' @ (if s then ''1'' else ''0''))
    = (Some root, Some parent, Some s)"
proof -
  have 1: "CHR '';'' \<notin> set (''Root='' @ root)" "CHR '';'' \<notin> set (''Parent='' @ parent)" using assms by auto
  have "py_split CHR '';'' ((''Root='' @ root) @ CHR '';'' # (''Parent='' @ parent) @ CHR '';''
        # ''Sampled='' @ (if s then ''1'' else ''0''))
      = [''Root='' @ root, ''Parent='' @ parent, ''Sampled='' @ (if s then ''1'' else ''0'')]"
    unfolding py_split_append_sep [OF 1(1)] py_split_append_sep [OF 1(2)]
    by (subst py_split_no_sep) auto
  then show ?thesis
    by (simp add: parse_trace_header_def py_startswith_def)
qed

section \<open>The middleware\<close>

record traced_request =
  rq_headers :: "(string \<times> string) list"
  rq_method :: string
  rq_path :: string
  rq_client :: "string option"

definition segment_name :: "string \<Rightarrow> traced_request \<Rightarrow> string" where
  "segment_name title q =
     (let parts = py_split CHR ''/'' (rq_path q)
      in py_lower (List.map (\<lambda>c. if c = CHR '' '' then CHR ''_'' else c) title) @ ''/''
         @ (if 1 < length parts then parts ! 1 else []))"

text \<open>A request without a usable trace id is not sampled.\<close>

definition request_context :: "traced_request \<Rightarrow> string \<times> string option \<times> bool option" where
  "request_context q =
     (case parse_trace_header (case map_of (rq_headers q) ''x-amzn-trace-id'' of None \<Rightarrow> [] | Some h \<Rightarrow> h) of
        (Some (c # cs), parent_id, sampled) \<Rightarrow> (c # cs, parent_id, sampled)
      | (_, parent_id, sampled) \<Rightarrow> (''No-Trace-Id'', parent_id, Some False))"

definition client_ip :: "traced_request \<Rightarrow> string" where
  "client_ip q =
     (case map_of (rq_headers q) ''x-forwarded-for'' of
        Some h \<Rightarrow> hd (py_split CHR '','' h)
      | None \<Rightarrow> (case rq_client q of Some host \<Rightarrow> host | None \<Rightarrow> ''unknown''))"

definition request_metadata :: "traced_request \<Rightarrow> (string \<times> json) list" where
  "request_metadata q =
     [(''client_ip'', JStr (client_ip q)), (''method'', JStr (rq_method q)), (''path'', JStr (rq_path q)),
      (''user_agent'', JStr (case map_of (rq_headers q) ''user-agent'' of None \<Rightarrow> ''-'' | Some u \<Rightarrow> u))]"

text \<open>
  What the middleware logs about the handler's outcome, an \<open>except Exception\<close> aside re-raised; \<open>secs\<close>
  is the processing time with four decimals.
\<close>

definition outcome_metadata :: "traced_request \<Rightarrow> string \<Rightarrow> exn + int \<Rightarrow> (string \<times> json) list" where
  "outcome_metadata q secs res =
     request_metadata q
     @ (case res of
          Inr status \<Rightarrow> [(''status_code'', JInt status), (''process_time'', JStr (secs @ ''s''))]
        | Inl e \<Rightarrow> [(''error'', JStr (exn_str e)), (''process_time'', JStr (secs @ ''s''))])"

section \<open>Log records\<close>

record log_record =
  lr_time :: string
  lr_level :: string
  lr_name :: string
  lr_message :: string
  lr_exception :: "string option"
  lr_attributes :: "(string \<times> json) list"

definition standard_attributes :: "string list" where
  "standard_attributes =
     [''args'', ''asctime'', ''created'', ''exc_info'', ''exc_text'', ''filename'', ''funcName'', ''id'',
      ''levelname'', ''levelno'', ''lineno'', ''module'', ''msecs'', ''message'', ''msg'', ''name'', ''pathname'',
      ''process'', ''processName'', ''relativeCreated'', ''stack_info'', ''thread'', ''threadName'']"

text \<open>\<open>get_trace_id\<close> is never empty, so the id is always written.\<close>

definition get_trace_id :: "string option \<Rightarrow> string" where
  "get_trace_id trace_id_var =
     (case trace_id_var of Some (c # cs) \<Rightarrow> c # cs | _ \<Rightarrow> ''No-Trace-Id'')"

definition format_record :: "string option \<Rightarrow> log_record \<Rightarrow> string" where
  "format_record trace_id_var r =
     (let base = [(''timestamp'', JStr (lr_time r)), (''level'', JStr (lr_level r)), (''name'', JStr (lr_name r)),
                  (''message'', JStr (lr_message r)), (''trace_id'', JStr (get_trace_id trace_id_var))]
                 @ (case lr_exception r of None \<Rightarrow> [] | Some t \<Rightarrow> [(''exception'', JStr t)]);
          extra = filter (\<lambda>(k, v). k \<notin> set standard_attributes) (lr_attributes r)
      in json_dumps (JDict (fold (\<lambda>(k, v). dict_set k v) extra base)))"

lemma dict_set_values: "list_all P d \<Longrightarrow> P (k, v) \<Longrightarrow> list_all P (dict_set k v d)"
  by (induction k v d rule: dict_set.induct) auto

lemma fold_dict_set_ok:
  assumes "distinct (List.map fst d) \<and> list_all P d" "list_all P kvs"
  shows "distinct (List.map fst (fold (\<lambda>(k, v). dict_set k v) kvs d))
    \<and> list_all P (fold (\<lambda>(k, v). dict_set k v) kvs d)"
  using assms
proof (induction kvs arbitrary: d)
  case (Cons kv kvs)
  then show ?case
    using Cons.IH [of "dict_set (fst kv) (snd kv) d"] distinct_dict_set [of d "fst kv" "snd kv"]
    by (auto simp: split_beta dict_set_values)
qed simp

text \<open>A log line is one JSON object that reads back as what was logged.\<close>

theorem format_record_reads_back:
  assumes "list_all (str_ok False) [lr_time r, lr_level r, lr_name r, lr_message r, get_trace_id t]"
    and "list_all (\<lambda>(k, v). str_ok False k \<and> json_ok v) (lr_attributes r)"
    and "\<And>e. lr_exception r = Some e \<Longrightarrow> str_ok False e"
  shows "\<exists>d. json_loads (format_record t r) = Inr (JDict d)
    \<and> map_of d ''message'' = Some (JStr (lr_message r))"
proof -
  let ?base = "[(''timestamp'', JStr (lr_time r)), (''level'', JStr (lr_level r)), (''name'', JStr (lr_name r)),
      (''message'', JStr (lr_message r)), (''trace_id'', JStr (get_trace_id t))]
      @ (case lr_exception r of None \<Rightarrow> [] | Some e \<Rightarrow> [(''exception'', JStr e)])"
  let ?extra = "filter (\<lambda>(k, v). k \<notin> set standard_attributes) (lr_attributes r)"
  let ?ok = "\<lambda>d. distinct (List.map fst d) \<and> list_all (\<lambda>p. str_ok False (fst p) \<and> json_ok (snd p)) d"
  have base: "?ok ?base"
    using assms(1,3) by (auto simp: str_ok_ascii split: option.split)
  have fold_ok: "?ok (fold (\<lambda>(k, v). dict_set k v) ?extra ?base)"
    using base assms(2) by (intro fold_dict_set_ok) (auto simp: list_all_iff)
  have "json_loads (format_record t r) = Inr (JDict (fold (\<lambda>(k, v). dict_set k v) ?extra ?base))"
    unfolding format_record_def Let_def using fold_ok by (intro json_loads_dumps) (simp only: json_ok.simps)
  moreover have "map_of (fold (\<lambda>(k, v). dict_set k v) kvs d) k = map_of d k"
    if "k \<notin> set (List.map fst kvs)" for kvs d k
    using that by (induction kvs arbitrary: d) auto
  moreover have "''message'' \<notin> set (List.map fst ?extra)" by (auto simp: standard_attributes_def)
  moreover have "map_of ?base ''message'' = Some (JStr (lr_message r))" by simp
  ultimately show ?thesis by metis
qed

end
