(* ===== verification/Middleware.thy ===== *)
theory Middleware
  imports Tracing Federation
begin

text \<open>
  \<open>LoggingMiddleware.dispatch\<close> of \<open>logging.py\<close> inside the \<open>XRayContext\<close> of \<open>services/xray_service.py\<close>: the
  trace id in the context, the segment, and the access log.  The recorder of the X-Ray SDK, the clock and
  the application the middleware calls are parameters.
\<close>

section \<open>The state of a request\<close>

text \<open>
  The context variable \<open>trace_id_var\<close>, the lines of the access log with the trace id the formatter
  finds when each is written, and all the rest, which the handler works on.
\<close>

record access_line =
  al_level :: string
  al_message :: string
  al_trace :: string
  al_extra :: "(string \<times> json) list"

record 'x request_state =
  outside :: 'x
  trace_id_var :: "string option"
  access_log :: "access_line list"

definition outsideE :: "('x, 'a) eff \<Rightarrow> ('x request_state, 'a) eff" where
  "outsideE op = (\<lambda>s. case op (outside s) of (r, x) \<Rightarrow> (r, s\<lparr>outside := x\<rparr>))"

definition log_access :: "string \<Rightarrow> string \<Rightarrow> (string \<times> json) list \<Rightarrow> ('x request_state, unit) eff" where
  "log_access level message extra =
     modifyE (\<lambda>s. s\<lparr>access_log := access_log s @ [\<lparr>al_level = level, al_message = message,
       al_trace = get_trace_id (trace_id_var s), al_extra = extra\<rparr>]\<rparr>)"

section \<open>XRayContext\<close>

text \<open>
  The recorder of the X-Ray SDK.  \<open>begin_segment\<close> takes the name, the trace id, the parent and whether
  the request is sampled, and tells whether it gave a segment.
\<close>

record 'x recorder =
  begin_segment :: "string \<Rightarrow> string \<Rightarrow> string option \<Rightarrow> bool \<Rightarrow> ('x, bool) eff"
  segment_exception :: "exn \<Rightarrow> ('x, unit) eff"
  end_segment :: "('x, unit) eff"

text \<open>The token of \<open>set_trace_id\<close> is the value that \<open>reset\<close> puts back.\<close>

definition set_trace_id :: "string \<Rightarrow> ('x request_state, string option) eff" where
  "set_trace_id tid =
     bindE (getE trace_id_var) (\<lambda>old. bindE (modifyE (\<lambda>s. s\<lparr>trace_id_var := Some tid\<rparr>)) (\<lambda>_. retE old))"

definition xray_enter ::
  "'x recorder \<Rightarrow> string \<Rightarrow> string \<times> string option \<times> bool option
     \<Rightarrow> ('x request_state, string option \<times> bool) eff" where
  "xray_enter xr name ctx =
     (case ctx of (tid, parent, sampled) \<Rightarrow>
        bindE (set_trace_id tid) (\<lambda>token.
        bindE (outsideE (begin_segment xr name tid parent (case sampled of Some b \<Rightarrow> b | None \<Rightarrow> True)))
          (\<lambda>segment. retE (token, segment))))"

definition xray_exit ::
  "'x recorder \<Rightarrow> string option \<Rightarrow> bool \<Rightarrow> exn option \<Rightarrow> ('x request_state, unit) eff" where
  "xray_exit xr token segment exc =
     bindE (case exc of
              Some e \<Rightarrow> if segment then outsideE (segment_exception xr e) else retE ()
            | None \<Rightarrow> retE ()) (\<lambda>_.
     bindE (if segment then outsideE (end_segment xr) else retE ()) (\<lambda>_.
       modifyE (\<lambda>s. s\<lparr>trace_id_var := token\<rparr>)))"

text \<open>\<open>async with XRayContext(...)\<close>: the exit sees how the block ended and passes it on.\<close>

definition with_xray ::
  "'x recorder \<Rightarrow> string \<Rightarrow> string \<times> string option \<times> bool option \<Rightarrow> ('x request_state, 'a) eff
     \<Rightarrow> ('x request_state, 'a) eff" where
  "with_xray xr name ctx body =
     bindE (xray_enter xr name ctx) (\<lambda>(token, segment). \<lambda>s.
       case body s of
         (Inl e, s1) \<Rightarrow> bindE (xray_exit xr token segment (Some e)) (\<lambda>_. raiseE e) s1
       | (Inr r, s1) \<Rightarrow> bindE (xray_exit xr token segment None) (\<lambda>_. retE r) s1)"

text \<open>
  \<open>XRayTraceFormatter.format\<close>: the trace id of the recorder's segment, when it has one (\<open>None\<close> also when
  asking the recorder fails), or the context's.
\<close>

definition record_trace :: "string option \<Rightarrow> string option \<Rightarrow> string" where
  "record_trace segment_trace var =
     (let tid = (case nonblank segment_trace of Some t \<Rightarrow> t | None \<Rightarrow> get_trace_id var)
      in if tid = [] then ''no-trace'' else tid)"

text \<open>The log groups \<open>_configure_xray\<close> gives the recorder, the extra ones after the application's own.\<close>

definition xray_log_groups :: "aws_config \<Rightarrow> string list" where
  "xray_log_groups aws =
     xray_log_group aws # (case nonblank (xray_extra_log_groups aws) of
       Some extra \<Rightarrow> filter (\<lambda>g. g \<noteq> []) (List.map py_strip (py_split CHR '','' extra)) | None \<Rightarrow> [])"

lemma record_trace_nonempty: "record_trace segment_trace var \<noteq> []"
  by (simp add: record_trace_def Let_def)

section \<open>LoggingMiddleware.dispatch\<close>

text \<open>\<open>f"{seconds:.4f}"\<close>: the nearest, the even one of two.\<close>

definition four_decimals :: "rat \<Rightarrow> string" where
  "four_decimals d =
     (let x = \<bar>d\<bar> * 10000; n = \<lfloor>x\<rfloor>; part = x - of_int n;
          k = (if part < 1 / 2 \<or> part = 1 / 2 \<and> even n then n else n + 1)
      in (if d < 0 then ''-'' else []) @ int_str (k div 10000) @ ''.'' @ zero_pad 4 (k mod 10000))"

definition py_optional :: "string option \<Rightarrow> string" where
  "py_optional v = (case v of None \<Rightarrow> ''None'' | Some s \<Rightarrow> s)"

definition py_optional_bool :: "bool option \<Rightarrow> string" where
  "py_optional_bool v = (case v of None \<Rightarrow> ''None'' | Some b \<Rightarrow> if b then ''True'' else ''False'')"

definition request_line :: "traced_request \<Rightarrow> string" where
  "request_line q = rq_method q @ '' '' @ rq_path q"

definition log_outcome ::
  "('x \<Rightarrow> rat) \<Rightarrow> rat \<Rightarrow> traced_request \<Rightarrow> exn + int \<Rightarrow> ('x request_state, unit) eff" where
  "log_outcome now start q res =
     bindE (getE (\<lambda>s. four_decimals (now (outside s) - start))) (\<lambda>secs.
       case res of
         Inr status \<Rightarrow>
           log_access ''INFO'' (''Request completed: '' @ request_line q @ '' '' @ int_str status @ '' '' @ secs @ ''s'')
             (outcome_metadata q secs res)
       | Inl e \<Rightarrow>
           log_access ''ERROR'' (''Request error: '' @ request_line q @ '' Error: '' @ exn_str e @ '' '' @ secs @ ''s'')
             (outcome_metadata q secs res))"

text \<open>
  \<open>call_next\<close> runs the application with a copy of the context: it sees the trace id and cannot change
  it here.  Its result is the status of the response.
  \<open>handled\<close> is the block inside the context.
\<close>

definition handled ::
  "('x \<Rightarrow> rat) \<Rightarrow> rat \<Rightarrow> traced_request \<Rightarrow> (string option \<Rightarrow> ('x, int) eff) \<Rightarrow> ('x request_state, int) eff" where
  "handled now start q call_next =
     catchE
       (bindE (log_access ''INFO'' (''Request started: '' @ request_line q) (request_metadata q)) (\<lambda>_.
        bindE (getE trace_id_var) (\<lambda>var.
        bindE (outsideE (call_next var)) (\<lambda>status.
        bindE (log_outcome now start q (Inr status)) (\<lambda>_. retE status)))))
       (\<lambda>e. if is_Exception e then bindE (log_outcome now start q (Inl e)) (\<lambda>_. raiseE e) else raiseE e)"

definition dispatch ::
  "'x recorder \<Rightarrow> ('x \<Rightarrow> rat) \<Rightarrow> string \<Rightarrow> traced_request \<Rightarrow> (string option \<Rightarrow> ('x, int) eff)
     \<Rightarrow> ('x request_state, int) eff" where
  "dispatch xr now title q call_next =
     bindE (getE (\<lambda>s. now (outside s))) (\<lambda>start.
     (case request_context q of (tid, parent, sampled) \<Rightarrow>
        bindE (log_access ''INFO'' (''Entering x-ray context: trace_id='' @ tid @ '', parent_id='' @ py_optional parent
            @ '', sampled='' @ py_optional_bool sampled @ '', segment_name='' @ segment_name title q) []) (\<lambda>_.
        with_xray xr (segment_name title q) (tid, parent, sampled)
          (handled now start q call_next))))"

section \<open>The middleware is transparent\<close>

definition recorder_silent :: "'x recorder \<Rightarrow> bool" where
  "recorder_silent xr \<longleftrightarrow>
     (\<forall>name tid parent b x. \<exists>seg x'. begin_segment xr name tid parent b x = (Inr seg, x'))
     \<and> (\<forall>e x. \<exists>x'. segment_exception xr e x = (Inr (), x')) \<and> (\<forall>x. \<exists>x'. end_segment xr x = (Inr (), x'))"

lemma outsideE_Inr: "op (outside s) = (Inr r, x) \<Longrightarrow> outsideE op s = (Inr r, s\<lparr>outside := x\<rparr>)"
  by (simp add: outsideE_def)

lemma xray_enter_runs:
  assumes "recorder_silent xr"
  shows "\<exists>seg x. xray_enter xr name (tid, parent, sampled) s
    = (Inr (trace_id_var s, seg), s\<lparr>trace_id_var := Some tid, outside := x\<rparr>)"
proof -
  obtain seg x where "begin_segment xr name tid parent (case sampled of Some b \<Rightarrow> b | None \<Rightarrow> True)
      (outside s) = (Inr seg, x)" using assms unfolding recorder_silent_def by blast
  then show ?thesis
    by (intro exI [of _ seg] exI [of _ x]) (simp add: xray_enter_def set_trace_id_def bindE_def outsideE_def)
qed

lemma xray_exit_runs:
  assumes "recorder_silent xr"
  shows "\<exists>x. xray_exit xr token seg exc s = (Inr (), s\<lparr>trace_id_var := token, outside := x\<rparr>)"
proof -
  have e: "\<exists>x'. segment_exception xr e x = (Inr (), x')" and f: "\<exists>x'. end_segment xr x = (Inr (), x')" for e x
    using assms unfolding recorder_silent_def by auto
  obtain x1 where 1: "(case exc of Some e \<Rightarrow> if seg then outsideE (segment_exception xr e) else retE ()
      | None \<Rightarrow> retE ()) s = (Inr (), s\<lparr>outside := x1\<rparr>)"
  proof (cases "exc = None \<or> \<not> seg")
    case True
    then show ?thesis using that [of "outside s"] by (auto split: option.split)
  next
    case False
    then obtain ex where "exc = Some ex" seg by auto
    moreover obtain x' where "segment_exception xr ex (outside s) = (Inr (), x')" using e by blast
    ultimately show ?thesis using that by (simp add: outsideE_def)
  qed
  obtain x2 where 2: "(if seg then outsideE (end_segment xr) else retE ()) (s\<lparr>outside := x1\<rparr>)
      = (Inr (), s\<lparr>outside := x2\<rparr>)"
  proof (cases seg)
    case True
    obtain x' where "end_segment xr x1 = (Inr (), x')" using f by blast
    then show ?thesis using that True by (simp add: outsideE_def)
  qed (use that [of x1] in simp)
  show ?thesis
    unfolding xray_exit_def bindE_def 1 prod.case sum.case 2
    by (intro exI [of _ x2]) simp
qed

lemma with_xray_runs:
  assumes "recorder_silent xr"
  shows "\<exists>x x'. with_xray xr name (tid, parent, sampled) body s
    = (case body (s\<lparr>trace_id_var := Some tid, outside := x\<rparr>) of (res, s1) \<Rightarrow>
         (res, s1\<lparr>trace_id_var := trace_id_var s, outside := x'\<rparr>))"
proof -
  obtain seg x where en: "xray_enter xr name (tid, parent, sampled) s
    = (Inr (trace_id_var s, seg), s\<lparr>trace_id_var := Some tid, outside := x\<rparr>)"
    using xray_enter_runs [OF assms] by blast
  obtain res s1 where b: "body (s\<lparr>trace_id_var := Some tid, outside := x\<rparr>) = (res, s1)" by fastforce
  obtain x' where "xray_exit xr (trace_id_var s) seg (case res of Inl e \<Rightarrow> Some e | Inr _ \<Rightarrow> None) s1
      = (Inr (), s1\<lparr>trace_id_var := trace_id_var s, outside := x'\<rparr>)"
    using xray_exit_runs [OF assms] by blast
  then show ?thesis
    by (intro exI [of _ x] exI [of _ x'])
      (cases res; simp add: with_xray_def bindE_def en b)
qed

lemma request_context_id: "get_trace_id (Some (fst (request_context q))) = fst (request_context q)"
  by (auto simp: request_context_def get_trace_id_def split: prod.split option.split list.split)

lemma handled_runs:
  assumes "call_next (trace_id_var s) (outside s) = (res, x1)"
  shows "\<exists>secs m1 m2. handled now start q call_next s = (res, s\<lparr>outside := x1,
    access_log := access_log s @ \<lparr>al_level = ''INFO'', al_message = m1, al_trace = get_trace_id (trace_id_var s),
        al_extra = request_metadata q\<rparr> # (case res of
          Inr st \<Rightarrow> [\<lparr>al_level = ''INFO'', al_message = m2, al_trace = get_trace_id (trace_id_var s),
            al_extra = outcome_metadata q secs res\<rparr>]
        | Inl e \<Rightarrow> if is_Exception e
            then [\<lparr>al_level = ''ERROR'', al_message = m2, al_trace = get_trace_id (trace_id_var s),
              al_extra = outcome_metadata q secs res\<rparr>] else [])\<rparr>)"
  using assms
  by (cases res; cases s) (auto simp: handled_def catchE_def bindE_def log_access_def outsideE_def log_outcome_def)

text \<open>
  C39: whatever the handler does, the middleware returns its response or lets its exception through, puts
  the context's trace id back, and between entering and leaving the context logs the start of the request
  and then, unless the request was cancelled, its outcome, each under the trace id of the request's header.
\<close>

theorem dispatch_transparent:
  assumes "recorder_silent xr" "dispatch xr now title q call_next s = (res, s')"
  shows "\<exists>x x1 secs l0 ls. call_next (Some (fst (request_context q))) x = (res, x1)
    \<and> trace_id_var s' = trace_id_var s \<and> access_log s' = access_log s @ l0 # ls
    \<and> (\<forall>l \<in> set ls. al_trace l = fst (request_context q))
    \<and> List.map al_extra ls = request_metadata q
        # (if \<exists>e. res = Inl e \<and> \<not> is_Exception e then [] else [outcome_metadata q secs res])
    \<and> List.map al_level ls = ''INFO'' # (case res of Inr _ \<Rightarrow> [''INFO'']
        | Inl e \<Rightarrow> if is_Exception e then [''ERROR''] else [])"
proof -
  obtain tid parent sampled where ctx: "request_context q = (tid, parent, sampled)" by (cases "request_context q")
  have tid: "get_trace_id (Some tid) = tid" using request_context_id [of q] ctx by simp
  obtain m0 where enter: "dispatch xr now title q call_next s
      = with_xray xr (segment_name title q) (tid, parent, sampled)
          (handled now (now (outside s)) q call_next)
          (s\<lparr>access_log := access_log s @ [\<lparr>al_level = ''INFO'', al_message = m0,
             al_trace = get_trace_id (trace_id_var s), al_extra = []\<rparr>]\<rparr>)"
    by (simp add: dispatch_def ctx log_access_def bindE_def)
  let ?s = "s\<lparr>access_log := access_log s @ [\<lparr>al_level = ''INFO'', al_message = m0,
             al_trace = get_trace_id (trace_id_var s), al_extra = []\<rparr>]\<rparr>"
  obtain x x' where w: "dispatch xr now title q call_next s
    = (case handled now (now (outside s)) q call_next (?s\<lparr>trace_id_var := Some tid, outside := x\<rparr>) of
         (res, s1) \<Rightarrow> (res, s1\<lparr>trace_id_var := trace_id_var ?s, outside := x'\<rparr>))"
    unfolding enter using with_xray_runs [OF assms(1)] by blast
  obtain r x1 where call: "call_next (Some tid) x = (r, x1)" by fastforce
  define s2 where "s2 = ?s\<lparr>trace_id_var := Some tid, outside := x\<rparr>"
  have s2: "trace_id_var s2 = Some tid" "outside s2 = x" "access_log s2 = access_log ?s" by (simp_all add: s2_def)
  have call2: "call_next (trace_id_var s2) (outside s2) = (r, x1)" using call s2 by simp
  obtain secs m1 m2 where h: "handled now (now (outside s)) q call_next s2 = (r, s2\<lparr>outside := x1,
    access_log := access_log s2 @ \<lparr>al_level = ''INFO'', al_message = m1, al_trace = get_trace_id (trace_id_var s2),
        al_extra = request_metadata q\<rparr> # (case r of
          Inr st \<Rightarrow> [\<lparr>al_level = ''INFO'', al_message = m2, al_trace = get_trace_id (trace_id_var s2),
            al_extra = outcome_metadata q secs r\<rparr>]
        | Inl e \<Rightarrow> if is_Exception e
            then [\<lparr>al_level = ''ERROR'', al_message = m2, al_trace = get_trace_id (trace_id_var s2),
              al_extra = outcome_metadata q secs r\<rparr>] else [])\<rparr>)"
    using handled_runs [where s = s2 and call_next = call_next, OF call2] by blast
  have r: "res = r" and v: "trace_id_var s' = trace_id_var s"
    and l: "access_log s' = access_log (snd (handled now (now (outside s)) q call_next s2))"
    using w assms(2) unfolding s2_def [symmetric] h by simp_all
  define fin where "fin = (case r of
      Inr st \<Rightarrow> [\<lparr>al_level = ''INFO'', al_message = m2, al_trace = tid, al_extra = outcome_metadata q secs r\<rparr>]
    | Inl e \<Rightarrow> if is_Exception e
        then [\<lparr>al_level = ''ERROR'', al_message = m2, al_trace = tid, al_extra = outcome_metadata q secs r\<rparr>]
        else [])"
  have acc: "access_log s' = access_log s
      @ \<lparr>al_level = ''INFO'', al_message = m0, al_trace = get_trace_id (trace_id_var s), al_extra = []\<rparr>
      # \<lparr>al_level = ''INFO'', al_message = m1, al_trace = tid, al_extra = request_metadata q\<rparr> # fin"
    by (cases r; simp add: l h s2 tid fin_def)
  have fin: "\<forall>l \<in> set fin. al_trace l = tid"
    "List.map al_extra fin = (if \<exists>e. r = Inl e \<and> \<not> is_Exception e then [] else [outcome_metadata q secs r])"
    "List.map al_level fin = (case r of Inr _ \<Rightarrow> [''INFO'']
      | Inl e \<Rightarrow> if is_Exception e then [''ERROR''] else [])"
    by (auto simp: fin_def split: sum.split)
  have "call_next (Some (fst (request_context q))) x = (res, x1)" using call ctx r by simp
  then show ?thesis
    using v acc fin unfolding r ctx fst_conv
    by (intro exI [of _ x] exI [of _ x1] exI [of _ secs] exI conjI) (assumption | simp)+
qed

definition silent_recorder :: "unit recorder" where
  "silent_recorder = \<lparr>begin_segment = \<lambda>_ _ _ _. retE True, segment_exception = \<lambda>_. retE (),
     end_segment = retE ()\<rparr>"

definition demo_traced :: traced_request where
  "demo_traced = \<lparr>rq_headers = [(''x-amzn-trace-id'', ''Root=1-abc;Sampled=1'')], rq_method = ''POST'',
     rq_path = ''/authorise'', rq_client = Some ''10.0.0.1''\<rparr>"

theorem dispatch_transparent_witness:
  "\<exists>s'. dispatch silent_recorder (\<lambda>_. 0) ''Portunus'' demo_traced (\<lambda>_. retE 200)
      \<lparr>outside = (), trace_id_var = None, access_log = []\<rparr> = (Inr 200, s')
    \<and> trace_id_var s' = None \<and> List.map al_trace (tl (access_log s')) = [''1-abc'', ''1-abc'']"
proof -
  let ?s = "\<lparr>outside = (), trace_id_var = None, access_log = []\<rparr>"
  obtain res s' where run: "dispatch silent_recorder (\<lambda>_. 0) ''Portunus'' demo_traced (\<lambda>_. retE 200) ?s = (res, s')"
    by fastforce
  have id: "fst (request_context demo_traced) = ''1-abc''"
    by (simp add: request_context_def demo_traced_def parse_trace_header_def py_startswith_def)
  have "recorder_silent silent_recorder" by (auto simp: recorder_silent_def silent_recorder_def)
  from dispatch_transparent [OF this run] obtain secs l0 ls where
    "res = Inr 200" "trace_id_var s' = None" "access_log s' = l0 # ls" "\<forall>l \<in> set ls. al_trace l = ''1-abc''"
    "List.map al_extra ls = [request_metadata demo_traced, outcome_metadata demo_traced secs res]"
    unfolding id by auto
  moreover from this have "length ls = 2" by (metis length_map list.size(3,4) One_nat_def Suc_1 add.right_neutral add_Suc_right)
  ultimately have "List.map al_trace ls = [''1-abc'', ''1-abc'']" by (auto simp: length_Suc_conv numeral_2_eq_2)
  then show ?thesis using run \<open>res = Inr 200\<close> \<open>trace_id_var s' = None\<close> \<open>access_log s' = l0 # ls\<close> by auto
qed

end
