(* ===== verification/Waiting.thy ===== *)
theory Waiting
  imports World
begin

text \<open>
  \<open>wait_until\<close> of \<open>util.py\<close>: polls a condition until it holds or the time is over.  The loop has fuel;
  \<open>None\<close> is a loop still running when the fuel is spent.  The condition, the clock and \<open>asyncio.sleep\<close> are
  parameters.
\<close>

section \<open>The loop\<close>

definition wait_message :: "string option \<Rightarrow> string" where
  "wait_message error_message =
     (case error_message of
        Some (c # m) \<Rightarrow> (c # m) @ '' - Condition not met within timeout period''
      | _ \<Rightarrow> ''Condition not met within timeout period'')"

text \<open>One check: whether the loop goes on, what the condition raises being passed over.\<close>

definition check_condition :: "('s, bool) eff \<Rightarrow> ('s, bool) eff" where
  "check_condition condition = catchE condition (\<lambda>e. if is_Exception e then retE False else raiseE e)"

fun wait_loop ::
  "nat \<Rightarrow> ('s, bool) eff \<Rightarrow> ('s \<Rightarrow> rat) \<Rightarrow> (rat \<Rightarrow> ('s, unit) eff) \<Rightarrow> rat \<Rightarrow> rat \<Rightarrow> string option \<Rightarrow> rat
     \<Rightarrow> 's \<Rightarrow> (unit res \<times> 's) option" where
  "wait_loop 0 condition now pause timeout interval msg start s = None"
| "wait_loop (Suc n) condition now pause timeout interval msg start s =
     (case check_condition condition s of
        (Inl e, s1) \<Rightarrow> Some (Inl e, s1)
      | (Inr True, s1) \<Rightarrow> Some (Inr (), s1)
      | (Inr False, s1) \<Rightarrow>
          if timeout < now s1 - start then Some (Inl (PyTimeoutError (wait_message msg)), s1)
          else case pause interval s1 of
                 (Inl e, s2) \<Rightarrow> Some (Inl e, s2)
               | (Inr _, s2) \<Rightarrow> wait_loop n condition now pause timeout interval msg start s2)"

definition wait_until ::
  "nat \<Rightarrow> ('s, bool) eff \<Rightarrow> ('s \<Rightarrow> rat) \<Rightarrow> (rat \<Rightarrow> ('s, unit) eff) \<Rightarrow> rat \<Rightarrow> rat \<Rightarrow> string option
     \<Rightarrow> 's \<Rightarrow> (unit res \<times> 's) option" where
  "wait_until n condition now pause timeout interval msg s =
     wait_loop n condition now pause timeout interval msg (now s) s"

section \<open>It ends\<close>

text \<open>A clock that a check does not turn back and a pause advances by its length.\<close>

definition clock_advances :: "('s, bool) eff \<Rightarrow> ('s \<Rightarrow> rat) \<Rightarrow> (rat \<Rightarrow> ('s, unit) eff) \<Rightarrow> bool" where
  "clock_advances condition now pause \<longleftrightarrow>
     (\<forall>s. now s \<le> now (snd (condition s))) \<and> (\<forall>d s. now s + d \<le> now (snd (pause d s)))"

lemma check_condition_clock:
  "clock_advances condition now pause \<Longrightarrow> check_condition condition s = (r, s1) \<Longrightarrow> now s \<le> now s1"
  unfolding clock_advances_def check_condition_def catchE_def
  by (auto split: prod.splits sum.splits if_splits) (metis snd_conv)+

lemma check_condition_True: "check_condition condition s = (Inr True, s1) \<Longrightarrow> condition s = (Inr True, s1)"
  by (auto simp: check_condition_def catchE_def split: prod.splits sum.splits if_splits)

lemma wait_loop_ends:
  assumes "clock_advances condition now pause" "0 < interval"
    and "start + timeout < now s + of_nat n * interval"
  shows "\<exists>r. wait_loop (Suc n) condition now pause timeout interval msg start s = Some r"
  using assms(3)
proof (induction n arbitrary: s)
  case 0
  obtain r s1 where c: "check_condition condition s = (r, s1)" by fastforce
  have "now s \<le> now s1" by (rule check_condition_clock [OF assms(1) c])
  then have "timeout < now s1 - start" using 0 by simp
  then show ?case using c by (auto split: sum.split bool.split)
next
  case (Suc n)
  obtain r s1 where c: "check_condition condition s = (r, s1)" by fastforce
  obtain p s2 where p: "pause interval s1 = (p, s2)" by fastforce
  have "now s \<le> now s1" by (rule check_condition_clock [OF assms(1) c])
  moreover have "now s1 + interval \<le> now s2" using assms(1) p unfolding clock_advances_def by (metis snd_conv)
  ultimately have "start + timeout < now s2 + of_nat n * interval" using Suc.prems by (simp add: algebra_simps)
  from Suc.IH [OF this] show ?case using c p
    by (subst wait_loop.simps) (auto split: sum.split bool.split simp del: wait_loop.simps)
qed

lemma wait_loop_result:
  "wait_loop n condition now pause timeout interval msg start s = Some (res, s') \<Longrightarrow>
     (res = Inr () \<longrightarrow> (\<exists>s1. condition s1 = (Inr True, s')))"
proof (induction n arbitrary: s)
  case (Suc n)
  then show ?case
    by (auto split: prod.splits sum.splits bool.splits if_splits dest: check_condition_True)
qed simp

text \<open>
  With a clock that runs, \<open>wait_until\<close> returns after at most timeout over interval, plus one, further
  checks; it returns normally only when the condition held at the last check.
\<close>

theorem wait_until_ends:
  assumes "clock_advances condition now pause" "0 < interval" "timeout < of_nat n * interval"
  shows "\<exists>res s'. wait_until (Suc n) condition now pause timeout interval msg s = Some (res, s')
    \<and> (res = Inr () \<longrightarrow> (\<exists>s1. condition s1 = (Inr True, s')))"
proof -
  obtain res s' where "wait_until (Suc n) condition now pause timeout interval msg s = Some (res, s')"
    using wait_loop_ends [OF assms(1,2), of "now s" timeout s n msg] assms(3)
    unfolding wait_until_def by fastforce
  moreover from this have "res = Inr () \<longrightarrow> (\<exists>s1. condition s1 = (Inr True, s'))"
    unfolding wait_until_def by (rule wait_loop_result)
  ultimately show ?thesis by blast
qed

theorem wait_until_ends_witness:
  "\<exists>res s'. wait_until 5 (\<lambda>t. (Inr (2 \<le> t), t)) id (\<lambda>d t. (Inr (), t + d)) 3 1 None (0 :: rat) = Some (res, s')
     \<and> res = Inr () \<and> s' = 2"
proof -
  have "wait_until 5 (\<lambda>t. (Inr (2 \<le> t), t)) id (\<lambda>d t. (Inr (), t + d)) 3 1 None (0 :: rat) = Some (Inr (), 2)"
    by (simp add: wait_until_def check_condition_def catchE_def eval_nat_numeral)
  moreover have "\<exists>res s'. wait_until (Suc 4) (\<lambda>t. (Inr (2 \<le> t), t)) id (\<lambda>d t. (Inr (), t + d)) 3 1 None (0 :: rat)
      = Some (res, s')"
    using wait_until_ends [of "\<lambda>t. (Inr (2 \<le> t), t)" id "\<lambda>d t. (Inr (), t + d)" 1 3 4 None 0]
    by (auto simp: clock_advances_def)
  ultimately show ?thesis by simp
qed

end
