(* ===== verification/Cli.thy ===== *)
theory Cli
  imports Federation
begin

text \<open>
  \<open>cli.py\<close>: validation of the arguments, the default session policy, and \<open>encode-credentials\<close>.  STS, the
  file system and argparse are outside the repository: \<open>identity\<close> and \<open>assume\<close> are what STS answers
  for the caller's own credentials, \<open>read_file\<close> gives the contents of a path that is a file.
\<close>

definition TEMP_CRED_DURATION_SECONDS :: int where
  "TEMP_CRED_DURATION_SECONDS = 12 * 60 * 60"

definition DEFAULT_SESSION_NAME :: string where
  "DEFAULT_SESSION_NAME = ''portunus''"

section \<open>Arguments\<close>

definition argument_error :: "string \<Rightarrow> exn" where
  "argument_error m = PyError OtherExceptionC ''ArgumentTypeError'' m"

definition cli_session_name :: "string \<Rightarrow> string res" where
  "cli_session_name v = (if role_session_name v then Inr v else Inl (argument_error ''not a valid role session name''))"

definition ascii_space :: "char \<Rightarrow> bool" where
  "ascii_space c \<longleftrightarrow> c \<in> {CHR '' '', CHR 0x09, CHR 0x0A, CHR 0x0B, CHR 0x0C, CHR 0x0D}"

definition partition_char :: "char \<Rightarrow> bool" where
  "partition_char c \<longleftrightarrow> (97 \<le> (of_char c :: nat) \<and> (of_char c :: nat) \<le> 122) \<or> c = CHR ''-''"

text \<open>\<open>arn:aws[a-z-]*:iam::\d{12}:role/\S+\<close>, over the whole text.\<close>

definition is_role_arn :: "string \<Rightarrow> bool" where
  "is_role_arn v \<longleftrightarrow>
     (let s = dropWhile partition_char (drop 7 v); account = take 12 (drop 6 s); r = drop 18 s; name = drop 6 r
      in py_startswith v ''arn:aws'' \<and> py_startswith s '':iam::''
         \<and> length account = 12 \<and> list_all is_digit account \<and> py_startswith r '':role/''
         \<and> name \<noteq> [] \<and> list_all (\<lambda>c. \<not> ascii_space c) name)"

definition cli_role_arn :: "string \<Rightarrow> string res" where
  "cli_role_arn v = (if is_role_arn v then Inr v else Inl (argument_error ''not an IAM role ARN''))"

definition load_policy :: "(string \<Rightarrow> string option) \<Rightarrow> string \<Rightarrow> string res" where
  "load_policy read_file policy_arg =
     (let t = (case read_file policy_arg of Some contents \<Rightarrow> contents | None \<Rightarrow> policy_arg)
      in bind_r (json_loads t) (\<lambda>_. Inr t))"

section \<open>The payload\<close>

definition default_policy :: "string \<Rightarrow> string \<Rightarrow> string \<Rightarrow> json" where
  "default_policy arn account_id fed_path =
     JDict [(''Version'', JStr ''2012-10-17''),
       (''Statement'', JList
          [JDict [(''Sid'', JStr ''SecretsManagerAccess''), (''Effect'', JStr ''Allow''),
                  (''Action'', JList [JStr ''secretsmanager:GetSecretValue'']), (''Resource'', JStr arn)],
           JDict [(''Sid'', JStr ''PortunusFederationAssumeRole''), (''Effect'', JStr ''Allow''),
                  (''Action'', JList [JStr ''sts:AssumeRole'', JStr ''sts:TagSession'']),
                  (''Resource'', JStr (''arn:aws:iam::'' @ account_id @ '':role'' @ fed_path @ ''*''))]])]"

definition build_default_policy :: "string \<Rightarrow> string \<Rightarrow> string \<Rightarrow> string" where
  "build_default_policy arn account_id fed_path = json_dumps (default_policy arn account_id fed_path)"

type_synonym assume_op = "string \<Rightarrow> string \<Rightarrow> string \<Rightarrow> int \<Rightarrow> (string \<times> cred_value) list res"

definition encode_credentials ::
  "string res \<Rightarrow> assume_op \<Rightarrow> string \<Rightarrow> string option \<Rightarrow> string \<Rightarrow> string \<Rightarrow> string option \<Rightarrow> string res" where
  "encode_credentials identity assume arn policy fed_path session_name caller_role_arn =
     bind_r identity (\<lambda>caller_arn.
     bind_r (case nonblank caller_role_arn of Some a \<Rightarrow> Inr a | None \<Rightarrow> get_role_arn caller_arn) (\<lambda>role_arn.
     (let account_id = fst (extract_arn_parts caller_arn);
          policy_json = (case policy of Some p \<Rightarrow> p | None \<Rightarrow> build_default_policy arn account_id fed_path)
      in bind_r (assume role_arn session_name policy_json TEMP_CRED_DURATION_SECONDS) (\<lambda>creds.
           encode_payload creds arn))))"

record cli_args =
  arg_secret_arn :: string
  arg_policy :: "string option"
  arg_role_path :: "string option"
  arg_session_name :: "string option"
  arg_caller_role_arn :: "string option"

text \<open>
  \<open>main\<close>: without a command the help and status 1; argparse answers a rejected argument with
  status 2; an exception of the command is the process's.
\<close>

datatype cli_result = Printed string | CliExit int | Crashed exn

definition cli_main ::
  "string res \<Rightarrow> assume_op \<Rightarrow> (string \<Rightarrow> string option) \<Rightarrow> cli_args option \<Rightarrow> cli_result" where
  "cli_main identity assume read_file args =
     (case args of
        None \<Rightarrow> CliExit 1
      | Some a \<Rightarrow>
          (case bind_r (cli_session_name (case arg_session_name a of None \<Rightarrow> DEFAULT_SESSION_NAME | Some n \<Rightarrow> n)) (\<lambda>n.
                bind_r (case arg_caller_role_arn a of None \<Rightarrow> Inr None | Some r \<Rightarrow> map_sum id Some (cli_role_arn r)) (\<lambda>r.
                  Inr (n, r))) of
             Inl _ \<Rightarrow> CliExit 2
           | Inr (n, r) \<Rightarrow>
               (case bind_r (case nonblank (arg_policy a) of None \<Rightarrow> Inr None
                               | Some p \<Rightarrow> map_sum id Some (load_policy read_file p)) (\<lambda>policy.
                     encode_credentials identity assume (arg_secret_arn a) policy
                       (case arg_role_path a of None \<Rightarrow> DEFAULT_FEDERATION_ROLE_PATH_PREFIX | Some q \<Rightarrow> q) n r) of
                  Inl e \<Rightarrow> Crashed e
                | Inr wire \<Rightarrow> Printed wire)))"

section \<open>What it prints, the server accepts\<close>

text \<open>
  When STS answers with a set of keys, the payload the command prints decodes on the server to
  those keys and the secret that was named, and the session was scoped by the policy given.
\<close>

theorem cli_payload_accepted:
  assumes "encode_credentials identity assume arn policy fed_path session caller = Inr wire"
    and "\<And>r n p d. assume r n p d = Inr [(''AccessKeyId'', CredJson (JStr a)), (''SecretAccessKey'', CredJson (JStr s)),
           (''SessionToken'', CredJson (JStr t)), (''Expiration'', x)]"
    and "a \<noteq> []" "s \<noteq> []" "arn \<noteq> []" "list_all (str_ok False) [a, s, t, arn]" "json_ok (cred_json x)"
  shows "from_contents wire host =
    Inr \<lparr>raw = wire, credentials = \<lparr>access_key_id = JStr a, secret_access_key = JStr s,
           session_token = JStr t, expiration = None\<rparr>, secret_arn = JStr arn, target_host = host\<rparr>"
proof -
  have "wire = payload_wire (payload_dict (JStr a) (JStr s) (JStr t) (cred_json x) arn)"
    using assms(1,2)
    by (auto simp: encode_credentials_def Let_def encode_payload_def cred_item_def cred_json_def [of "CredJson j" for j]
        of_option_def bind_r_Inr_iff)
  moreover have "json_ok (payload_dict (JStr a) (JStr s) (JStr t) (cred_json x) arn)"
    using assms(6,7) by (simp add: payload_dict_def str_ok_ascii)
  ultimately show ?thesis using assms(3-5) by (simp add: from_contents_wire)
qed

text \<open>The default policy allows reading the one secret and assuming the federation roles, and no more.\<close>

theorem default_policy_reads_back:
  assumes "str_ok False arn" "is_ascii account" "is_ascii path"
  shows "json_loads (build_default_policy arn account path) = Inr (default_policy arn account path)"
  unfolding build_default_policy_def
  using assms by (intro json_loads_dumps) (simp add: default_policy_def str_ok_ascii)

end
