(* ===== verification/TestData.thy ===== *)
theory TestData
  imports Relay
begin

text \<open>
  \<open>scripts/generate-test-data.py\<close>: ten requests sent through the proxy of a running stack, their outcomes
  counted, and the exit status.  The \<open>requests\<close> library and \<open>time.sleep\<close> are outside the repository:
  fields of \<open>'x requests_lib\<close>, which may raise anything.  Printing does not fail; a check mark is its UTF-8 bytes.
\<close>

section \<open>The scenarios\<close>

definition PROXY_URL :: string where
  "PROXY_URL = ''http://localhost:8888''"

text \<open>\<open>sc_body\<close> is \<open>scenario.get("body")\<close>, so that no key and a null body are the same.\<close>

record scenario =
  sc_name :: string
  sc_method :: string
  sc_path :: string
  sc_headers :: headers
  sc_form :: "(string \<times> string) list option"
  sc_body :: "json option"

definition TEST_SCENARIOS :: "scenario list" where
  "TEST_SCENARIOS =
     [\<lparr>sc_name = ''POST with JSON body'', sc_method = ''POST'', sc_path = ''/post'',
        sc_headers = [(''Content-Type'', ''application/json'')], sc_form = None,
        sc_body = Some (JDict [(''model'', JStr ''gpt-4''), (''prompt'', JStr ''Hello, world!''),
          (''max_tokens'', JInt 100)])\<rparr>,
      \<lparr>sc_name = ''GET with query parameters'', sc_method = ''GET'',
        sc_path = ''/get?param1=value1&param2=value2'', sc_headers = [], sc_form = None, sc_body = None\<rparr>,
      \<lparr>sc_name = ''POST with form data'', sc_method = ''POST'', sc_path = ''/post'',
        sc_headers = [(''Content-Type'', ''application/x-www-form-urlencoded'')],
        sc_form = Some [(''field1'', ''value1''), (''field2'', ''value2'')], sc_body = None\<rparr>,
      \<lparr>sc_name = ''Request with custom headers'', sc_method = ''GET'', sc_path = ''/headers'',
        sc_headers = [(''X-Custom-Header'', ''custom-value''), (''X-Request-ID'', ''test-123''),
          (''Accept'', ''application/json'')], sc_form = None, sc_body = None\<rparr>,
      \<lparr>sc_name = ''Status code test (200)'', sc_method = ''GET'', sc_path = ''/status/200'',
        sc_headers = [], sc_form = None, sc_body = None\<rparr>,
      \<lparr>sc_name = ''Status code test (404)'', sc_method = ''GET'', sc_path = ''/status/404'',
        sc_headers = [], sc_form = None, sc_body = None\<rparr>,
      \<lparr>sc_name = ''Status code test (500)'', sc_method = ''GET'', sc_path = ''/status/500'',
        sc_headers = [], sc_form = None, sc_body = None\<rparr>,
      \<lparr>sc_name = ''PUT request with JSON'', sc_method = ''PUT'', sc_path = ''/put'',
        sc_headers = [(''Content-Type'', ''application/json'')], sc_form = None,
        sc_body = Some (JDict [(''action'', JStr ''update''), (''resource_id'', JInt 12345)])\<rparr>,
      \<lparr>sc_name = ''DELETE request'', sc_method = ''DELETE'', sc_path = ''/delete'',
        sc_headers = [], sc_form = None, sc_body = None\<rparr>,
      \<lparr>sc_name = ''Large JSON payload'', sc_method = ''POST'', sc_path = ''/post'',
        sc_headers = [(''Content-Type'', ''application/json'')], sc_form = None,
        sc_body = Some (JDict [(''model'', JStr ''claude-3-opus''),
          (''messages'', JList [JDict [(''role'', JStr ''user''),
             (''content'', JStr (''Tell me a story about '' @ replicate 500 (CHR ''x'')))]]),
          (''max_tokens'', JInt 4096), (''temperature'', JFloat ''0.7'')])\<rparr>]"

definition create_mock_authorization_header :: string where
  "create_mock_authorization_header =
     ''Bearer eyJjcmVkZW50aWFscyI6eyJhY2Nlc3Nfa2V5X2lkIjoiQUtJQVRFU1QiLCJ''
     @ ''zZWNyZXRfYWNjZXNzX2tleSI6IlNFQ1JFVFRFU1QiLCJzZXNzaW9uX3Rva2VuIjoiVE''
     @ ''VTVFRPS0VOIn0sInNlY3JldF9hcm4iOiJhcm46YXdzOnNlY3JldHNtYW5hZ2VyOnVzL''
     @ ''WVhc3QtMToxMjM0NTY3ODkwMTI6c2VjcmV0OnRlc3Qtc2VjcmV0In0=''"

section \<open>One request\<close>

datatype request_body = NoBody | FormBody "(string \<times> string) list" | JsonBody json

record http_request =
  rq_method :: string
  rq_url :: string
  rq_headers :: headers
  rq_body :: request_body
  rq_timeout :: int

record 'x requests_lib =
  lib_request :: "http_request \<Rightarrow> ('x, int) eff"
  lib_get :: "string \<Rightarrow> int \<Rightarrow> ('x, unit) eff"
  lib_sleep :: "rat \<Rightarrow> ('x, unit) eff"

text \<open>
  What was printed, and ghost records: whether the proxy's root, each time it was fetched, answered, and the
  requests made, each with the status of its response, if any.
\<close>

record 'x script =
  outside :: 'x
  probes :: "(string \<times> bool) list"
  exchanges :: "(http_request \<times> int option) list"
  printed :: "string list"

definition print_lines :: "string list \<Rightarrow> ('x script, unit) eff" where
  "print_lines ls = modifyE (\<lambda>s. s\<lparr>printed := printed s @ ls\<rparr>)"

definition on_outside :: "('x, 'a) eff \<Rightarrow> ('x script, 'a) eff" where
  "on_outside op = (\<lambda>s. case op (outside s) of (r, x) \<Rightarrow> (r, s\<lparr>outside := x\<rparr>))"

definition send_request :: "'x requests_lib \<Rightarrow> http_request \<Rightarrow> ('x script, int) eff" where
  "send_request lib q = (\<lambda>s. case lib_request lib q (outside s) of (r, x) \<Rightarrow>
     (r, s\<lparr>outside := x, exchanges := exchanges s @ [(q, case r of Inr status \<Rightarrow> Some status | Inl _ \<Rightarrow> None)]\<rparr>))"

definition fetch_root :: "'x requests_lib \<Rightarrow> string \<Rightarrow> int \<Rightarrow> ('x script, unit) eff" where
  "fetch_root lib url timeout = (\<lambda>s. case lib_get lib url timeout (outside s) of (r, x) \<Rightarrow>
     (r, s\<lparr>outside := x, probes := probes s @ [(url, r = Inr ())]\<rparr>))"

definition scenario_headers :: "scenario \<Rightarrow> nat \<Rightarrow> headers" where
  "scenario_headers sc request_num =
     fold (\<lambda>(k, v). dict_set k v) (sc_headers sc)
       [(''Authorization'', create_mock_authorization_header),
        (''User-Agent'', ''test-client/1.0 (request-'' @ nat_str request_num @ '')'')]"

definition scenario_body :: "scenario \<Rightarrow> request_body" where
  "scenario_body sc =
     (case sc_form sc of
        Some form \<Rightarrow> FormBody form
      | None \<Rightarrow> (case sc_body sc of Some body \<Rightarrow> JsonBody body | None \<Rightarrow> NoBody))"

definition scenario_request :: "scenario \<Rightarrow> nat \<Rightarrow> http_request" where
  "scenario_request sc request_num =
     \<lparr>rq_method = sc_method sc, rq_url = PROXY_URL @ sc_path sc, rq_headers = scenario_headers sc request_num,
      rq_body = scenario_body sc, rq_timeout = 30\<rparr>"

definition make_test_request :: "'x requests_lib \<Rightarrow> scenario \<Rightarrow> nat \<Rightarrow> ('x script, bool \<times> int) eff" where
  "make_test_request lib sc request_num =
     catchE
       (bindE (print_lines [''  '' @ sc_method sc @ '' '' @ sc_path sc]) (\<lambda>_.
        bindE (send_request lib (scenario_request sc request_num)) (\<lambda>code.
        bindE (print_lines [''  Response status: '' @ int_str code]) (\<lambda>_.
          retE (True, code)))))
       (\<lambda>e. if is_Exception e
            then bindE (print_lines [''  Request failed: '' @ exn_str e]) (\<lambda>_. retE (False, 0))
            else raiseE e)"

section \<open>The script\<close>

text \<open>\<open>total_count\<close> scenarios, of which the next is number \<open>i\<close>; the successes and the statuses seen so far.\<close>

fun run_scenarios :: "'x requests_lib \<Rightarrow> nat \<Rightarrow> nat \<Rightarrow> scenario list \<Rightarrow> nat \<Rightarrow> (int \<times> nat) list
    \<Rightarrow> ('x script, nat \<times> (int \<times> nat) list) eff" where
  "run_scenarios lib total_count i [] ok summary = retE (ok, summary)"
| "run_scenarios lib total_count i (sc # scs) ok summary =
     bindE (print_lines [''Request '' @ nat_str i @ ''/'' @ nat_str total_count @ '': '' @ sc_name sc]) (\<lambda>_.
     bindE (make_test_request lib sc i) (\<lambda>(success, code).
     bindE (print_lines [if success then ''  '' @ [CHR 0xE2, CHR 0x9C, CHR 0x93] @ '' Success''
                         else ''  '' @ [CHR 0xE2, CHR 0x9C, CHR 0x97] @ '' Failed'']) (\<lambda>_.
     bindE (if i < total_count then on_outside (lib_sleep lib (1 / 2)) else retE ()) (\<lambda>_.
     bindE (print_lines [[]]) (\<lambda>_.
       if success
       then run_scenarios lib total_count (Suc i) scs (Suc ok)
              (dict_set code ((case map_of summary code of Some n \<Rightarrow> n | None \<Rightarrow> 0) + 1) summary)
       else run_scenarios lib total_count (Suc i) scs ok summary)))))"

definition status_line :: "(int \<times> nat) list \<Rightarrow> int \<Rightarrow> string" where
  "status_line summary code =
     ''  '' @ int_str code @ '': '' @ nat_str (the (map_of summary code)) @ '' request(s)''"

definition banner :: string where
  "banner = replicate 70 (CHR ''='')"

text \<open>Whether the proxy answers; any response will do.\<close>

definition proxy_accessible :: "'x requests_lib \<Rightarrow> ('x script, bool) eff" where
  "proxy_accessible lib =
     catchE
       (bindE (fetch_root lib (PROXY_URL @ ''/'') 5) (\<lambda>_.
        bindE (print_lines [[CHR 0xE2, CHR 0x9C, CHR 0x93] @ '' Proxy accessible at '' @ PROXY_URL]) (\<lambda>_.
          retE True)))
       (\<lambda>e. if is_Exception e
            then bindE (print_lines
                   [[CHR 0xE2, CHR 0x9C, CHR 0x97] @ '' Cannot reach proxy at '' @ PROXY_URL @ '': '' @ exn_str e,
                    CHR 0x0A # ''Please ensure docker-compose stack is running:'', ''  docker compose up -d''])
                   (\<lambda>_. retE False)
            else raiseE e)"

definition closing_lines :: "nat \<Rightarrow> (int \<times> nat) list \<Rightarrow> string list" where
  "closing_lines ok summary =
     [banner, ''Test data generation complete!'',
      ''Successful requests: '' @ nat_str ok @ ''/'' @ nat_str (length TEST_SCENARIOS), [],
      ''Response status codes:'']
     @ List.map (status_line summary) (sort (List.map fst summary))
     @ [[], ''Next steps:'', ''  1. Wait 15-30 seconds for Firehose to flush data to S3'',
      ''  2. Verify data in S3:'',
      ''     docker exec localstack-main awslocal s3 ls s3://portunus-logs-local/logs/ --recursive'',
      ''  3. Run the Glue job:'', ''     ./scripts/run-glue-job.sh'',
      ''  4. Extract and inspect results:'', ''     python3 scripts/extract-glue-output.py'', banner]"

text \<open>The exit status.\<close>

definition generate_main :: "'x requests_lib \<Rightarrow> ('x script, int) eff" where
  "generate_main lib =
     bindE (print_lines [banner, ''Generating test data via proxy requests'', banner, []]) (\<lambda>_.
     bindE (proxy_accessible lib) (\<lambda>accessible.
       if \<not> accessible then retE 1
       else
         bindE (print_lines
           [[], ''Making '' @ nat_str (length TEST_SCENARIOS) @ '' varied test requests through the proxy...'',
            ''This will populate Kinesis '' @ [CHR 0xE2, CHR 0x86, CHR 0x92] @ '' Firehose ''
              @ [CHR 0xE2, CHR 0x86, CHR 0x92] @ '' S3 with diverse data'', []]) (\<lambda>_.
         bindE (run_scenarios lib (length TEST_SCENARIOS) 1 TEST_SCENARIOS 0 []) (\<lambda>(ok, summary).
         bindE (print_lines (closing_lines ok summary)) (\<lambda>_.
           retE (if ok = length TEST_SCENARIOS then 0 else 1))))))"

section \<open>What the exit status and the summary say\<close>

definition scenario_requests :: "http_request list" where
  "scenario_requests = List.map (\<lambda>(sc, n). scenario_request sc n) (zip TEST_SCENARIOS [1..<11])"

abbreviation tally :: "(int \<times> nat) list \<Rightarrow> int \<Rightarrow> nat" where
  "tally summary c \<equiv> (case map_of summary c of Some n \<Rightarrow> n | None \<Rightarrow> 0)"

lemma print_lines_run [simp]: "print_lines ls s = (Inr (), s\<lparr>printed := printed s @ ls\<rparr>)"
  by (simp add: print_lines_def modifyE_def)

lemma make_test_request_run:
  assumes "make_test_request lib sc n s = (Inr (success, c), s')"
  shows "\<exists>st. exchanges s' = exchanges s @ [(scenario_request sc n, st)]
    \<and> st = (if success then Some c else None) \<and> probes s' = probes s"
  using assms unfolding make_test_request_def send_request_def catchE_def
  by (auto simp: bindE_def split: prod.splits sum.splits if_splits)

lemma on_outside_exchanges:
  "on_outside op s = (r, s') \<Longrightarrow> exchanges s' = exchanges s \<and> probes s' = probes s"
  by (auto simp: on_outside_def split: prod.splits)

lemma run_scenarios_run:
  assumes "run_scenarios lib total_count i scs ok summary s = (Inr (ok', summary'), s')"
  shows "\<exists>sts. length sts = length scs
    \<and> exchanges s' = exchanges s @ zip (List.map (\<lambda>(sc, n). scenario_request sc n) (zip scs [i..<i + length scs])) sts
    \<and> ok' = ok + length (filter (\<lambda>st. st \<noteq> None) sts)
    \<and> (\<forall>c. tally summary' c = tally summary c + count_list sts (Some c)) \<and> probes s' = probes s"
  using assms
proof (induction scs arbitrary: i ok summary s)
  case (Cons sc scs)
  obtain success c s1 s2 where req: "make_test_request lib sc i
        (s\<lparr>printed := printed s @ [''Request '' @ nat_str i @ ''/'' @ nat_str total_count @ '': '' @ sc_name sc]\<rparr>)
      = (Inr (success, c), s1)"
    and rest: "run_scenarios lib total_count (Suc i) scs (if success then Suc ok else ok)
        (if success then dict_set c (tally summary c + 1) summary else summary) s2 = (Inr (ok', summary'), s')"
    and quiet: "exchanges s2 = exchanges s1" "probes s2 = probes s1"
    using Cons.prems by (auto dest!: bindE_InrD split: if_splits dest!: on_outside_exchanges)
  from make_test_request_run [OF req]
  have e: "exchanges s2 = exchanges s @ [(scenario_request sc i, if success then Some c else None)]"
    "probes s2 = probes s"
    using quiet by auto
  from Cons.IH [OF rest] obtain sts where sts: "length sts = length scs"
    "exchanges s' = exchanges s2 @ zip (List.map (\<lambda>(sc, n). scenario_request sc n)
       (zip scs [Suc i..<Suc i + length scs])) sts"
    "ok' = (if success then Suc ok else ok) + length (filter (\<lambda>st. st \<noteq> None) sts)"
    "\<And>d. tally summary' d = tally (if success then dict_set c (tally summary c + 1) summary else summary) d
       + count_list sts (Some d)" "probes s' = probes s2"
    by blast
  let ?sts = "(if success then Some c else None) # sts"
  have "[i..<i + length (sc # scs)] = i # [Suc i..<Suc i + length scs]" using upt_conv_Cons [of i "i + length (sc # scs)"] by (simp del: upt_Suc)
  then have "exchanges s' = exchanges s @ zip (List.map (\<lambda>(sc, n). scenario_request sc n)
      (zip (sc # scs) [i..<i + length (sc # scs)])) ?sts"
    using sts(2) e(1) by simp
  moreover have "tally summary' d = tally summary d + count_list ?sts (Some d)" for d
    using sts(4) [of d] by auto
  ultimately show ?case using sts(1,3,5) e(2) by (intro exI [of _ ?sts]) auto
qed simp

lemma print_then [simp]: "bindE (print_lines ls) f s = f () (s\<lparr>printed := printed s @ ls\<rparr>)"
  by (simp add: bindE_def)

lemma proxy_accessible_probes:
  assumes "proxy_accessible lib s = (Inr reached, s')"
  shows "exchanges s' = exchanges s \<and> probes s' = probes s @ [(''http://localhost:8888/'', reached)]"
proof -
  obtain r x where g: "lib_get lib (PROXY_URL @ ''/'') 5 (outside s) = (r, x)" by (metis surj_pair)
  then have f: "fetch_root lib (PROXY_URL @ ''/'') 5 s
      = (r, s\<lparr>outside := x, probes := probes s @ [(''http://localhost:8888/'', r = Inr ())]\<rparr>)"
    by (simp add: fetch_root_def PROXY_URL_def)
  show ?thesis
  proof (cases r)
    case (Inl e)
    then show ?thesis
      using assms f unfolding proxy_accessible_def catchE_def
      by (cases "is_Exception e") (auto simp: bindE_def simp del: append.simps)
  next
    case (Inr u)
    then show ?thesis
      using assms f unfolding proxy_accessible_def catchE_def by (auto simp: bindE_def simp del: append.simps)
  qed
qed

lemma generate_main_cases:
  assumes "generate_main lib s = (Inr code, s')"
  obtains "code = 1" "exchanges s' = exchanges s" "probes s' = probes s @ [(''http://localhost:8888/'', False)]"
  | s2 ok summary s3 where "exchanges s2 = exchanges s" "probes s2 = probes s @ [(''http://localhost:8888/'', True)]"
      "run_scenarios lib (length TEST_SCENARIOS) 1 TEST_SCENARIOS 0 [] s2 = (Inr (ok, summary), s3)"
      "s' = s3\<lparr>printed := printed s3 @ closing_lines ok summary\<rparr>"
      "code = (if ok = length TEST_SCENARIOS then 0 else 1)"
proof -
  define ls where "ls = [[], ''Making '' @ nat_str (length TEST_SCENARIOS) @ '' varied test requests through the proxy...'',
            ''This will populate Kinesis '' @ [CHR 0xE2, CHR 0x86, CHR 0x92] @ '' Firehose ''
              @ [CHR 0xE2, CHR 0x86, CHR 0x92] @ '' S3 with diverse data'', []]"
  define top where "top = [banner, ''Generating test data via proxy requests'', banner, []]"
  obtain b s1 where p: "proxy_accessible lib (s\<lparr>printed := printed s @ top\<rparr>) = (Inr b, s1)"
    and rest: "(if \<not> b then retE 1
       else bindE (print_lines ls) (\<lambda>_.
         bindE (run_scenarios lib (length TEST_SCENARIOS) 1 TEST_SCENARIOS 0 []) (\<lambda>(ok, summary).
         bindE (print_lines (closing_lines ok summary)) (\<lambda>_.
           retE (if ok = length TEST_SCENARIOS then 0 else 1))))) s1 = (Inr code, s')"
    using assms unfolding generate_main_def ls_def top_def print_then by (blast dest: bindE_InrD)
  have e: "exchanges s1 = exchanges s" "probes s1 = probes s @ [(''http://localhost:8888/'', b)]"
    using proxy_accessible_probes [OF p] by simp_all
  show thesis
  proof (cases b)
    case False
    then show thesis using rest e by (intro that(1)) simp_all
  next
    case True
    then have "bindE (run_scenarios lib (length TEST_SCENARIOS) 1 TEST_SCENARIOS 0 []) (\<lambda>(ok, summary).
         bindE (print_lines (closing_lines ok summary)) (\<lambda>_.
           retE (if ok = length TEST_SCENARIOS then 0 else 1))) (s1\<lparr>printed := printed s1 @ ls\<rparr>) = (Inr code, s')"
      using rest by simp
    then obtain ok summary s3 where
      "run_scenarios lib (length TEST_SCENARIOS) 1 TEST_SCENARIOS 0 [] (s1\<lparr>printed := printed s1 @ ls\<rparr>)
        = (Inr (ok, summary), s3)"
      "(Inr (if ok = length TEST_SCENARIOS then 0 else 1), s3\<lparr>printed := printed s3 @ closing_lines ok summary\<rparr>)
        = (Inr code :: int res, s')"
      by (auto dest!: bindE_InrD)
    then show thesis using e True by (intro that(2)) auto
  qed
qed

text \<open>
  C40: the script fetches the proxy's root once and exits with 0 or 1, and with 0 exactly when that answered
  and so did every one of the ten scenarios, each sent once and in order.  When the root does not answer,
  nothing else is sent.  The line it prints for a status gives the number of responses that had it.
\<close>

theorem generate_main_reports:
  assumes "generate_main lib s = (Inr code, s')"
  shows "\<exists>reached new. probes s' = probes s @ [(''http://localhost:8888/'', reached)]
    \<and> exchanges s' = exchanges s @ new \<and> code \<in> {0, 1}
    \<and> (code = 0 \<longleftrightarrow> reached \<and> list_all (\<lambda>x. snd x \<noteq> None) new)
    \<and> List.map fst new = (if reached then scenario_requests else [])
    \<and> (\<forall>c \<in> {c. Some c \<in> set (List.map snd new)}.
         ''  '' @ int_str c @ '': '' @ nat_str (count_list (List.map snd new) (Some c)) @ '' request(s)''
           \<in> set (printed s'))"
proof -
  have ten: "length TEST_SCENARIOS = 10" by (simp add: TEST_SCENARIOS_def)
  then have reqs: "length scenario_requests = 10" by (simp add: scenario_requests_def)
  from assms show ?thesis
  proof (cases rule: generate_main_cases)
    case 1
    show ?thesis using 1 by (intro exI [of _ False] exI [of _ "[]"]) auto
  next
    case (2 s2 ok summary s3)
    from run_scenarios_run [OF 2(3)] obtain sts where sts: "length sts = 10"
      "exchanges s3 = exchanges s2 @ zip scenario_requests sts" "ok = length (filter (\<lambda>st. st \<noteq> None) sts)"
      "\<And>c. tally summary c = count_list sts (Some c)" "probes s3 = probes s2"
      unfolding scenario_requests_def by (auto simp: ten)
    let ?new = "zip scenario_requests sts"
    have new: "List.map fst ?new = scenario_requests" "List.map snd ?new = sts" using sts(1) reqs by simp_all
    have "code = 0 \<longleftrightarrow> filter (\<lambda>st. st \<noteq> None) sts = sts"
      unfolding 2(5) ten sts(3) using sts(1)
      by (metis filter_id_conv length_filter_less less_irrefl zero_neq_one)
    then have zero: "code = 0 \<longleftrightarrow> list_all (\<lambda>x. snd x \<noteq> None) ?new"
      using new(2) by (simp add: filter_id_conv list_all_iff) (metis (no_types, lifting) in_set_conv_nth length_map nth_map)
    have "''  '' @ int_str c @ '': '' @ nat_str (count_list sts (Some c)) @ '' request(s)'' \<in> set (printed s')"
      if "Some c \<in> set sts" for c
    proof -
      have "count_list sts (Some c) \<noteq> 0" using that by (simp add: count_list_0_iff)
      then have n: "map_of summary c = Some (count_list sts (Some c))"
        using sts(4) [of c] by (auto split: option.splits)
      then have "c \<in> set (sort (List.map fst summary))" by (simp add: domI flip: dom_map_of_conv_image_fst)
      then have "status_line summary c \<in> set (closing_lines ok summary)"
        unfolding closing_lines_def set_append set_map by blast
      then show ?thesis using 2(4) n by (simp add: status_line_def)
    qed
    moreover have "exchanges s' = exchanges s @ ?new" "code \<in> {0, 1}"
      "probes s' = probes s @ [(''http://localhost:8888/'', True)]"
      using sts(2,5) 2 by simp_all
    ultimately show ?thesis using new zero by (intro exI [of _ True] exI [of _ ?new]) simp
  qed
qed

text \<open>A stack that answers every request with 404.\<close>

definition steady_lib :: "unit requests_lib" where
  "steady_lib = \<lparr>lib_request = (\<lambda>_. retE 404), lib_get = (\<lambda>_ _. retE ()), lib_sleep = (\<lambda>_. retE ())\<rparr>"

lemma on_outside_ret [simp]: "on_outside (retE x) s = (Inr x, s)"
  by (simp add: on_outside_def)

lemma steady_request [simp]:
  "make_test_request steady_lib sc n s
     = (Inr (True, 404), s\<lparr>exchanges := exchanges s @ [(scenario_request sc n, Some 404)],
          printed := printed s @ [''  '' @ sc_method sc @ '' '' @ sc_path sc, ''  Response status: '' @ int_str 404]\<rparr>)"
  by (simp add: make_test_request_def send_request_def catchE_def bindE_def steady_lib_def)

lemma steady_run:
  "\<exists>summary' s'. run_scenarios steady_lib n i scs ok summary s = (Inr (ok + length scs, summary'), s')
     \<and> (\<exists>new. exchanges s' = exchanges s @ new \<and> List.map snd new = replicate (length scs) (Some 404))"
proof (induction scs arbitrary: i ok summary s)
  case (Cons sc scs)
  have sleep: "lib_sleep steady_lib d = retE ()" for d by (simp add: steady_lib_def)
  have "\<exists>summary1 s1. run_scenarios steady_lib n i (sc # scs) ok summary s
      = run_scenarios steady_lib n (Suc i) scs (Suc ok) summary1 s1
      \<and> exchanges s1 = exchanges s @ [(scenario_request sc i, Some 404)]"
    by (simp add: bindE_def sleep) (intro exI conjI, rule refl, simp)
  then obtain summary1 s1 where "run_scenarios steady_lib n i (sc # scs) ok summary s
      = run_scenarios steady_lib n (Suc i) scs (Suc ok) summary1 s1"
    "exchanges s1 = exchanges s @ [(scenario_request sc i, Some 404)]" by blast
  then show ?case using Cons.IH [of "Suc i" "Suc ok" summary1 s1] by auto
qed simp

theorem generate_main_reports_witness:
  "\<exists>s'. generate_main steady_lib \<lparr>outside = (), probes = [], exchanges = [], printed = []\<rparr> = (Inr 0, s')
     \<and> probes s' = [(''http://localhost:8888/'', True)]
     \<and> List.map fst (exchanges s') = scenario_requests \<and> ''  404: 10 request(s)'' \<in> set (printed s')"
proof -
  let ?s = "\<lparr>outside = (), probes = [], exchanges = [], printed = []\<rparr>"
  have ten: "length TEST_SCENARIOS = 10" by (simp add: TEST_SCENARIOS_def)
  define top where "top = [banner, ''Generating test data via proxy requests'', banner, []]"
  define ls where "ls = [[], ''Making '' @ nat_str (length TEST_SCENARIOS) @ '' varied test requests through the proxy...'',
            ''This will populate Kinesis '' @ [CHR 0xE2, CHR 0x86, CHR 0x92] @ '' Firehose ''
              @ [CHR 0xE2, CHR 0x86, CHR 0x92] @ '' S3 with diverse data'', []]"
  obtain s1 where p: "proxy_accessible steady_lib (?s\<lparr>printed := top\<rparr>) = (Inr True, s1)" "exchanges s1 = []"
    by (rule that [of "?s\<lparr>probes := [(PROXY_URL @ ''/'', True)],
          printed := top @ [[CHR 0xE2, CHR 0x9C, CHR 0x93] @ '' Proxy accessible at '' @ PROXY_URL]\<rparr>"])
      (simp_all add: proxy_accessible_def fetch_root_def catchE_def bindE_def steady_lib_def retE_def)
  obtain summary' s2 where r: "run_scenarios steady_lib (length TEST_SCENARIOS) 1 TEST_SCENARIOS 0 []
        (s1\<lparr>printed := printed s1 @ ls\<rparr>) = (Inr (10, summary'), s2)"
      and sts: "List.map snd (exchanges s2) = replicate 10 (Some 404)"
    using steady_run [of "length TEST_SCENARIOS" 1 TEST_SCENARIOS 0 "[]" "s1\<lparr>printed := printed s1 @ ls\<rparr>"] p(2) ten
    by auto
  have "generate_main steady_lib ?s = (Inr 0, s2\<lparr>printed := printed s2 @ closing_lines 10 summary'\<rparr>)"
    using p(1) r unfolding top_def ls_def by (simp add: generate_main_def bindE_def ten)
  then have "\<exists>s'. generate_main steady_lib ?s = (Inr 0, s') \<and> List.map snd (exchanges s') = replicate 10 (Some 404)"
    using sts by simp
  then obtain s' where run: "generate_main steady_lib ?s = (Inr 0, s')"
    and sts: "List.map snd (exchanges s') = replicate 10 (Some 404)" by blast
  have "nat_str 10 = ''10''" "int_str 404 = ''404''" by code_simp+
  moreover have "count_list (replicate 10 (Some (404 :: int))) (Some 404) = 10" by code_simp
  moreover have "(404 :: int) \<in> {c. Some c \<in> set (List.map snd (exchanges s'))}" by (simp add: sts)
  ultimately show ?thesis using generate_main_reports [OF run] run sts by fastforce
qed

section \<open>The header the script sends\<close>

text \<open>The service decodes it, to the credentials and the secret the local stack has.\<close>

lemma mock_header_decodes:
  "\<exists>p. from_contents (strip_bearer create_mock_authorization_header) host = Inr p
     \<and> access_key_id (credentials p) = JStr ''AKIATEST'' \<and> secret_access_key (credentials p) = JStr ''SECRETTEST''
     \<and> session_token (credentials p) = JStr ''TESTTOKEN''
     \<and> secret_arn p = JStr ''arn:aws:secretsmanager:us-east-1:123456789012:secret:test-secret''"
proof -
  define b where "b = ''{\"credentials\":{\"access_key_id\":\"AKIATEST\",\"secret_access_key\":\"SECRETTEST\",''
    @ ''\"session_token\":\"TESTTOKEN\"},''
    @ ''\"secret_arn\":\"arn:aws:secretsmanager:us-east-1:123456789012:secret:test-secret\"}''"
  have "strip_bearer create_mock_authorization_header = drop 7 create_mock_authorization_header" by code_simp
  moreover have "b64decode (drop 7 create_mock_authorization_header) = Inr b" unfolding b_def by code_simp
  moreover have "decode_utf8 b = Inr b" unfolding b_def by code_simp
  moreover have "json_loads b = Inr (JDict [(''credentials'', JDict [(''access_key_id'', JStr ''AKIATEST''),
          (''secret_access_key'', JStr ''SECRETTEST''), (''session_token'', JStr ''TESTTOKEN'')]),
        (''secret_arn'', JStr ''arn:aws:secretsmanager:us-east-1:123456789012:secret:test-secret'')])"
    unfolding b_def by code_simp
  ultimately show ?thesis
    by (simp add: from_contents_def read_payload_def decode_payload_def AwsCredentials_from_dict_def
        AwsCredentials_def AuthPayload_def parse_expiration_def)
qed

end
