(* ===== verification/LogSetup.thy ===== *)
theory LogSetup
  imports Middleware
begin

text \<open>
  The set-up of logging and tracing when the service is imported: \<open>configure_logging\<close> of \<open>logging.py\<close> on
  the loggers of Python's \<open>logging\<close>, and \<open>_configure_xray\<close> of \<open>services/xray_service.py\<close> on the recorder
  of the X-Ray SDK, of which only what is assigned is modelled.
\<close>

section \<open>Loggers\<close>

text \<open>A handler is an object, known by \<open>handler_id\<close>; the service's own formats its records as JSON.\<close>

record log_handler =
  handler_id :: nat
  handler_level :: int
  structured :: bool

record py_logger =
  logger_level :: int
  handlers :: "log_handler list"
  propagates :: bool

record logging_state =
  root_logger :: py_logger
  app_logger :: py_logger

text \<open>\<open>getattr(logging, config.log_level)\<close>, for the names a loaded configuration may hold.\<close>

definition level_number :: "string \<Rightarrow> int res" where
  "level_number name =
     of_option attribute_error
       (map_of [(''DEBUG'', 10), (''INFO'', 20), (''WARNING'', 30), (''ERROR'', 40), (''CRITICAL'', 50)] name)"

text \<open>
  \<open>for handler in root_logger.handlers: root_logger.removeHandler(handler)\<close>: the iterator holds an
  index into the very list that the body shortens.
\<close>

function remove_handlers :: "nat \<Rightarrow> 'h list \<Rightarrow> 'h list" where
  "remove_handlers i hs = (if i < length hs then remove_handlers (Suc i) (remove1 (hs ! i) hs) else hs)"
  by pat_completeness auto
termination by (relation "measure (\<lambda>(i, hs). length hs - i)") (auto simp: length_remove1)

declare remove_handlers.simps [simp del]

text \<open>\<open>fresh\<close> is the identity of the console handler.\<close>

definition configure_logging :: "config \<Rightarrow> nat \<Rightarrow> logging_state \<Rightarrow> logging_state res" where
  "configure_logging cfg fresh st =
     bind_r (level_number (log_level cfg)) (\<lambda>level.
       (let root = (root_logger st)\<lparr>logger_level := level\<rparr>;
            cleared = (if handlers root \<noteq> [] then remove_handlers 0 (handlers root) else []);
            console = \<lparr>handler_id = fresh, handler_level = level, structured = True\<rparr>
        in Inr \<lparr>root_logger = root\<lparr>handlers := cleared @ [console]\<rparr>,
                app_logger = (app_logger st)\<lparr>logger_level := level, propagates := True\<rparr>\<rparr>))"

text \<open>The handlers that write a record of level \<open>l\<close> logged below \<open>api\<close>, in the order they are called.\<close>

definition emitted_by :: "logging_state \<Rightarrow> int \<Rightarrow> log_handler list" where
  "emitted_by st l =
     (if logger_level (app_logger st) \<le> l
      then filter (\<lambda>h. handler_level h \<le> l)
             (handlers (app_logger st)
              @ (if propagates (app_logger st) then handlers (root_logger st) else []))
      else [])"

section \<open>What the loop leaves\<close>

fun every_second :: "'a list \<Rightarrow> 'a list" where
  "every_second [] = []"
| "every_second [x] = []"
| "every_second (x # y # zs) = y # every_second zs"

lemma remove_handlers_from:
  "distinct (pre @ hs) \<Longrightarrow> remove_handlers (length pre) (pre @ hs) = pre @ every_second hs"
proof (induction hs arbitrary: pre rule: every_second.induct)
  case (3 x y zs)
  have "remove1 ((pre @ x # y # zs) ! length pre) (pre @ x # y # zs) = (pre @ [y]) @ zs"
    using 3(2) by (simp add: remove1_append)
  then show ?case
    using 3(1) [of "pre @ [y]"] 3(2) by (subst remove_handlers.simps) simp
next
  case (2 x)
  then show ?case by (subst remove_handlers.simps) (simp add: remove1_append remove_handlers.simps)
qed (simp add: remove_handlers.simps)

lemma loaded_level:
  assumes "log_level cfg \<in> set log_levels"
  shows "\<exists>l \<in> {10, 20, 30, 40, 50}. level_number (log_level cfg) = Inr l"
  using assms by (auto simp: log_levels_def level_number_def)

text \<open>
  With a loaded configuration the set-up succeeds, and afterwards the root logger has the structured
  console handler as its last, after every second of the handlers it had: the loop that should clear
  them skips the one after each it removes.  A line of the service at the configured level or above is
  written by the console once, and by nothing else when at most one handler was there before.
\<close>

theorem configure_logging_handlers:
  assumes "log_level cfg \<in> set log_levels" "distinct (handlers (root_logger st))" "handlers (app_logger st) = []"
  shows "\<exists>st' l console. configure_logging cfg fresh st = Inr st' \<and> level_number (log_level cfg) = Inr l
    \<and> console = \<lparr>handler_id = fresh, handler_level = l, structured = True\<rparr>
    \<and> handlers (root_logger st') = every_second (handlers (root_logger st)) @ [console]
    \<and> (\<forall>n. emitted_by st' n =
         (if l \<le> n then filter (\<lambda>h. handler_level h \<le> n) (every_second (handlers (root_logger st))) @ [console] else []))
    \<and> (every_second (handlers (root_logger st)) = [] \<longleftrightarrow> length (handlers (root_logger st)) \<le> 1)"
proof -
  obtain l where l: "level_number (log_level cfg) = Inr l" using loaded_level [OF assms(1)] by blast
  let ?old = "handlers (root_logger st)"
  have cleared: "(if ?old \<noteq> [] then remove_handlers 0 ?old else []) = every_second ?old"
    using remove_handlers_from [of "[]" ?old] assms(2) by simp
  have "every_second ?old = [] \<longleftrightarrow> length ?old \<le> 1"
    by (cases ?old rule: every_second.cases) simp_all
  then show ?thesis
    using l cleared assms(3) by (auto simp: configure_logging_def emitted_by_def Let_def)
qed

theorem configure_logging_handlers_witness:
  "\<exists>cfg st'. get_config [] = Inr cfg
     \<and> configure_logging cfg 9 \<lparr>root_logger = \<lparr>logger_level = 30, handlers =
            [\<lparr>handler_id = 1, handler_level = 0, structured = False\<rparr>,
             \<lparr>handler_id = 2, handler_level = 0, structured = False\<rparr>], propagates = True\<rparr>,
          app_logger = \<lparr>logger_level = 0, handlers = [], propagates = True\<rparr>\<rparr> = Inr st'
     \<and> List.map handler_id (handlers (root_logger st')) = [2, 9]"
proof -
  obtain cfg where cfg: "get_config [] = Inr cfg" using get_config_defaults by blast
  let ?st = "\<lparr>root_logger = \<lparr>logger_level = 30, handlers =
            [\<lparr>handler_id = 1, handler_level = 0, structured = False\<rparr>,
             \<lparr>handler_id = 2, handler_level = 0, structured = False\<rparr>], propagates = True\<rparr>,
          app_logger = \<lparr>logger_level = 0, handlers = [], propagates = True\<rparr>\<rparr>"
  have "log_level cfg \<in> set log_levels"
    using cfg by (auto simp: get_config_def bind_r_Inr_iff validate_log_level_def)
  from configure_logging_handlers [OF this, of ?st 9] cfg show ?thesis by auto
qed

section \<open>The recorder\<close>

text \<open>\<open>cloudwatch_logs\<close> is the entry of that name in the recorder's metadata, a list of dictionaries.\<close>

record xray_recorder_state =
  libraries_patched :: bool
  recorder_service :: string
  async_context :: bool
  daemon_address :: string
  sampling_on :: bool
  cloudwatch_logs :: "(string \<times> string) list list option"

definition configure_xray :: "aws_config \<Rightarrow> xray_recorder_state \<Rightarrow> xray_recorder_state res" where
  "configure_xray aws rs =
     (let log_resources = (case cloudwatch_logs rs of None \<Rightarrow> [[]] | Some entries \<Rightarrow> entries);
          rs' = rs\<lparr>libraries_patched := True, recorder_service := ''portunus'', async_context := True,
                   daemon_address := xray_daemon_address aws, sampling_on := True\<rparr>;
          extra = (case nonblank (xray_extra_log_groups aws) of
                     Some groups \<Rightarrow> List.map (\<lambda>g. [(''log_group'', py_strip g)])
                                     (filter (\<lambda>g. py_strip g \<noteq> []) (py_split CHR '','' groups))
                   | None \<Rightarrow> [])
      in case log_resources of
           [] \<Rightarrow> Inl (PyError IndexErrorC ''IndexError'' ''list index out of range'')
         | first # others \<Rightarrow>
             Inr (rs'\<lparr>cloudwatch_logs :=
               Some (dict_set ''log_group'' (xray_log_group aws) first # others @ extra)\<rparr>))"

text \<open>A new recorder gets the application's log group and the extra ones, none of them empty but for the first.\<close>

lemma configure_xray_groups:
  assumes "cloudwatch_logs rs = None"
  shows "\<exists>rs'. configure_xray aws rs = Inr rs'
    \<and> cloudwatch_logs rs' = Some (List.map (\<lambda>g. [(''log_group'', g)]) (xray_log_groups aws))"
  using assms
  by (auto simp: configure_xray_def xray_log_groups_def Let_def filter_map comp_def split: option.split)

end
