(* ===== verification/Spec2Isabelle.thy ===== *)
theory Spec2Isabelle
  imports MintLock Provenance Joined RelayLog Server Middleware Waiting Cli TestData LogSetup
begin

text \<open>
  Portunus authorises requests of a proxy (Envoy) to model providers and logs them.  A client puts its
  temporary AWS credentials and the ARN of a secret, as base64 JSON, into the \<open>Authorization\<close> header;
  the service proves the caller's identity at STS, reads the secret with the caller's own credentials,
  and gives the proxy the provider's key: the secret itself, or a token minted through a federation
  role.  Results are cached in Redis.  Headers, bodies and trailers are published to Kinesis streams;
  WebSockets are relayed by the service itself.  Unless a path says otherwise, sources are under \<open>src/portunus/portunus\<close>.

  Foundations.  \<open>Prelude\<close> has the result monad \<open>bind_r\<close> (a raise is \<open>Inl\<close>), Python's string methods and
  insertion-ordered dictionaries; \<open>Exceptions\<close> (\<open>exceptions.py\<close>) the exception hierarchy with
  \<open>isinstance\<close>; \<open>Codec\<close>, \<open>Base64\<close>, \<open>Json\<close>, \<open>JsonBytes\<close>, \<open>Datetime\<close>, \<open>Sha256\<close> the parts of the standard
  library the program uses, each executable and with its round trip (the locale \<open>codec\<close> and its
  interpretations).  A string is the list of its UTF-8 bytes.  \<open>World\<close> is the effect monad: an operation
  maps the state (the clients the process keeps, the outside world, a ghost trace of the calls made) to
  a result and a new state.  Redis, STS, Secrets Manager, the token endpoints, Kinesis, the clock, locks
  and pydantic's coercions are fields of the record \<open>services\<close>: arbitrary functions of the outside state,
  which may fail, time out, or answer anything.  \<open>raises\<close>, \<open>calls\<close> and the locale \<open>frame\<close> are its logic:
  what an operation may raise, which calls it makes, how it changes the state.  \<open>Sim\<close> is a concrete
  world for the witnesses.

  Authorisation.  \<open>Arn\<close> (\<open>arn_service.py\<close>), \<open>Models\<close> (the credentials, payload and result of
  \<open>models.py\<close>, \<open>payload_service.py\<close>), \<open>Secrets\<close> (the secret types of \<open>models.py\<close>,
  \<open>secret_validation_service.py\<close>), \<open>Config\<close> (\<open>config.py\<close>), \<open>StateService\<close> (\<open>state_service.py\<close>), \<open>Cache\<close>
  (\<open>cache_service.py\<close>), \<open>Federation\<close> (\<open>federation_service.py\<close>) and \<open>Auth\<close> (\<open>auth_service.py\<close>,
  \<open>secrets_service.py\<close>) are the services, each a group of definitions in the order of its file.  Their
  lemmas show: a payload is accepted or refused with one error class; a typed secret is never forwarded
  as a key; a role outside the configured accounts and path is refused before any call; minting proves
  the identity before it exchanges it, and its key is the provider's answer to that proof; an authentication acts with the caller's own keys only and raises
  only the documented classes; what is cached lives no longer than what it caches, and a hit returns
  what was stored, under a key that tells payloads and hosts apart.  \<open>MintLock\<close> takes the coroutines of
  the minting path apart into steps and shows single flight, mutual exclusion and progress for every
  interleaving, and that in every infinite fair run each waiter gets the lock, after boundedly many others.
  \<open>Provenance\<close> follows results through the cache that all requests share, other coroutines' writes at every
  await included: under the contract of Redis (the locale \<open>shared_cache\<close>) and no collision of SHA-256 among
  the texts hashed, a result stems from a grant for the same payload and the same host.
  \<open>App\<close> (\<open>app.py\<close>) puts them behind the HTTP endpoints: an answer that carries a key
  carries what \<open>authenticate\<close> returned for that request.

  Logging.  \<open>Publish\<close> (\<open>publish_service.py\<close>, chunking in \<open>util.py\<close>) and \<open>Records\<close>, \<open>Decode\<close>, \<open>Joined\<close> (the
  stream records of \<open>models.py\<close>, the decoding of headers, event streams and bodies, the joined record
  with its Glue schema and partitions).  A logged body comes back whole from the records put on its
  stream; each record conforms to its schema (the locale \<open>kinesis_record\<close>, interpreted for all seven).

  The relay.  \<open>Relay\<close> (\<open>relay/auth.py\<close>, \<open>relay/handler.py\<close>, the publishing functions of \<open>relay/logger.py\<close>):
  no upstream connection without an authentication for that very host, no blocked header forwarded, no
  credential header logged.  \<open>RelayLoop\<close> has the two message pumps as a step relation, \<open>LogQueue\<close> the
  bounded queue with its workers and poison pills, a refinement of a first-in first-out channel (the
  locale \<open>refinement\<close>).  \<open>RelayLog\<close> joins them: a message logged before the shutdown is dealt with by a
  worker, and whatever fails, the records it leaves on its stream are its chunks, in order, each at most once.
  \<open>Server\<close> has the connection limit, the shutdown, and that a request that returns has closed its socket,
  once and last.

  Tools.  \<open>Tracing\<close> (trace header, log line), \<open>Middleware\<close> (\<open>XRayContext\<close> and the access log of
  \<open>logging.py\<close>: it changes no response), \<open>LogSetup\<close> (\<open>configure_logging\<close>, which leaves every second
  handler in place, and the recorder's set-up), \<open>Waiting\<close> (\<open>wait_until\<close> of \<open>util.py\<close>, which ends), \<open>Cli\<close>
  (\<open>cli.py\<close>), and \<open>TestData\<close> (\<open>scripts/generate-test-data.py\<close>), whose exit status and summary tell what the
  stack answered.

  Bounds.  The Redis connection loop has the fuel of the code's own retry count; \<open>wait_until_ends\<close> gives
  the fuel of \<open>wait_until\<close>; the JSON scanner's
  fuel is twice the length of the text, and \<open>scan_more_fuel\<close> shows that more changes nothing; the
  ancestors of an exception class are followed six levels, more than there are.  Python's integers are \<open>int\<close>; \<open>Sha256\<close> computes on 32-bit words.
  Times are whole microseconds; the back-off and the sleeps are exact rationals.

  Not modelled.  The text of the services' log lines and X-Ray annotations; \<open>capture_async\<close>, a cast of the
  recorder's decorator; FastAPI's routing and request parsing;
  connection pools and HTTP transport; the wording of library exceptions where only their class matters;
  \<open>get_current_session_arn\<close> and \<open>get_log_queue\<close>, which nothing calls; shell scripts, the proxy's
  configuration, infrastructure and tests.  A payload that is a list, a target host that is neither null nor a string, and cached
  values that are not strings where \<open>AuthResult\<close> declares strings, are outside the relay and endpoint
  models.  \<open>str.lower\<close> is that of ASCII.  \<open>json_loads\<close> has neither Python's recursion limit nor its limit on
  the digits of an integer, and keeps a float as it is written.
\<close>

end
